(* ===== verification/Prelude.thy ===== *)
theory Prelude
  imports Main "HOL-Library.Word"
begin

text \<open>
  Shared vocabulary of the development.

  \<^item> Go errors: every \<open>fmt.Errorf\<close> of the source is an \<open>Errorf\<close> value holding the literal
    format string and its arguments; an error that comes from outside the repository (netlink,
    the operating system, a gRPC peer) is \<open>Ext\<close> with its message.
  \<^item> Outcomes: a Go function that returns \<open>(T, error)\<close> yields a \<open>res\<close>: \<open>Ok\<close> (nil error),
    \<open>Err\<close>, \<open>Panic\<close> (a run-time panic such as an index out of range) or \<open>Exit\<close>
    (\<open>log.Fatalf\<close>, \<open>os.Exit\<close>).
  \<^item> Effects: a function that touches the outside world is a \<open>prog\<close>, a state transformer on a
    world type that stays a type variable. Calls of code outside the repository are \<open>ext\<close>
    functions handed to the definitions that use them; they return an error or a value and
    cannot panic.
  \<^item> A weakest-precondition calculus for \<open>prog\<close> (\<open>wp\<close>) and two compositional judgements,
    \<open>total\<close> (never panics nor exits) and \<open>keeps I\<close> (preserves a predicate of the world).
\<close>

section \<open>Errors and outcomes\<close>

datatype error =
    Ext string
  | Errorf string "arg list"
and arg =
    S string
  | I int
  | E error
  | NilErr

datatype 'a res =
    Ok 'a
  | Err error
  | Panic string
  | Exit string

fun abnormal :: "'a res \<Rightarrow> bool" where
  "abnormal (Panic _) = True"
| "abnormal (Exit _) = True"
| "abnormal _ = False"

fun is_Ok :: "'a res \<Rightarrow> bool" where
  "is_Ok (Ok _) = True"
| "is_Ok _ = False"

lemma abnormal_iff: "abnormal r \<longleftrightarrow> (\<exists>m. r = Panic m \<or> r = Exit m)"
  by (cases r) auto

lemma is_Ok_iff: "is_Ok r \<longleftrightarrow> (\<exists>a. r = Ok a)"
  by (cases r) auto

section \<open>Programs\<close>

type_synonym ('w, 'a) prog = "'w \<Rightarrow> 'a res \<times> 'w"
type_synonym ('w, 'a) ext = "'w \<Rightarrow> (error + 'a) \<times> 'w"
type_synonym byte = "8 word"

definition ret :: "'a \<Rightarrow> ('w, 'a) prog" where
  "ret a = (\<lambda>w. (Ok a, w))"

definition fail :: "error \<Rightarrow> ('w, 'a) prog" where
  "fail e = (\<lambda>w. (Err e, w))"

definition panic :: "string \<Rightarrow> ('w, 'a) prog" where
  "panic m = (\<lambda>w. (Panic m, w))"

definition exit_process :: "string \<Rightarrow> ('w, 'a) prog" where
  "exit_process m = (\<lambda>w. (Exit m, w))"

text \<open>An outcome that is already computed, as a program with no effect.\<close>

definition of_res :: "'a res \<Rightarrow> ('w, 'a) prog" where
  "of_res r = (\<lambda>w. (r, w))"

fun of_sum :: "error + 'a \<Rightarrow> 'a res" where
  "of_sum (Inl e) = Err e"
| "of_sum (Inr a) = Ok a"

text \<open>Reading and writing the state a program runs on.\<close>

definition gets :: "('w \<Rightarrow> 'a) \<Rightarrow> ('w, 'a) prog" where
  "gets f = (\<lambda>w. (Ok (f w), w))"

definition modify :: "('w \<Rightarrow> 'w) \<Rightarrow> ('w, unit) prog" where
  "modify f = (\<lambda>w. (Ok (), f w))"

text \<open>A call of code outside the repository.\<close>

definition call :: "('w, 'a) ext \<Rightarrow> ('w, 'a) prog" where
  "call f = (\<lambda>w. case f w of (Inl e, w') \<Rightarrow> (Err e, w') | (Inr a, w') \<Rightarrow> (Ok a, w'))"

text \<open>A call of code outside the repository that only looks at the world.\<close>

definition ask :: "('w \<Rightarrow> error + 'a) \<Rightarrow> ('w, 'a) prog" where
  "ask f = (\<lambda>w. (of_sum (f w), w))"

text \<open>
  \<open>v, err := m(); if err != nil { h(err) } else { k(v) }\<close>. A panic or an exit is not an error
  value: it leaves both continuations out.
\<close>

definition try_else :: "('w, 'a) prog \<Rightarrow> (error \<Rightarrow> ('w, 'b) prog) \<Rightarrow> ('a \<Rightarrow> ('w, 'b) prog) \<Rightarrow> ('w, 'b) prog" where
  "try_else m h k = (\<lambda>w. case m w of
       (Ok a, w') \<Rightarrow> k a w'
     | (Err e, w') \<Rightarrow> h e w'
     | (Panic p, w') \<Rightarrow> (Panic p, w')
     | (Exit p, w') \<Rightarrow> (Exit p, w'))"

text \<open>\<open>if err != nil { return fmt.Errorf(\<dots>, err) }\<close>\<close>

definition check :: "('w, 'a) prog \<Rightarrow> (error \<Rightarrow> error) \<Rightarrow> ('a \<Rightarrow> ('w, 'b) prog) \<Rightarrow> ('w, 'b) prog" where
  "check m f k = try_else m (\<lambda>e. fail (f e)) k"

text \<open>\<open>if err != nil { return err }\<close>\<close>

definition andthen :: "('w, 'a) prog \<Rightarrow> ('a \<Rightarrow> ('w, 'b) prog) \<Rightarrow> ('w, 'b) prog" where
  "andthen m k = try_else m fail k"

text \<open>\<open>_ = m()\<close>: the result and the error are both dropped.\<close>

definition ignore :: "('w, 'a) prog \<Rightarrow> ('w, unit) prog" where
  "ignore m = try_else m (\<lambda>_. ret ()) (\<lambda>_. ret ())"

text \<open>A function whose result alone depends on the world is lifted to a larger state.\<close>

definition zoom :: "('s \<Rightarrow> 'w) \<Rightarrow> (('w \<Rightarrow> 'w) \<Rightarrow> 's \<Rightarrow> 's) \<Rightarrow> ('w, 'a) prog \<Rightarrow> ('s, 'a) prog" where
  "zoom get upd m = (\<lambda>s. case m (get s) of (r, w') \<Rightarrow> (r, upd (\<lambda>_. w') s))"

text \<open>A \<open>for\<close> loop over a list whose body may return early with an error.\<close>

fun for_each :: "'a list \<Rightarrow> ('a \<Rightarrow> ('w, unit) prog) \<Rightarrow> ('w, unit) prog" where
  "for_each [] f = ret ()"
| "for_each (x # xs) f = andthen (f x) (\<lambda>_. for_each xs f)"

text \<open>\<open>defer d()\<close> followed by the rest of the function: the deferred call also runs when the function
  fails or panics, but not when the process exits. Its own error is dropped, its panic is not.\<close>

definition deferring :: "('w, 'b) prog \<Rightarrow> ('w, 'a) prog \<Rightarrow> ('w, 'a) prog" where
  "deferring d m = (\<lambda>w. case m w of
       (Exit p, w') \<Rightarrow> (Exit p, w')
     | (r, w') \<Rightarrow> (case d w' of
           (Panic p, w'') \<Rightarrow> (Panic p, w'')
         | (Exit p, w'') \<Rightarrow> (Exit p, w'')
         | (_, w'') \<Rightarrow> (r, w'')))"

text \<open>Programs whose first step is already known.\<close>

lemma of_res_cases [simp]:
  "of_res (Ok a) = ret a" "of_res (Err e) = fail e"
  "of_res (Panic p) = panic p" "of_res (Exit p) = exit_process p"
  by (simp_all add: of_res_def ret_def fail_def panic_def exit_process_def)

lemma try_else_known [simp]:
  "try_else (ret a) h k = k a" "try_else (fail e) h k = h e"
  "try_else (panic p) h k = panic p" "try_else (exit_process p) h k = exit_process p"
  "try_else (gets f) h k w = k (f w) w"
  by (simp_all add: try_else_def ret_def fail_def panic_def exit_process_def gets_def)

lemma try_else_modify [simp]: "try_else (modify g) h k w = k () (g w)"
  by (simp add: try_else_def modify_def)

lemma check_known [simp]:
  "check (ret a) f k = k a" "check (fail e) f k = fail (f e)"
  "check (panic p) f k = panic p" "check (exit_process p) f k = exit_process p"
  "check (gets g) f k w = k (g w) w"
  by (simp_all add: check_def)

lemma andthen_known [simp]:
  "andthen (ret a) k = k a" "andthen (fail e) k = fail e"
  "andthen (panic p) k = panic p" "andthen (exit_process p) k = exit_process p"
  "andthen (gets f) k w = k (f w) w"
  by (simp_all add: andthen_def)

lemma andthen_modify [simp]: "andthen (modify g) k w = k () (g w)"
  by (simp add: andthen_def)

lemma try_else_ask [simp]:
  "try_else (ask f) h k w = (case f w of Inl e \<Rightarrow> h e w | Inr a \<Rightarrow> k a w)"
  "check (ask f) g k w = (case f w of Inl e \<Rightarrow> (Err (g e), w) | Inr a \<Rightarrow> k a w)"
  by (simp_all add: check_def try_else_def ask_def fail_def split: sum.split)

text \<open>The outcome of a call, for a known argument.\<close>

lemma run_call:
  "try_else (call g) h k w = (case g w of (Inl e, w') \<Rightarrow> h e w' | (Inr a, w') \<Rightarrow> k a w')"
  "check (call g) f k w = (case g w of (Inl e, w') \<Rightarrow> (Err (f e), w') | (Inr a, w') \<Rightarrow> k a w')"
  "andthen (call g) k w = (case g w of (Inl e, w') \<Rightarrow> (Err e, w') | (Inr a, w') \<Rightarrow> k a w')"
  by (auto simp: andthen_def check_def try_else_def call_def fail_def split: prod.split sum.split)

lemma deferring_call:
  "deferring (call f) m w = (case m w of (Exit p, w') \<Rightarrow> (Exit p, w') | (r, w') \<Rightarrow> (r, snd (f w')))"
  by (auto simp: deferring_def call_def split: prod.split res.split sum.split)

text \<open>Running a basic program, in the shapes that do not rewrite the program itself.\<close>

lemma run_ret [simp]:
  "fst (ret a w) = Ok a" "snd (ret a w) = w"
  "ret a w = (r, w') \<longleftrightarrow> r = Ok a \<and> w' = w"
  "case_prod q (ret a w) = q (Ok a) (w)"
  by (auto simp: ret_def)

lemma run_fail [simp]:
  "fst (fail e w) = Err e" "snd (fail e w) = w"
  "fail e w = (r, w') \<longleftrightarrow> r = Err e \<and> w' = w"
  "case_prod q (fail e w) = q (Err e) (w)"
  by (auto simp: fail_def)

lemma run_panic [simp]:
  "fst (panic p w) = Panic p" "snd (panic p w) = w"
  "panic p w = (r, w') \<longleftrightarrow> r = Panic p \<and> w' = w"
  "case_prod q (panic p w) = q (Panic p) (w)"
  by (auto simp: panic_def)

lemma run_exit_process [simp]:
  "fst (exit_process p w) = Exit p" "snd (exit_process p w) = w"
  "exit_process p w = (r, w') \<longleftrightarrow> r = Exit p \<and> w' = w"
  "case_prod q (exit_process p w) = q (Exit p) (w)"
  by (auto simp: exit_process_def)

lemma run_gets [simp]:
  "fst (gets f w) = Ok (f w)" "snd (gets f w) = w"
  "gets f w = (r, w') \<longleftrightarrow> r = Ok (f w) \<and> w' = w"
  "case_prod q (gets f w) = q (Ok (f w)) (w)"
  by (auto simp: gets_def)

lemma run_modify [simp]:
  "fst (modify g w) = Ok ()" "snd (modify g w) = g w"
  "modify g w = (r, w') \<longleftrightarrow> r = Ok () \<and> w' = g w"
  "case_prod q (modify g w) = q (Ok ()) (g w)"
  by (auto simp: modify_def)

text \<open>The runs that end with a value, step by step.\<close>

named_theorems ok_iffs \<open>when a program returns a value\<close>

lemma andthen_Ok [ok_iffs]:
  "andthen m k w = (Ok a, w') \<longleftrightarrow> (\<exists>b w1. m w = (Ok b, w1) \<and> k b w1 = (Ok a, w'))"
  by (auto simp: andthen_def try_else_def fail_def split: prod.splits res.splits)

lemma check_Ok [ok_iffs]:
  "check m f k w = (Ok a, w') \<longleftrightarrow> (\<exists>b w1. m w = (Ok b, w1) \<and> k b w1 = (Ok a, w'))"
  by (auto simp: check_def try_else_def fail_def split: prod.splits res.splits)

lemma call_Ok [ok_iffs]: "call f w = (Ok a, w') \<longleftrightarrow> f w = (Inr a, w')"
  by (auto simp: call_def split: prod.splits sum.splits)

lemma of_res_Ok [ok_iffs]: "of_res r w = (Ok a, w') \<longleftrightarrow> r = Ok a \<and> w' = w"
  by (auto simp: of_res_def)

lemma of_sum_Ok [ok_iffs]: "of_sum r = Ok a \<longleftrightarrow> r = Inr a"
  by (cases r) auto

lemma ask_Ok [ok_iffs]: "ask f w = (Ok a, w') \<longleftrightarrow> f w = Inr a \<and> w' = w"
  by (auto simp: ask_def of_sum_Ok)

lemma zoom_Ok [ok_iffs]:
  "zoom get upd m s = (Ok a, s') \<longleftrightarrow> (\<exists>w. m (get s) = (Ok a, w) \<and> s' = upd (\<lambda>_. w) s)"
  by (auto simp: zoom_def split: prod.splits)

lemma deferring_Ok [ok_iffs]:
  "deferring d m w = (Ok a, w') \<longleftrightarrow> (\<exists>w1 q. m w = (Ok a, w1) \<and> d w1 = (q, w') \<and> \<not> abnormal q)"
  by (auto simp: deferring_def split: prod.splits res.splits)

section \<open>Weakest preconditions\<close>

definition wp :: "('w, 'a) prog \<Rightarrow> ('a res \<Rightarrow> 'w \<Rightarrow> bool) \<Rightarrow> 'w \<Rightarrow> bool" where
  "wp m Q w = (case m w of (r, w') \<Rightarrow> Q r w')"

named_theorems wp_rules \<open>equations that compute weakest preconditions\<close>

lemma wp_iff: "wp m Q w \<longleftrightarrow> Q (fst (m w)) (snd (m w))"
  by (simp add: wp_def split: prod.split)

lemma wpD: "wp m Q w \<Longrightarrow> m w = (r, w') \<Longrightarrow> Q r w'"
  by (simp add: wp_def)

lemma wpI: "(\<And>r w'. m w = (r, w') \<Longrightarrow> Q r w') \<Longrightarrow> wp m Q w"
  by (simp add: wp_def split: prod.split)

lemma wp_mono: "wp m P w \<Longrightarrow> (\<And>r w'. P r w' \<Longrightarrow> Q r w') \<Longrightarrow> wp m Q w"
  by (auto simp: wp_def)

lemma wp_ret [wp_rules]: "wp (ret a) Q w \<longleftrightarrow> Q (Ok a) w"
  by (simp add: wp_def ret_def)

lemma wp_fail [wp_rules]: "wp (fail e) Q w \<longleftrightarrow> Q (Err e) w"
  by (simp add: wp_def fail_def)

lemma wp_panic [wp_rules]: "wp (panic m) Q w \<longleftrightarrow> Q (Panic m) w"
  by (simp add: wp_def panic_def)

lemma wp_exit [wp_rules]: "wp (exit_process m) Q w \<longleftrightarrow> Q (Exit m) w"
  by (simp add: wp_def exit_process_def)

lemma wp_of_res [wp_rules]: "wp (of_res r) Q w \<longleftrightarrow> Q r w"
  by (simp add: wp_def of_res_def)

lemma wp_gets [wp_rules]: "wp (gets f) Q w \<longleftrightarrow> Q (Ok (f w)) w"
  by (simp add: wp_def gets_def)

lemma wp_modify [wp_rules]: "wp (modify f) Q w \<longleftrightarrow> Q (Ok ()) (f w)"
  by (simp add: wp_def modify_def)

lemma wp_call [wp_rules]:
  "wp (call f) Q w \<longleftrightarrow> (case f w of (Inl e, w') \<Rightarrow> Q (Err e) w' | (Inr a, w') \<Rightarrow> Q (Ok a) w')"
  by (simp add: wp_def call_def split: prod.split sum.split)

lemma wp_ask [wp_rules]: "wp (ask f) Q w \<longleftrightarrow> Q (of_sum (f w)) w"
  by (simp add: wp_def ask_def)

lemma wp_try_else [wp_rules]:
  "wp (try_else m h k) Q w \<longleftrightarrow> wp m (\<lambda>r w'. case r of
      Ok a \<Rightarrow> wp (k a) Q w' | Err e \<Rightarrow> wp (h e) Q w'
    | Panic p \<Rightarrow> Q (Panic p) w' | Exit p \<Rightarrow> Q (Exit p) w') w"
  by (simp add: wp_def try_else_def split: prod.split res.split)

lemma wp_check [wp_rules]:
  "wp (check m f k) Q w \<longleftrightarrow> wp m (\<lambda>r w'. case r of
      Ok a \<Rightarrow> wp (k a) Q w' | Err e \<Rightarrow> Q (Err (f e)) w'
    | Panic p \<Rightarrow> Q (Panic p) w' | Exit p \<Rightarrow> Q (Exit p) w') w"
  by (simp add: check_def wp_try_else wp_fail cong: res.case_cong)

lemma wp_andthen [wp_rules]:
  "wp (andthen m k) Q w \<longleftrightarrow> wp m (\<lambda>r w'. case r of
      Ok a \<Rightarrow> wp (k a) Q w' | Err e \<Rightarrow> Q (Err e) w'
    | Panic p \<Rightarrow> Q (Panic p) w' | Exit p \<Rightarrow> Q (Exit p) w') w"
  by (simp add: andthen_def wp_try_else wp_fail cong: res.case_cong)

lemma wp_ignore [wp_rules]:
  "wp (ignore m) Q w \<longleftrightarrow> wp m (\<lambda>r w'. case r of
      Panic p \<Rightarrow> Q (Panic p) w' | Exit p \<Rightarrow> Q (Exit p) w' | _ \<Rightarrow> Q (Ok ()) w') w"
  by (simp add: ignore_def wp_try_else wp_ret cong: res.case_cong)

lemma wp_zoom [wp_rules]:
  "wp (zoom get upd m) Q s \<longleftrightarrow> wp m (\<lambda>r w'. Q r (upd (\<lambda>_. w') s)) (get s)"
  by (simp add: wp_def zoom_def split: prod.split)

lemma wp_deferring [wp_rules]:
  "wp (deferring d m) Q w \<longleftrightarrow> wp m (\<lambda>r w'. case r of Exit p \<Rightarrow> Q (Exit p) w'
    | _ \<Rightarrow> wp d (\<lambda>q w''. case q of Panic p \<Rightarrow> Q (Panic p) w'' | Exit p \<Rightarrow> Q (Exit p) w'' | _ \<Rightarrow> Q r w'') w') w"
  by (simp add: wp_def deferring_def split: prod.split res.split)

section \<open>Programs that never panic, programs that preserve a predicate\<close>

definition total :: "('w, 'a) prog \<Rightarrow> bool" where
  "total m \<longleftrightarrow> (\<forall>w. \<not> abnormal (fst (m w)))"

definition keeps :: "('w \<Rightarrow> bool) \<Rightarrow> ('w, 'a) prog \<Rightarrow> bool" where
  "keeps P m \<longleftrightarrow> (\<forall>w. P w \<longrightarrow> P (snd (m w)))"

definition keeps_ext :: "('w \<Rightarrow> bool) \<Rightarrow> ('w, 'a) ext \<Rightarrow> bool" where
  "keeps_ext P f \<longleftrightarrow> (\<forall>w. P w \<longrightarrow> P (snd (f w)))"

named_theorems total_intros \<open>programs that return a value or an error\<close>
named_theorems keeps_intros \<open>programs that preserve a predicate of the world\<close>

lemma totalD: "total m \<Longrightarrow> m w = (r, w') \<Longrightarrow> \<not> abnormal r"
  by (auto simp: total_def dest: spec [of _ w])

lemma keepsD: "keeps P m \<Longrightarrow> P w \<Longrightarrow> m w = (r, w') \<Longrightarrow> P w'"
  by (auto simp: keeps_def dest: spec [of _ w])

lemma total_wp: "total m \<longleftrightarrow> (\<forall>w. wp m (\<lambda>r _. \<not> abnormal r) w)"
  by (simp add: total_def wp_iff)

lemma keeps_wp: "keeps P m \<longleftrightarrow> (\<forall>w. P w \<longrightarrow> wp m (\<lambda>_ w'. P w') w)"
  by (simp add: keeps_def wp_iff)

lemma total_ret [total_intros]: "total (ret a)"
  and total_fail [total_intros]: "total (fail e)"
  by (simp_all add: total_def ret_def fail_def)

lemma total_gets [total_intros]: "total (gets f)"
  and total_modify [total_intros]: "total (modify g)"
  by (simp_all add: total_def gets_def modify_def)

lemma total_of_sum [total_intros]: "total (of_res (of_sum r))"
  by (cases r) (simp_all add: total_def of_res_def)

lemma total_call [total_intros]: "total (call f)"
  by (simp add: total_wp wp_call split: prod.split sum.split)

lemma total_ask [total_intros]: "total (ask f)"
proof -
  have "\<not> abnormal (of_sum r)" for r :: "error + 'b" by (cases r) simp_all
  then show ?thesis by (simp add: total_def ask_def)
qed

lemma total_try_else [total_intros]:
  "total m \<Longrightarrow> (\<And>e. total (h e)) \<Longrightarrow> (\<And>a. total (k a)) \<Longrightarrow> total (try_else m h k)"
  unfolding total_wp wp_try_else
  by (auto elim!: wp_mono [rotated] split: res.splits dest: spec intro: wp_mono)

lemma total_check [total_intros]:
  "total m \<Longrightarrow> (\<And>a. total (k a)) \<Longrightarrow> total (check m f k)"
  by (simp add: check_def total_try_else total_fail)

lemma total_andthen [total_intros]:
  "total m \<Longrightarrow> (\<And>a. total (k a)) \<Longrightarrow> total (andthen m k)"
  by (simp add: andthen_def total_try_else total_fail)

lemma total_ignore [total_intros]: "total m \<Longrightarrow> total (ignore m)"
  by (simp add: ignore_def total_try_else total_ret)

lemma total_zoom [total_intros]: "total m \<Longrightarrow> total (zoom get upd m)"
  by (simp add: total_def zoom_def split: prod.split) (metis fst_conv)

lemma total_deferring [total_intros]:
  assumes "total d" "total m"
  shows "total (deferring d m)"
proof -
  have "\<not> abnormal (fst (deferring d m w))" for w
  proof (cases "m w")
    case (Pair r w1)
    obtain q w2 where q: "d w1 = (q, w2)" by fastforce
    with Pair assms have "\<not> abnormal r" "\<not> abnormal q" by (auto dest: totalD)
    with Pair q show ?thesis by (auto simp: deferring_def split: res.splits)
  qed
  then show ?thesis by (simp add: total_def)
qed

lemma total_if [total_intros]: "(b \<Longrightarrow> total m) \<Longrightarrow> (\<not> b \<Longrightarrow> total n) \<Longrightarrow> total (if b then m else n)"
  by simp

lemma total_for_each [total_intros]:
  "(\<And>x. x \<in> set xs \<Longrightarrow> total (f x)) \<Longrightarrow> total (for_each xs f)"
  by (induction xs) (auto intro!: total_intros)

lemma keeps_ret [keeps_intros]: "keeps P (ret a)"
  and keeps_fail [keeps_intros]: "keeps P (fail e)"
  and keeps_panic [keeps_intros]: "keeps P (panic m)"
  and keeps_exit [keeps_intros]: "keeps P (exit_process m)"
  and keeps_of_res [keeps_intros]: "keeps P (of_res r)"
  by (simp_all add: keeps_def ret_def fail_def panic_def exit_process_def of_res_def)

lemma keeps_gets [keeps_intros]: "keeps P (gets f)"
  by (simp add: keeps_def gets_def)

lemma keeps_modify [keeps_intros]: "(\<And>w. P w \<Longrightarrow> P (g w)) \<Longrightarrow> keeps P (modify g)"
  by (simp add: keeps_def modify_def)

lemma keeps_call [keeps_intros]: "keeps_ext P f \<Longrightarrow> keeps P (call f)"
  by (auto simp: keeps_def keeps_ext_def call_def split: prod.split sum.split)

lemma keeps_ask [keeps_intros]: "keeps P (ask f)"
  by (simp add: keeps_def ask_def)

lemma keeps_try_else [keeps_intros]:
  "keeps P m \<Longrightarrow> (\<And>e. keeps P (h e)) \<Longrightarrow> (\<And>a. keeps P (k a)) \<Longrightarrow> keeps P (try_else m h k)"
  unfolding keeps_wp wp_try_else
  by (auto split: res.splits dest: spec intro: wp_mono)

lemma keeps_check [keeps_intros]:
  "keeps P m \<Longrightarrow> (\<And>a. keeps P (k a)) \<Longrightarrow> keeps P (check m f k)"
  by (simp add: check_def keeps_try_else keeps_fail)

lemma keeps_andthen [keeps_intros]:
  "keeps P m \<Longrightarrow> (\<And>a. keeps P (k a)) \<Longrightarrow> keeps P (andthen m k)"
  by (simp add: andthen_def keeps_try_else keeps_fail)

lemma keeps_ignore [keeps_intros]: "keeps P m \<Longrightarrow> keeps P (ignore m)"
  by (simp add: ignore_def keeps_try_else keeps_ret)

lemma keeps_deferring [keeps_intros]:
  "keeps P d \<Longrightarrow> keeps P m \<Longrightarrow> keeps P (deferring d m)"
  unfolding keeps_wp wp_deferring
  by (auto elim!: wp_mono [rotated] split: res.splits intro: wp_mono)

lemma keeps_if [keeps_intros]: "(b \<Longrightarrow> keeps P m) \<Longrightarrow> (\<not> b \<Longrightarrow> keeps P n) \<Longrightarrow> keeps P (if b then m else n)"
  by simp

lemma keeps_for_each [keeps_intros]:
  "(\<And>x. x \<in> set xs \<Longrightarrow> keeps P (f x)) \<Longrightarrow> keeps P (for_each xs f)"
  by (induction xs) (auto intro!: keeps_intros)

section \<open>Lists\<close>

text \<open>Go's \<open>xs[i]\<close>: out of range is a run-time panic.\<close>

definition index :: "'a list \<Rightarrow> int \<Rightarrow> 'a res" where
  "index xs i = (if 0 \<le> i \<and> i < int (length xs) then Ok (xs ! nat i)
                 else Panic ''index out of range'')"

lemma index_Ok_iff: "index xs i = Ok x \<longleftrightarrow> 0 \<le> i \<and> i < int (length xs) \<and> xs ! nat i = x"
  by (auto simp: index_def)

lemma index_not_Err: "index xs i \<noteq> Err e"
  by (simp add: index_def)

end
