(* ===== verification/GoStrconv.thy ===== *)
theory GoStrconv
  imports Prelude
begin

text \<open>
  What the source uses of Go's \<open>strconv\<close>, \<open>strings\<close> and \<open>fmt\<close> packages: decimal and
  hexadecimal rendering (\<open>%d\<close>, \<open>%x\<close>), \<open>strconv.Atoi\<close> and \<open>strconv.ParseUint\<close> with their
  range checks, \<open>strings.Split\<close>, \<open>strings.Join\<close>, \<open>strings.TrimSpace\<close> and
  \<open>strings.ToLower\<close>. Strings are lists of bytes; white space and case are those of ASCII, which
  is what the files and flags the code reads contain.
\<close>

section \<open>Digits\<close>

definition digit_char :: "nat \<Rightarrow> char" where
  "digit_char d = char_of ((if d < 10 then 48 else 87) + d)"

definition char_digit :: "char \<Rightarrow> nat option" where
  "char_digit c = (let n = of_char c :: nat in
     if 48 \<le> n \<and> n \<le> 57 then Some (n - 48)
     else if 97 \<le> n \<and> n \<le> 122 then Some (n - 87)
     else if 65 \<le> n \<and> n \<le> 90 then Some (n - 55)
     else None)"

lemma of_digit_char: "d < 36 \<Longrightarrow> (of_char (digit_char d) :: nat) = (if d < 10 then 48 else 87) + d"
  by (auto simp: digit_char_def)

lemma char_digit_digit_char [simp]: "d < 36 \<Longrightarrow> char_digit (digit_char d) = Some d"
  by (auto simp: char_digit_def of_digit_char Let_def)

text \<open>The lower-case rendering of a natural number in a base, most significant digit first.\<close>

fun digits :: "nat \<Rightarrow> nat \<Rightarrow> string" where
  "digits b n = (if n < b \<or> b < 2 then [digit_char n]
                 else digits b (n div b) @ [digit_char (n mod b)])"

declare digits.simps [simp del]

fun parse_digits :: "nat \<Rightarrow> nat \<Rightarrow> string \<Rightarrow> nat option" where
  "parse_digits b acc [] = Some acc"
| "parse_digits b acc (c # cs) = (case char_digit c of
     None \<Rightarrow> None
   | Some d \<Rightarrow> if d < b then parse_digits b (acc * b + d) cs else None)"

lemma parse_digits_append:
  "parse_digits b acc (xs @ ys) = Option.bind (parse_digits b acc xs) (\<lambda>a. parse_digits b a ys)"
  by (induction b acc xs rule: parse_digits.induct) (auto split: option.splits)

lemma digits_not_Nil [simp]: "digits b n \<noteq> []"
  by (subst digits.simps) simp

lemma parse_digits_digits:
  assumes "2 \<le> b" "b \<le> 36"
  shows "parse_digits b 0 (digits b n) = Some n"
proof (induction n rule: less_induct)
  case (less n)
  show ?case
  proof (cases "n < b")
    case True
    with assms show ?thesis by (subst digits.simps) simp
  next
    case False
    with assms have "n div b < n" and bound: "n mod b < b" by simp_all
    moreover from bound assms(2) have "n mod b < 36" by linarith
    ultimately show ?thesis using less.IH [of "n div b"] False assms
      by (subst digits.simps) (simp add: parse_digits_append)
  qed
qed

lemma set_digits:
  assumes "2 \<le> b" "c \<in> set (digits b n)"
  shows "\<exists>d < b. c = digit_char d"
  using assms(2)
proof (induction n rule: less_induct)
  case (less n)
  show ?case
  proof (cases "n < b")
    case True
    with less.prems show ?thesis by (subst (asm) digits.simps) auto
  next
    case False
    with assms have smaller: "n div b < n" "n mod b < b" by simp_all
    from less.prems False assms(1) have "c \<in> set (digits b (n div b)) \<or> c = digit_char (n mod b)"
      by (subst (asm) digits.simps) auto
    with less.IH [OF smaller(1)] smaller(2) show ?thesis by blast
  qed
qed

text \<open>Decimal digits are the characters \<open>0\<close> to \<open>9\<close>: no separator of the rule syntax is one.\<close>

lemma decimal_digit_range: "c \<in> set (digits 10 n) \<Longrightarrow> 48 \<le> (of_char c :: nat) \<and> (of_char c :: nat) \<le> 57"
  by (drule set_digits [rotated]) (auto simp: of_digit_char)

section \<open>fmt.Sprintf verbs and strconv.Itoa\<close>

definition Itoa :: "int \<Rightarrow> string" where
  "Itoa i = (if i < 0 then CHR ''-'' # digits 10 (nat (- i)) else digits 10 (nat i))"

definition fmt_x :: "64 word \<Rightarrow> string" where
  "fmt_x w = digits 16 (unat w)"

lemma Itoa_not_Nil [simp]: "Itoa i \<noteq> []"
  by (simp add: Itoa_def)

lemma digits_inject: "2 \<le> b \<Longrightarrow> b \<le> 36 \<Longrightarrow> digits b m = digits b n \<longleftrightarrow> m = n"
  by (metis parse_digits_digits option.inject)

lemma fmt_x_inject [simp]: "fmt_x v = fmt_x w \<longleftrightarrow> v = w"
  by (simp add: fmt_x_def digits_inject word_eq_iff_unsigned [where ?'a = nat])

lemma hd_digits_not_sign: "hd (digits 10 n) \<noteq> CHR ''-'' \<and> hd (digits 10 n) \<noteq> CHR ''+''"
  using decimal_digit_range [OF hd_in_set [OF digits_not_Nil [of 10 n]]] by auto

lemma Itoa_inject [simp]: "Itoa i = Itoa j \<longleftrightarrow> i = j"
proof -
  have "digits 10 n \<noteq> CHR ''-'' # s" for n s
    using hd_digits_not_sign [of n] by auto
  then show ?thesis
    by (auto simp: Itoa_def digits_inject split: if_splits) (metis)+
qed

lemma set_Itoa:
  assumes "c \<in> set (Itoa i)"
  shows "c = CHR ''-'' \<or> (48 \<le> (of_char c :: nat) \<and> (of_char c :: nat) \<le> 57)"
  using assms decimal_digit_range by (auto simp: Itoa_def split: if_splits)

section \<open>strconv.Atoi and strconv.ParseUint\<close>

definition split_sign :: "string \<Rightarrow> bool \<times> string" where
  "split_sign s = (case s of [] \<Rightarrow> (False, [])
     | c # cs \<Rightarrow> if c = CHR ''-'' then (True, cs)
                 else if c = CHR ''+'' then (False, cs) else (False, s))"

definition err_syntax :: "string \<Rightarrow> string \<Rightarrow> error" where
  "err_syntax fn s = Errorf ''strconv.%s: parsing %q: invalid syntax'' [S fn, S s]"

definition err_range :: "string \<Rightarrow> string \<Rightarrow> error" where
  "err_range fn s = Errorf ''strconv.%s: parsing %q: value out of range'' [S fn, S s]"

text \<open>\<open>int\<close> is 64 bits wide on the platforms the repository builds for (amd64, arm64, ppc64le).\<close>

definition in_int64 :: "int \<Rightarrow> bool" where
  "in_int64 i \<longleftrightarrow> - (2 ^ 63) \<le> i \<and> i < 2 ^ 63"

definition Atoi :: "string \<Rightarrow> error + int" where
  "Atoi s = (case split_sign s of (neg, ds) \<Rightarrow>
     if ds = [] then Inl (err_syntax ''Atoi'' s)
     else (case parse_digits 10 0 ds of
       None \<Rightarrow> Inl (err_syntax ''Atoi'' s)
     | Some n \<Rightarrow> (let i = (if neg then - int n else int n) in
         if in_int64 i then Inr i else Inl (err_range ''Atoi'' s))))"

text \<open>\<open>ParseUint(s, 16, 64)\<close> returns a value beside its error: 0 for bad syntax, the largest
  64-bit value when the number does not fit.\<close>

definition ParseUint16 :: "string \<Rightarrow> 64 word \<times> error option" where
  "ParseUint16 s = (if s = [] then (0, Some (err_syntax ''ParseUint'' s))
     else case parse_digits 16 0 s of
       None \<Rightarrow> (0, Some (err_syntax ''ParseUint'' s))
     | Some n \<Rightarrow> if n < 2 ^ 64 then (of_nat n, None)
                 else (-1, Some (err_range ''ParseUint'' s)))"

lemma split_sign_digits [simp]: "split_sign (digits 10 n) = (False, digits 10 n)"
  using hd_digits_not_sign [of n] by (cases "digits 10 n") (auto simp: split_sign_def)

theorem Atoi_Itoa: "in_int64 i \<Longrightarrow> Atoi (Itoa i) = Inr i"
  by (auto simp: Atoi_def Itoa_def parse_digits_digits Let_def)
     (auto simp: split_sign_def parse_digits_digits)

lemma Atoi_range: "Atoi s = Inr i \<Longrightarrow> in_int64 i"
  by (auto simp: Atoi_def Let_def split: prod.splits if_splits option.splits)

section \<open>strings\<close>

fun strings_Split :: "char \<Rightarrow> string \<Rightarrow> string list" where
  "strings_Split c [] = [[]]"
| "strings_Split c (x # xs) = (if x = c then [] # strings_Split c xs
     else case strings_Split c xs of [] \<Rightarrow> [[x]] | y # ys \<Rightarrow> (x # y) # ys)"

fun strings_Join :: "string \<Rightarrow> string list \<Rightarrow> string" where
  "strings_Join sep [] = []"
| "strings_Join sep [x] = x"
| "strings_Join sep (x # y # zs) = x @ sep @ strings_Join sep (y # zs)"

definition is_space :: "char \<Rightarrow> bool" where
  "is_space c \<longleftrightarrow> (let n = of_char c :: nat in n = 32 \<or> (9 \<le> n \<and> n \<le> 13))"

definition TrimSpace :: "string \<Rightarrow> string" where
  "TrimSpace s = rev (dropWhile is_space (rev (dropWhile is_space s)))"

definition lower_char :: "char \<Rightarrow> char" where
  "lower_char c = (let n = of_char c :: nat in if 65 \<le> n \<and> n \<le> 90 then char_of (n + 32) else c)"

definition ToLower :: "string \<Rightarrow> string" where
  "ToLower s = map lower_char s"

lemma strings_Split_not_Nil [simp]: "strings_Split c s \<noteq> []"
  by (induction s) (auto split: list.splits)

lemma strings_Split_append:
  "c \<notin> set x \<Longrightarrow> strings_Split c (x @ c # rest) = x # strings_Split c rest"
  by (induction x) auto

lemma strings_Split_no_sep: "c \<notin> set x \<Longrightarrow> strings_Split c x = [x]"
  by (induction x) auto

lemma strings_Split_Join:
  "xs \<noteq> [] \<Longrightarrow> (\<forall>x \<in> set xs. c \<notin> set x) \<Longrightarrow> strings_Split c (strings_Join [c] xs) = xs"
  by (induction "[c]" xs rule: strings_Join.induct)
     (auto simp: strings_Split_no_sep strings_Split_append)

lemma lower_char_idem [simp]: "lower_char (lower_char c) = lower_char c"
  by (auto simp: lower_char_def Let_def)

lemma ToLower_idem: "ToLower (ToLower s) = ToLower s"
  by (simp add: ToLower_def)

end
