(* ===== verification/GoNet.thy ===== *)
theory GoNet
  imports GoStrconv
begin

text \<open>
  What the source uses of Go's \<open>net\<close> package: hardware addresses (\<open>ParseMAC\<close> and
  \<open>HardwareAddr.String\<close>, with the round trip between them) and IP addresses (\<open>ParseIP\<close>,
  \<open>To4\<close>, \<open>To16\<close>). Addresses are byte lists, as in Go.
\<close>

section \<open>Hardware addresses\<close>

definition hex2 :: "byte \<Rightarrow> string" where
  "hex2 b = [digit_char (unat b div 16), digit_char (unat b mod 16)]"

definition MacString :: "byte list \<Rightarrow> string" where
  "MacString hw = strings_Join '':'' (map hex2 hw)"

definition hex_digit :: "char \<Rightarrow> nat option" where
  "hex_digit c = (case char_digit c of None \<Rightarrow> None | Some d \<Rightarrow> if d < 16 then Some d else None)"

definition xtoi2 :: "char \<Rightarrow> char \<Rightarrow> byte option" where
  "xtoi2 a b = (case (hex_digit a, hex_digit b) of
     (Some x, Some y) \<Rightarrow> Some (of_nat (16 * x + y)) | _ \<Rightarrow> None)"

text \<open>\<open>aa:bb:\<dots>\<close> or \<open>aa-bb-\<dots>\<close>: two hex digits, each followed by the separator or the end.\<close>

fun mac_pairs :: "char \<Rightarrow> string \<Rightarrow> byte list option" where
  "mac_pairs sep [a, b] = (case xtoi2 a b of None \<Rightarrow> None | Some x \<Rightarrow> Some [x])"
| "mac_pairs sep (a # b # c # rest) = (if c \<noteq> sep then None else
     (case xtoi2 a b of None \<Rightarrow> None | Some x \<Rightarrow> map_option ((#) x) (mac_pairs sep rest)))"
| "mac_pairs sep _ = None"

text \<open>\<open>aabb.ccdd.\<dots>\<close>: four hex digits, each followed by a dot or the end.\<close>

fun mac_quads :: "string \<Rightarrow> byte list option" where
  "mac_quads [a, b, c, d] = (case (xtoi2 a b, xtoi2 c d) of
     (Some x, Some y) \<Rightarrow> Some [x, y] | _ \<Rightarrow> None)"
| "mac_quads (a # b # c # d # e # rest) = (if e \<noteq> CHR ''.'' then None else
     (case (xtoi2 a b, xtoi2 c d) of
       (Some x, Some y) \<Rightarrow> map_option (\<lambda>r. x # y # r) (mac_quads rest) | _ \<Rightarrow> None))"
| "mac_quads _ = None"

definition mac_sizes :: "nat set" where
  "mac_sizes = {6, 8, 20}"

definition err_mac :: "string \<Rightarrow> error" where
  "err_mac s = Errorf ''address %s: invalid MAC address'' [S s]"

definition ParseMAC :: "string \<Rightarrow> error + byte list" where
  "ParseMAC s =
    (let n = length s; r =
      (if n < 14 then None
       else if s ! 2 = CHR '':'' \<or> s ! 2 = CHR ''-'' then
         (if (n + 1) mod 3 \<noteq> 0 \<or> (n + 1) div 3 \<notin> mac_sizes then None else mac_pairs (s ! 2) s)
       else if s ! 4 = CHR ''.'' then
         (if (n + 1) mod 5 \<noteq> 0 \<or> 2 * (n + 1) div 5 \<notin> mac_sizes then None else mac_quads s)
       else None)
     in case r of None \<Rightarrow> Inl (err_mac s) | Some hw \<Rightarrow> Inr hw)"

lemma mac_sizes_iff [simp]: "n \<in> mac_sizes \<longleftrightarrow> n = 6 \<or> n = 8 \<or> n = 20"
  by (simp add: mac_sizes_def)

lemma unat_byte_less: "unat (b :: byte) < 256"
  using unsigned_less [of b] by simp

lemma xtoi2_hex2:
  "xtoi2 (digit_char (unat b div 16)) (digit_char (unat b mod 16)) = Some (b :: byte)"
proof -
  have "unat b div 16 < 16" using unat_byte_less [of b] by simp
  then show ?thesis by (simp add: xtoi2_def hex_digit_def)
qed

lemma length_Join_hex2: "hw \<noteq> [] \<Longrightarrow> length (MacString hw) + 1 = 3 * length hw"
  unfolding MacString_def
  by (induction hw rule: induct_list012) (auto simp: hex2_def)

lemma mac_pairs_MacString:
  "hw \<noteq> [] \<Longrightarrow> mac_pairs (CHR '':'') (MacString hw) = Some hw"
proof (induction hw rule: induct_list012)
  case (2 x)
  then show ?case by (simp add: MacString_def hex2_def xtoi2_hex2)
next
  case (3 x y zs)
  then show ?case by (simp add: MacString_def hex2_def xtoi2_hex2)
qed simp

lemma MacString_third:
  assumes "2 \<le> length hw"
  shows "MacString hw ! 2 = CHR '':''"
proof -
  from assms obtain x y zs where "hw = x # y # zs"
    by (metis Suc_le_length_iff numeral_2_eq_2)
  then show ?thesis by (simp add: MacString_def hex2_def)
qed

theorem ParseMAC_MacString:
  assumes "length hw \<in> mac_sizes"
  shows "ParseMAC (MacString hw) = Inr hw"
proof -
  from assms have ne: "hw \<noteq> []" and two: "2 \<le> length hw" by auto
  have len: "length (MacString hw) + 1 = 3 * length hw"
    by (rule length_Join_hex2 [OF ne])
  with assms have "14 \<le> length (MacString hw)" by auto
  moreover from len have "Suc (length (MacString hw)) mod 3 = 0"
    and "Suc (length (MacString hw)) div 3 = length hw" by simp_all
  ultimately show ?thesis
    using assms MacString_third [OF two] mac_pairs_MacString [OF ne]
    by (simp add: ParseMAC_def Let_def)
qed

lemma mac_pairs_length: "mac_pairs sep s = Some hw \<Longrightarrow> length s + 1 = 3 * length hw"
  by (induction sep s arbitrary: hw rule: mac_pairs.induct)
     (auto split: option.splits if_splits)

lemma mac_quads_length: "mac_quads s = Some hw \<Longrightarrow> 2 * (length s + 1) = 5 * length hw"
  by (induction s arbitrary: hw rule: mac_quads.induct)
     (auto split: option.splits if_splits)

lemma ParseMAC_size:
  assumes "ParseMAC s = Inr hw"
  shows "length hw \<in> mac_sizes"
proof -
  from assms consider
      (pairs) "(length s + 1) div 3 \<in> mac_sizes" "mac_pairs (s ! 2) s = Some hw"
    | (quads) "2 * (length s + 1) div 5 \<in> mac_sizes" "mac_quads s = Some hw"
    by (auto simp: ParseMAC_def Let_def split: option.splits if_splits)
  then show ?thesis
  proof cases
    case pairs
    then show ?thesis using mac_pairs_length [OF pairs(2)] by simp
  next
    case quads
    then show ?thesis using mac_quads_length [OF quads(2)] by simp
  qed
qed

lemma ParseMAC_empty: "\<exists>e. ParseMAC [] = Inl e"
  by (simp add: ParseMAC_def Let_def)

text \<open>The rendering uses lower-case hex digits and colons only.\<close>

lemma set_hex2: "c \<in> set (hex2 b) \<Longrightarrow> \<exists>d < 16. c = digit_char d"
proof -
  assume "c \<in> set (hex2 b)"
  then have "c = digit_char (unat b div 16) \<or> c = digit_char (unat b mod 16)"
    by (simp add: hex2_def)
  moreover have "unat b div 16 < 16" using unat_byte_less [of b] by simp
  moreover have "unat b mod 16 < 16" by (rule mod_less_divisor) simp
  ultimately show ?thesis by blast
qed

lemma set_MacString:
  "c \<in> set (MacString hw) \<Longrightarrow> c = CHR '':'' \<or> (\<exists>d < 16. c = digit_char d)"
  unfolding MacString_def
  by (induction hw rule: induct_list012) (auto dest: set_hex2)

lemma hex2_inject: "hex2 a = hex2 b \<longleftrightarrow> a = b"
proof
  assume "hex2 a = hex2 b"
  then have "xtoi2 (hex2 a ! 0) (hex2 a ! 1) = xtoi2 (hex2 b ! 0) (hex2 b ! 1)" by simp
  then show "a = b" by (simp add: hex2_def xtoi2_hex2)
qed simp

lemma hex2_no_colon: "CHR '':'' \<notin> set (hex2 b)"
proof
  assume "CHR '':'' \<in> set (hex2 b)"
  then obtain d where "d < 16" "digit_char d = CHR '':''" by (metis set_hex2)
  then have "(if d < 10 then 48 else 87) + d = (of_char CHR '':'' :: nat)"
    using of_digit_char [of d] by simp
  then show False by (simp split: if_splits)
qed

lemma Split_MacString: "hw \<noteq> [] \<Longrightarrow> strings_Split (CHR '':'') (MacString hw) = map hex2 hw"
  by (simp add: MacString_def strings_Split_Join hex2_no_colon)

lemma MacString_inject: "MacString a = MacString b \<longleftrightarrow> a = b"
proof
  assume eq: "MacString a = MacString b"
  have empty: "MacString hw = [] \<longleftrightarrow> hw = []" for hw
    by (induction hw rule: induct_list012) (simp_all add: MacString_def hex2_def)
  show "a = b"
  proof (cases "a = []")
    case False
    with eq empty have "b \<noteq> []" by metis
    with eq False Split_MacString [of a] Split_MacString [of b] have "map hex2 a = map hex2 b" by simp
    then show ?thesis by (metis (no_types) hex2_inject list.inj_map_strong)
  qed (use eq empty in metis)
qed simp

lemma lower_digit_char: "d < 16 \<Longrightarrow> lower_char (digit_char d) = digit_char d"
  by (cases "d < 10") (auto simp: lower_char_def of_digit_char)

lemma lower_char_colon: "lower_char CHR '':'' = CHR '':''"
  by (simp add: lower_char_def)

lemma ToLower_MacString: "ToLower (MacString hw) = MacString hw"
  unfolding ToLower_def
  by (rule map_idI) (auto dest!: set_MacString simp: lower_digit_char lower_char_colon)

section \<open>IP addresses\<close>

definition v4InV6Prefix :: "byte list" where
  "v4InV6Prefix = replicate 10 0 @ [255, 255]"

definition To4 :: "byte list \<Rightarrow> byte list option" where
  "To4 ip = (if length ip = 4 then Some ip
     else if length ip = 16 \<and> take 12 ip = v4InV6Prefix then Some (drop 12 ip) else None)"

definition To16 :: "byte list \<Rightarrow> byte list option" where
  "To16 ip = (if length ip = 4 then Some (v4InV6Prefix @ ip)
     else if length ip = 16 then Some ip else None)"

lemma To4_length: "To4 ip = Some b \<Longrightarrow> length b = 4"
  by (auto simp: To4_def split: if_splits)

lemma To16_length: "To16 ip = Some b \<Longrightarrow> length b = 16"
  by (auto simp: To16_def v4InV6Prefix_def split: if_splits)

lemma To4_To16: "To16 ip = Some b \<Longrightarrow> To4 b = To4 ip"
  by (auto simp: To16_def To4_def v4InV6Prefix_def split: if_splits)

text \<open>One octet of the dotted form: one to three digits without a leading zero, at most 255.\<close>

definition ipv4_field :: "string \<Rightarrow> byte option" where
  "ipv4_field s = (if s = [] \<or> (hd s = CHR ''0'' \<and> length s > 1) then None
     else case parse_digits 10 0 s of None \<Rightarrow> None
       | Some n \<Rightarrow> if n < 256 then Some (of_nat n) else None)"

definition ipv4_fields :: "string \<Rightarrow> byte list option" where
  "ipv4_fields s = (case map ipv4_field (strings_Split (CHR ''.'') s) of
     [Some a, Some b, Some c, Some d] \<Rightarrow> Some [a, b, c, d] | _ \<Rightarrow> None)"

text \<open>
  The colon form. \<open>ipv6_groups k acc ell s\<close> is the loop of \<open>netip.parseIPv6\<close> with \<open>acc\<close> the bytes
  parsed so far and \<open>ell\<close> the position of the ellipsis; at most eight rounds are possible, so
  \<open>k = 8\<close> is enough. A zone makes \<open>net.ParseIP\<close> fail.
\<close>

definition expand_ellipsis :: "byte list \<Rightarrow> nat option \<Rightarrow> byte list option" where
  "expand_ellipsis acc ell = (case ell of
     None \<Rightarrow> if length acc = 16 then Some acc else None
   | Some p \<Rightarrow> if length acc < 16
       then Some (take p acc @ replicate (16 - length acc) 0 @ drop p acc) else None)"

definition is_hex :: "char \<Rightarrow> bool" where
  "is_hex c \<longleftrightarrow> hex_digit c \<noteq> None"

fun ipv6_groups :: "nat \<Rightarrow> byte list \<Rightarrow> nat option \<Rightarrow> string \<Rightarrow> byte list option" where
  "ipv6_groups 0 acc ell s = (if s = [] then expand_ellipsis acc ell else None)"
| "ipv6_groups (Suc k) acc ell s =
    (let h = takeWhile is_hex s; rest = dropWhile is_hex s in
     if h = [] \<or> length h > 4 then None
     else if rest \<noteq> [] \<and> hd rest = CHR ''.'' then
       (if (ell = None \<and> length acc \<noteq> 12) \<or> length acc + 4 > 16 then None
        else (case ipv4_fields s of None \<Rightarrow> None | Some q \<Rightarrow> expand_ellipsis (acc @ q) ell))
     else case parse_digits 16 0 h of None \<Rightarrow> None
     | Some n \<Rightarrow> (let acc' = acc @ [of_nat (n div 256), of_nat (n mod 256)] in
         case rest of
           [] \<Rightarrow> expand_ellipsis acc' ell
         | [c] \<Rightarrow> None
         | c # d # rest' \<Rightarrow>
             if c \<noteq> CHR '':'' then None
             else if d = CHR '':'' then
               (if ell \<noteq> None then None
                else if rest' = [] then expand_ellipsis acc' (Some (length acc'))
                else ipv6_groups k acc' (Some (length acc')) rest')
             else ipv6_groups k acc' ell (d # rest')))"

definition ipv6_addr :: "string \<Rightarrow> byte list option" where
  "ipv6_addr s = (case s of
     c # d # rest \<Rightarrow>
       if c = CHR '':'' \<and> d = CHR '':'' then
         (if rest = [] then Some (replicate 16 0) else ipv6_groups 8 [] (Some 0) rest)
       else ipv6_groups 8 [] None s
   | _ \<Rightarrow> ipv6_groups 8 [] None s)"

definition ParseIP :: "string \<Rightarrow> byte list option" where
  "ParseIP s = (case find (\<lambda>c. c = CHR ''.'' \<or> c = CHR '':'' \<or> c = CHR ''%'') s of
     Some c \<Rightarrow> if c = CHR ''.'' then map_option (\<lambda>b. v4InV6Prefix @ b) (ipv4_fields s)
       else if c = CHR '':'' \<and> CHR ''%'' \<notin> set s then ipv6_addr s else None
   | None \<Rightarrow> None)"

lemma ParseIP_dotted:
  "map_option To4 (ParseIP ''192.168.1.1'') = Some (Some [192, 168, 1, 1])"
  by (simp add: ParseIP_def ipv4_fields_def ipv4_field_def char_digit_def v4InV6Prefix_def To4_def)

lemma ParseIP_short: "ParseIP ''192.168.1'' = None"
  by (simp add: ParseIP_def ipv4_fields_def ipv4_field_def char_digit_def)

section \<open>Printing an IP address\<close>

text \<open>\<open>IP.String\<close>: dotted decimal, or eight groups in hexadecimal with the first longest run of at least
  two zero groups written \<open>::\<close>.\<close>

fun ipv6_split :: "byte list \<Rightarrow> nat list" where
  "ipv6_split (a # b # r) = (256 * unat a + unat b) # ipv6_split r"
| "ipv6_split _ = []"

definition zero_run :: "nat list \<Rightarrow> nat \<Rightarrow> nat" where
  "zero_run gs i = length (takeWhile (\<lambda>g. g = 0) (drop i gs))"

definition longest_run :: "nat list \<Rightarrow> (nat \<times> nat) option" where
  "longest_run gs = foldl (\<lambda>best i. if 2 \<le> zero_run gs i \<and> (case best of None \<Rightarrow> True | Some (_, l) \<Rightarrow> l < zero_run gs i)
     then Some (i, zero_run gs i) else best) None [0..<length gs]"

definition ipv6_string :: "nat list \<Rightarrow> string" where
  "ipv6_string gs = (case longest_run gs of
      None \<Rightarrow> strings_Join '':'' (map (digits 16) gs)
    | Some (i, l) \<Rightarrow> strings_Join '':'' (map (digits 16) (take i gs)) @ ''::'' @
        strings_Join '':'' (map (digits 16) (drop (i + l) gs)))"

definition IP_String :: "byte list \<Rightarrow> string" where
  "IP_String ip = (if ip = [] then ''<nil>''
     else if length ip \<noteq> 4 \<and> length ip \<noteq> 16 then ''?'' @ concat (map hex2 ip)
     else case To4 ip of
        Some b \<Rightarrow> strings_Join ''.'' (map (\<lambda>x. digits 10 (unat x)) b)
      | None \<Rightarrow> ipv6_string (ipv6_split ip))"

lemma IP_String_examples:
  "IP_String [10, 0, 0, 7] = ''10.0.0.7''"
  "IP_String [0xfe, 0x80, 0, 0, 0, 0, 0, 0, 0, 0, 0, 0, 0, 0, 0, 1] = ''fe80::1''"
  by (simp_all add: IP_String_def To4_def ipv6_string_def longest_run_def zero_run_def upt_rec v4InV6Prefix_def
      digits.simps digit_char_def char_of_def bit_iff_odd)

end
