(* ===== verification/Netlink.thy ===== *)
theory Netlink
  imports GoNet
begin

text \<open>
  What the plugin and the CNI read of the netlink library's data: the attributes of a link, the
  virtual functions a physical function reports, and the link states of a virtual function.
\<close>

record link_attrs =
  Name :: string
  Index :: int
  ParentIndex :: int
  HardwareAddr :: "byte list"

text \<open>\<open>netlink.VfInfo\<close>\<close>

record VfInfo =
  ID :: int
  Mac :: "byte list"
  vfVlan :: int
  Qos :: int
  vfVlanProto :: int
  Spoofchk :: bool
  vfLinkState :: "32 word"
  vfMaxTxRate :: "32 word"
  vfMinTxRate :: "32 word"
  vfTrust :: "32 word"

record sriov_link = link_attrs +
  Vfs :: "VfInfo list"

definition VF_LINK_STATE_AUTO :: "32 word" where "VF_LINK_STATE_AUTO = 0"
definition VF_LINK_STATE_ENABLE :: "32 word" where "VF_LINK_STATE_ENABLE = 1"
definition VF_LINK_STATE_DISABLE :: "32 word" where "VF_LINK_STATE_DISABLE = 2"

end
