(* ===== verification/SriovUtils.thy ===== *)
theory SriovUtils
  imports Netlink
begin

text \<open>
  The netlink side of \<open>sriov_cni/pkg/utils\<close>: the \<open>NetlinkManager\<close> interface with its forwarding
  implementation (\<open>netlink_manager.go\<close>), and from \<open>utils.go\<close> the retry loop, the two functions that
  set a MAC address and read it back, and the address predicates. \<open>time.Sleep\<close> is a function on
  the world: the drivers the comment of \<open>SetVFEffectiveMAC\<close> talks about change it meanwhile.
\<close>

section \<open>The netlink manager\<close>

record 'w NetlinkManager =
  LinkByName :: "string \<Rightarrow> ('w, sriov_link) ext"
  LinkSetVfVlanQosProto :: "sriov_link \<Rightarrow> int \<Rightarrow> int \<Rightarrow> int \<Rightarrow> int \<Rightarrow> ('w, unit) ext"
  LinkSetVfHardwareAddr :: "sriov_link \<Rightarrow> int \<Rightarrow> byte list \<Rightarrow> ('w, unit) ext"
  LinkSetHardwareAddr :: "sriov_link \<Rightarrow> byte list \<Rightarrow> ('w, unit) ext"
  LinkSetUp :: "sriov_link \<Rightarrow> ('w, unit) ext"
  LinkSetDown :: "sriov_link \<Rightarrow> ('w, unit) ext"
  LinkSetNsFd :: "sriov_link \<Rightarrow> int \<Rightarrow> ('w, unit) ext"
  LinkSetName :: "sriov_link \<Rightarrow> string \<Rightarrow> ('w, unit) ext"
  LinkSetVfRate :: "sriov_link \<Rightarrow> int \<Rightarrow> int \<Rightarrow> int \<Rightarrow> ('w, unit) ext"
  LinkSetVfSpoofchk :: "sriov_link \<Rightarrow> int \<Rightarrow> bool \<Rightarrow> ('w, unit) ext"
  LinkSetVfTrust :: "sriov_link \<Rightarrow> int \<Rightarrow> bool \<Rightarrow> ('w, unit) ext"
  LinkSetVfState :: "sriov_link \<Rightarrow> int \<Rightarrow> 32 word \<Rightarrow> ('w, unit) ext"

text \<open>\<open>MyNetlink\<close> forwards each method to the function of the netlink library of the same name.\<close>

definition MyNetlink :: "'w NetlinkManager \<Rightarrow> 'w NetlinkManager" where
  "MyNetlink netlink =
     \<lparr>LinkByName = \<lambda>name. LinkByName netlink name,
      LinkSetVfVlanQosProto = \<lambda>link vf vlan qos proto. LinkSetVfVlanQosProto netlink link vf vlan qos proto,
      LinkSetVfHardwareAddr = \<lambda>link vf hwaddr. LinkSetVfHardwareAddr netlink link vf hwaddr,
      LinkSetHardwareAddr = \<lambda>link hwaddr. LinkSetHardwareAddr netlink link hwaddr,
      LinkSetUp = \<lambda>link. LinkSetUp netlink link,
      LinkSetDown = \<lambda>link. LinkSetDown netlink link,
      LinkSetNsFd = \<lambda>link fd. LinkSetNsFd netlink link fd,
      LinkSetName = \<lambda>link name. LinkSetName netlink link name,
      LinkSetVfRate = \<lambda>link vf minRate maxRate. LinkSetVfRate netlink link vf minRate maxRate,
      LinkSetVfSpoofchk = \<lambda>link vf chk. LinkSetVfSpoofchk netlink link vf chk,
      LinkSetVfTrust = \<lambda>link vf state. LinkSetVfTrust netlink link vf state,
      LinkSetVfState = \<lambda>link vf state. LinkSetVfState netlink link vf state\<rparr>"

lemma MyNetlink_id [simp]: "MyNetlink netlink = (netlink :: 'w NetlinkManager)"
  by (simp add: MyNetlink_def)

section \<open>Retry\<close>

text \<open>\<open>retry_from sleep d n f err\<close> is the loop with \<open>n\<close> rounds left and \<open>err\<close> the last error.\<close>

fun retry_from :: "(nat \<Rightarrow> 'w \<Rightarrow> 'w) \<Rightarrow> nat \<Rightarrow> nat \<Rightarrow> ('w, unit) prog \<Rightarrow> error option \<Rightarrow> ('w, unit) prog" where
  "retry_from sleep d 0 f err = (case err of None \<Rightarrow> ret () | Some e \<Rightarrow> fail e)"
| "retry_from sleep d (Suc n) f err =
     try_else f (\<lambda>e. andthen (modify (sleep d)) (\<lambda>_. retry_from sleep d n f (Some e))) (\<lambda>_. ret ())"

definition Retry :: "(nat \<Rightarrow> 'w \<Rightarrow> 'w) \<Rightarrow> int \<Rightarrow> nat \<Rightarrow> ('w, unit) prog \<Rightarrow> ('w, unit) prog" where
  "Retry sleep retries d f = retry_from sleep d (nat retries) f None"

section \<open>Setting a MAC address\<close>

definition err_parse_mac :: "string \<Rightarrow> error \<Rightarrow> error" where
  "err_parse_mac mac err = Errorf ''failed to parse MAC address %s: %v'' [S mac, E err]"

definition err_get_link :: "string \<Rightarrow> error \<Rightarrow> error" where
  "err_get_link name err = Errorf ''failed to get netlink device with name %s: %q'' [S name, E err]"

definition SetVFEffectiveMAC :: "(nat \<Rightarrow> 'w \<Rightarrow> 'w) \<Rightarrow> 'w NetlinkManager \<Rightarrow> string \<Rightarrow> string \<Rightarrow> ('w, unit) prog" where
  "SetVFEffectiveMAC sleep nl netDeviceName macAddress =
     check (of_res (of_sum (ParseMAC macAddress))) (err_parse_mac macAddress) (\<lambda>hwaddr.
     andthen (call (LinkByName nl netDeviceName)) (\<lambda>orgLinkObj.
     Retry sleep 20 100
       (andthen (call (LinkSetHardwareAddr nl orgLinkObj hwaddr)) (\<lambda>_.
        check (call (LinkByName nl netDeviceName)) (err_get_link (Name orgLinkObj)) (\<lambda>linkObj.
        if MacString (HardwareAddr linkObj) \<noteq> macAddress
        then fail (Errorf ''effective mac address is different from requested one'' [])
        else ret ())))))"

definition SetVFHardwareMAC :: "(nat \<Rightarrow> 'w \<Rightarrow> 'w) \<Rightarrow> 'w NetlinkManager \<Rightarrow> string \<Rightarrow> int \<Rightarrow> string \<Rightarrow> ('w, unit) prog" where
  "SetVFHardwareMAC sleep nl pfDevice vfID macAddress =
     check (of_res (of_sum (ParseMAC macAddress))) (err_parse_mac macAddress) (\<lambda>hwaddr.
     andthen (call (LinkByName nl pfDevice)) (\<lambda>orgLinkObj.
     Retry sleep 20 100
       (andthen (call (LinkSetVfHardwareAddr nl orgLinkObj vfID hwaddr)) (\<lambda>_.
        check (call (LinkByName nl pfDevice)) (err_get_link (Name orgLinkObj)) (\<lambda>linkObj.
        andthen (of_res (index (Vfs linkObj) vfID)) (\<lambda>vf.
        if MacString (Mac vf) \<noteq> macAddress
        then fail (Errorf ''hardware mac address is different from requested one'' [])
        else ret ()))))))"

section \<open>Address predicates\<close>

definition invalidMACAddresses :: "byte list list" where
  "invalidMACAddresses = [[0, 0, 0, 0, 0, 0], [255, 255, 255, 255, 255, 255]]"

definition IsValidMACAddress :: "byte list \<Rightarrow> bool" where
  "IsValidMACAddress addr \<longleftrightarrow> length addr = 6 \<and> \<not> (\<exists>invalid \<in> set invalidMACAddresses. addr = invalid)"

definition IsIPv4 :: "byte list \<Rightarrow> bool" where
  "IsIPv4 ip \<longleftrightarrow> To4 ip \<noteq> None"

definition IsIPv6 :: "byte list \<Rightarrow> bool" where
  "IsIPv6 ip \<longleftrightarrow> To4 ip = None \<and> To16 ip \<noteq> None"

section \<open>What the retry loop does\<close>

text \<open>The world before the attempt number \<open>k\<close>, when all attempts before it failed.\<close>

fun before_attempt :: "(nat \<Rightarrow> 'w \<Rightarrow> 'w) \<Rightarrow> nat \<Rightarrow> ('w, unit) prog \<Rightarrow> nat \<Rightarrow> 'w \<Rightarrow> 'w" where
  "before_attempt sleep d f 0 w = w"
| "before_attempt sleep d f (Suc k) w = sleep d (snd (f (before_attempt sleep d f k w)))"

lemma before_attempt_step:
  "before_attempt sleep d f k (sleep d (snd (f w))) = before_attempt sleep d f (Suc k) w"
  by (induction k) simp_all

definition fails_at :: "(nat \<Rightarrow> 'w \<Rightarrow> 'w) \<Rightarrow> nat \<Rightarrow> ('w, unit) prog \<Rightarrow> 'w \<Rightarrow> nat \<Rightarrow> bool" where
  "fails_at sleep d f w j \<longleftrightarrow> (\<exists>e. fst (f (before_attempt sleep d f j w)) = Err e)"

lemma fails_at_step:
  "fst (f w) = Err e \<Longrightarrow> (\<forall>j < Suc k. fails_at sleep d f w j) \<longleftrightarrow> (\<forall>j < k. fails_at sleep d f (sleep d (snd (f w))) j)"
  by (auto simp: fails_at_def before_attempt_step less_Suc_eq_0_disj)

lemma retry_from_first:
  assumes "k < n" "\<forall>j < k. fails_at sleep d f w j" "\<not> fails_at sleep d f w k"
  shows "retry_from sleep d n f err w = f (before_attempt sleep d f k w)"
  using assms
proof (induction k arbitrary: n err w)
  case 0
  then obtain m where n: "n = Suc m" by (cases n) auto
  obtain r w' where run: "f w = (r, w')" by fastforce
  have "\<nexists>e. r = Err e" using 0(3) run by (auto simp: fails_at_def)
  then show ?case by (cases r) (auto simp: n run try_else_def ret_def)
next
  case (Suc k)
  then obtain m where n: "n = Suc m" "k < m" by (cases n) auto
  from Suc.prems(2) obtain e where e: "fst (f w) = Err e" by (auto simp: fails_at_def dest: spec [of _ 0])
  then have run: "f w = (Err e, snd (f w))" by (metis prod.collapse)
  have "retry_from sleep d m f (Some e) (sleep d (snd (f w))) = f (before_attempt sleep d f k (sleep d (snd (f w))))"
    by (rule Suc.IH [OF n(2)])
       (use Suc.prems(2,3) fails_at_step [of f w e k sleep d, OF e] in
         \<open>simp_all add: fails_at_def before_attempt_step del: before_attempt.simps\<close>)
  moreover have "retry_from sleep d n f err w = retry_from sleep d m f (Some e) (sleep d (snd (f w)))"
    by (subst n(1)) (simp, subst try_else_def, subst run, simp)
  ultimately show ?case by (simp only: before_attempt_step)
qed

lemma retry_from_never:
  assumes "\<forall>j < Suc n. fails_at sleep d f w j"
  shows "retry_from sleep d (Suc n) f err w =
    (fst (f (before_attempt sleep d f n w)), before_attempt sleep d f (Suc n) w)"
  using assms
proof (induction n arbitrary: err w)
  case 0
  then obtain e where "fst (f w) = Err e" by (auto simp: fails_at_def)
  then obtain w1 where "f w = (Err e, w1)" by (metis prod.collapse)
  then show ?case by (simp add: try_else_def [of f] fail_def)
next
  case (Suc n)
  from Suc.prems obtain e where e: "fst (f w) = Err e" by (auto simp: fails_at_def dest: spec [of _ 0])
  then have run: "f w = (Err e, snd (f w))" by (metis prod.collapse)
  have "retry_from sleep d (Suc (Suc n)) f err w = retry_from sleep d (Suc n) f (Some e) (sleep d (snd (f w)))"
    by (subst retry_from.simps(2), subst try_else_def, subst run, simp)
  also have "\<dots> = (fst (f (before_attempt sleep d f n (sleep d (snd (f w))))), before_attempt sleep d f (Suc n) (sleep d (snd (f w))))"
    by (rule Suc.IH) (use Suc.prems fails_at_step [of f w e "Suc n" sleep d, OF e] in simp)
  finally show ?case by (simp only: before_attempt_step)
qed

text \<open>C38. \<open>Retry\<close> runs its function until the first time it does not fail and returns that outcome,
  with the world it leaves; when all the attempts fail it has slept after each and returns the last
  error; and with no attempt to make it reports success without running the function.\<close>

theorem Retry_contract:
  "(retries \<le> 0 \<longrightarrow> Retry sleep retries d f w = (Ok (), w)) \<and>
   (\<forall>k. int k < retries \<and> (\<forall>j < k. fails_at sleep d f w j) \<and> \<not> fails_at sleep d f w k \<longrightarrow>
      Retry sleep retries d f w = f (before_attempt sleep d f k w)) \<and>
   (0 < retries \<and> (\<forall>j < nat retries. fails_at sleep d f w j) \<longrightarrow>
      Retry sleep retries d f w =
        (fst (f (before_attempt sleep d f (nat retries - 1) w)), before_attempt sleep d f (nat retries) w))"
proof (intro conjI impI allI)
  assume "retries \<le> 0" then show "Retry sleep retries d f w = (Ok (), w)" by (simp add: Retry_def ret_def)
next
  fix k assume "int k < retries \<and> (\<forall>j < k. fails_at sleep d f w j) \<and> \<not> fails_at sleep d f w k"
  then show "Retry sleep retries d f w = f (before_attempt sleep d f k w)"
    unfolding Retry_def by (intro retry_from_first) auto
next
  assume all: "0 < retries \<and> (\<forall>j < nat retries. fails_at sleep d f w j)"
  then obtain n where "nat retries = Suc n" by (cases "nat retries") auto
  with all retry_from_never [of n sleep d f w None]
  show "Retry sleep retries d f w =
      (fst (f (before_attempt sleep d f (nat retries - 1) w)), before_attempt sleep d f (nat retries) w)"
    by (simp add: Retry_def)
qed

lemma retry_from_Ok:
  "retry_from sleep d n f (Some e) w = (Ok (), w') \<Longrightarrow> \<exists>w1. f w1 = (Ok (), w')"
proof (induction n arbitrary: e w)
  case (Suc n)
  show ?case
  proof (cases "f w")
    case (Pair r w2)
    with Suc show ?thesis by (cases r) (auto simp: try_else_def ret_def)
  qed
qed (simp add: fail_def)

lemma Retry_Ok: "Retry sleep n d f w = (Ok (), w') \<Longrightarrow> 0 < n \<Longrightarrow> \<exists>w1. f w1 = (Ok (), w')"
proof (unfold Retry_def)
  assume run: "retry_from sleep d (nat n) f None w = (Ok (), w')" and "0 < n"
  then obtain m where "nat n = Suc m" by (cases "nat n") auto
  with run show ?thesis
    by (cases "f w"; cases "fst (f w)") (auto simp: try_else_def ret_def dest: retry_from_Ok)
qed

text \<open>An address that renders to the requested text is the requested address.\<close>

lemma ParseMAC_of_MacString:
  assumes "ParseMAC (MacString hw) = Inr b"
  shows "hw = b"
proof -
  from assms have "MacString hw \<noteq> []" by (auto simp: ParseMAC_def)
  then have ne: "hw \<noteq> []" by (auto simp: MacString_def)
  then have len: "length (MacString hw) + 1 = 3 * length hw" by (rule length_Join_hex2)
  from assms have "14 \<le> length (MacString hw)" by (auto simp: ParseMAC_def Let_def split: if_splits)
  with len have two: "2 \<le> length hw" by linarith
  from assms have "(length (MacString hw) + 1) div 3 \<in> mac_sizes"
    using MacString_third [OF two]
    by (auto simp: ParseMAC_def Let_def split: option.splits if_splits)
  with len have "length hw \<in> mac_sizes" by simp
  with ParseMAC_MacString [of hw] assms show ?thesis by simp
qed

lemma SetVFEffectiveMAC_Ok:
  assumes "SetVFEffectiveMAC sleep nl dev mac w = (Ok (), w')"
  shows "\<exists>hw l w1. ParseMAC mac = Inr hw \<and> mac = MacString hw \<and>
    LinkByName nl dev w1 = (Inr l, w') \<and> HardwareAddr l = hw"
proof -
  from assms obtain hw org w0 where hw: "ParseMAC mac = Inr hw" and retry: "Retry sleep 20 100
     (andthen (call (LinkSetHardwareAddr nl org hw)) (\<lambda>_.
      check (call (LinkByName nl dev)) (err_get_link (Name org)) (\<lambda>linkObj.
      if MacString (HardwareAddr linkObj) \<noteq> mac
      then fail (Errorf ''effective mac address is different from requested one'' []) else ret ()))) w0 = (Ok (), w')"
    unfolding SetVFEffectiveMAC_def ok_iffs by blast
  from Retry_Ok [OF retry] obtain l w1 where "LinkByName nl dev w1 = (Inr l, w')" "MacString (HardwareAddr l) = mac"
    unfolding ok_iffs by (auto simp: ok_iffs split: if_splits)
  with hw ParseMAC_of_MacString [of "HardwareAddr l"] show ?thesis by auto
qed

text \<open>A successful \<open>SetVFEffectiveMAC\<close> ends with a reading of the device that shows exactly the
  requested bytes, and the request was in the form \<open>HardwareAddr.String\<close> prints: lower-case hex
  with colons. A request with dashes, dots or upper-case digits never succeeds, although it parses
  and the device accepts it.\<close>

theorem SetVFEffectiveMAC_confirmed:
  assumes "SetVFEffectiveMAC sleep nl dev mac w = (Ok (), w')"
  shows "\<exists>hw l w1. ParseMAC mac = Inr hw \<and> mac = MacString hw \<and>
    LinkByName nl dev w1 = (Inr l, w') \<and> HardwareAddr l = hw"
  by (rule SetVFEffectiveMAC_Ok [OF assms])

lemma SetVFHardwareMAC_Ok:
  assumes "SetVFHardwareMAC sleep nl pf vfID mac w = (Ok (), w')"
  shows "\<exists>hw l w1. ParseMAC mac = Inr hw \<and> mac = MacString hw \<and> LinkByName nl pf w1 = (Inr l, w') \<and>
    0 \<le> vfID \<and> vfID < int (length (Vfs l)) \<and> Mac (Vfs l ! nat vfID) = hw"
proof -
  from assms obtain hw org w0 where hw: "ParseMAC mac = Inr hw" and retry: "Retry sleep 20 100
     (andthen (call (LinkSetVfHardwareAddr nl org vfID hw)) (\<lambda>_.
      check (call (LinkByName nl pf)) (err_get_link (Name org)) (\<lambda>linkObj.
      andthen (of_res (index (Vfs linkObj) vfID)) (\<lambda>vf.
      if MacString (Mac vf) \<noteq> mac
      then fail (Errorf ''hardware mac address is different from requested one'' []) else ret ())))) w0 = (Ok (), w')"
    unfolding SetVFHardwareMAC_def ok_iffs by blast
  from Retry_Ok [OF retry] obtain l w1 vf where "LinkByName nl pf w1 = (Inr l, w')"
    "index (Vfs l) vfID = Ok vf" "MacString (Mac vf) = mac"
    unfolding ok_iffs by (auto simp: ok_iffs split: if_splits)
  with hw ParseMAC_of_MacString [of "Mac vf"] show ?thesis by (auto simp: index_Ok_iff)
qed

text \<open>The same for \<open>SetVFHardwareMAC\<close>: the virtual function at index \<open>vfID\<close> of the physical
  function's list shows the requested bytes.\<close>

theorem SetVFHardwareMAC_confirmed:
  assumes "SetVFHardwareMAC sleep nl pf vfID mac w = (Ok (), w')"
  shows "\<exists>hw l w1. ParseMAC mac = Inr hw \<and> mac = MacString hw \<and> LinkByName nl pf w1 = (Inr l, w') \<and>
    0 \<le> vfID \<and> vfID < int (length (Vfs l)) \<and> Mac (Vfs l ! nat vfID) = hw"
  by (rule SetVFHardwareMAC_Ok [OF assms])

section \<open>What the two functions preserve\<close>

lemma keeps_retry_from:
  assumes "keeps P f" "\<And>w. P w \<Longrightarrow> P (sleep d w)"
  shows "keeps P (retry_from sleep d n f err)"
proof (induction n arbitrary: err)
  case 0
  show ?case by (cases err) (simp_all add: keeps_intros)
next
  case (Suc n)
  then show ?case using assms by (auto intro!: keeps_intros)
qed

lemma keeps_Retry [keeps_intros]:
  "keeps P f \<Longrightarrow> (\<And>w. P w \<Longrightarrow> P (sleep d w)) \<Longrightarrow> keeps P (Retry sleep n d f)"
  unfolding Retry_def by (rule keeps_retry_from)

lemma keeps_SetVFEffectiveMAC [keeps_intros]:
  assumes "\<And>n. keeps_ext P (LinkByName nl n)" "\<And>l hw. keeps_ext P (LinkSetHardwareAddr nl l hw)"
    "\<And>d w. P w \<Longrightarrow> P (sleep d w)"
  shows "keeps P (SetVFEffectiveMAC sleep nl dev mac)"
  unfolding SetVFEffectiveMAC_def by (intro keeps_intros assms)

lemma keeps_SetVFHardwareMAC [keeps_intros]:
  assumes "keeps_ext P (LinkByName nl pf)" "\<And>l hw. keeps_ext P (LinkSetVfHardwareAddr nl l vf hw)"
    "\<And>d w. P w \<Longrightarrow> P (sleep d w)"
  shows "keeps P (SetVFHardwareMAC sleep nl pf vf mac)"
  unfolding SetVFHardwareMAC_def by (intro keeps_intros assms)

lemma total_Retry [total_intros]: "total f \<Longrightarrow> total (Retry sleep n d f)"
proof -
  assume f: "total f"
  have "total (retry_from sleep d m f err)" for m err
  proof (induction m arbitrary: err)
    case 0
    show ?case by (cases err) (simp_all add: total_intros)
  next
    case (Suc m)
    with f show ?case by (auto intro!: total_intros)
  qed
  then show ?thesis by (simp add: Retry_def)
qed

lemma total_SetVFEffectiveMAC [total_intros]: "total (SetVFEffectiveMAC sleep nl dev mac)"
  unfolding SetVFEffectiveMAC_def by (intro total_intros)

text \<open>Without an address to set, both fail before they touch anything.\<close>

lemma SetVFHardwareMAC_empty: "\<exists>e. SetVFHardwareMAC sleep nl pf vf [] w = (Err e, w)"
  using ParseMAC_empty by (auto simp: SetVFHardwareMAC_def)

lemma SetVFEffectiveMAC_empty: "\<exists>e. SetVFEffectiveMAC sleep nl dev [] w = (Err e, w)"
  using ParseMAC_empty by (auto simp: SetVFEffectiveMAC_def)

section \<open>Witnesses\<close>

text \<open>A function that works from the third attempt on, and a device whose only state is its address.\<close>

definition demo_flaky :: "(nat, unit) prog" where
  "demo_flaky n = (if n < 2 then (Err (Ext ''busy''), n) else (Ok (), n))"

theorem Retry_contract_witness:
  "Retry (\<lambda>_ n. n + 1) 5 100 demo_flaky 0 = (Ok (), 2)"
proof -
  have "fails_at (\<lambda>_ n. n + 1) 100 demo_flaky 0 0" "fails_at (\<lambda>_ n. n + 1) 100 demo_flaky 0 1"
    "\<not> fails_at (\<lambda>_ n. n + 1) 100 demo_flaky 0 2"
    by (simp_all add: fails_at_def demo_flaky_def numeral_2_eq_2)
  then have "int 2 < 5 \<and> (\<forall>j < (2::nat). fails_at (\<lambda>_ n. n + 1) 100 demo_flaky 0 j) \<and>
      \<not> fails_at (\<lambda>_ n. n + 1) 100 demo_flaky 0 2" by (auto simp: less_2_cases_iff)
  with Retry_contract [of 5 "\<lambda>_ n. n + 1" 100 demo_flaky 0]
  have "Retry (\<lambda>_ n. n + 1) 5 100 demo_flaky 0 = demo_flaky (before_attempt (\<lambda>_ n. n + 1) 100 demo_flaky 2 0)"
    by blast
  then show ?thesis by (simp add: demo_flaky_def numeral_2_eq_2)
qed

definition demo_vf :: "byte list \<Rightarrow> VfInfo" where
  "demo_vf mac = \<lparr>ID = 0, Mac = mac, vfVlan = 0, Qos = 0, vfVlanProto = 0, Spoofchk = True, vfLinkState = 0,
     vfMaxTxRate = 0, vfMinTxRate = 0, vfTrust = 0\<rparr>"

definition mac_only :: "byte list NetlinkManager" where
  "mac_only =
     \<lparr>LinkByName = \<lambda>n w. (Inr \<lparr>Name = n, Index = 7, ParentIndex = 0, HardwareAddr = w, Vfs = [demo_vf w]\<rparr>, w),
      LinkSetVfVlanQosProto = \<lambda>l v a b c w. (Inr (), w),
      LinkSetVfHardwareAddr = \<lambda>l v hw w. (Inr (), hw),
      LinkSetHardwareAddr = \<lambda>l hw w. (Inr (), hw),
      LinkSetUp = \<lambda>l w. (Inr (), w), LinkSetDown = \<lambda>l w. (Inr (), w), LinkSetNsFd = \<lambda>l fd w. (Inr (), w),
      LinkSetName = \<lambda>l n w. (Inr (), w), LinkSetVfRate = \<lambda>l v a b w. (Inr (), w),
      LinkSetVfSpoofchk = \<lambda>l v b w. (Inr (), w), LinkSetVfTrust = \<lambda>l v b w. (Inr (), w),
      LinkSetVfState = \<lambda>l v b w. (Inr (), w)\<rparr>"

definition demo_mac :: "byte list" where "demo_mac = [0, 10, 0, 3, 0, 1]"

lemma retry_at_once: "f w = (Ok (), w') \<Longrightarrow> 0 < n \<Longrightarrow> Retry sleep n d f w = (Ok (), w')"
  unfolding Retry_def by (cases "nat n") (auto simp: try_else_def ret_def)

lemma demo_mac_parse: "ParseMAC (MacString demo_mac) = Inr demo_mac"
  by (rule ParseMAC_MacString) (simp add: demo_mac_def)

lemma demo_set_mac:
  "SetVFEffectiveMAC (\<lambda>_ w. w) mac_only ''eth0'' (MacString demo_mac) [] = (Ok (), demo_mac)"
  "SetVFHardwareMAC (\<lambda>_ w. w) mac_only ''eth0'' 0 (MacString demo_mac) [] = (Ok (), demo_mac)"
  by (simp_all add: SetVFEffectiveMAC_def SetVFHardwareMAC_def demo_mac_parse mac_only_def andthen_def
      check_def try_else_def call_def retry_at_once index_def demo_vf_def ret_def)

theorem SetVFEffectiveMAC_confirmed_witness:
  "\<exists>hw l w1. ParseMAC (MacString demo_mac) = Inr hw \<and> MacString demo_mac = MacString hw \<and>
    LinkByName mac_only ''eth0'' w1 = (Inr l, demo_mac) \<and> HardwareAddr l = hw"
  by (rule SetVFEffectiveMAC_confirmed [OF demo_set_mac(1)])

theorem SetVFHardwareMAC_confirmed_witness:
  "\<exists>hw l w1. ParseMAC (MacString demo_mac) = Inr hw \<and> MacString demo_mac = MacString hw \<and>
    LinkByName mac_only ''eth0'' w1 = (Inr l, demo_mac) \<and> (0::int) \<le> 0 \<and> (0::int) < int (length (Vfs l)) \<and>
    Mac (Vfs l ! nat 0) = hw"
  by (rule SetVFHardwareMAC_confirmed [OF demo_set_mac(2)])

end
