(* ===== verification/GoOS.thy ===== *)
theory GoOS
  imports GoStrconv
begin

text \<open>
  What the source uses of Go's \<open>os\<close> and \<open>path/filepath\<close> packages, on a file tree with directories,
  regular files, symbolic links and special files (sockets, devices). Path resolution follows
  symbolic links as the kernel does, at most forty of them. The record \<open>os\<close> is extensible: a
  world in which files are one part is any extension of it.

  The tree decides whether a call succeeds, except that any call may also fail for a reason the
  tree does not show (permissions, a full disk): \<open>fault op p\<close> is that failure. A write that fails
  leaves the file it has created or truncated, as \<open>os.WriteFile\<close> documents.
\<close>

section \<open>Paths\<close>

definition is_abs :: "string \<Rightarrow> bool" where
  "is_abs p \<longleftrightarrow> p \<noteq> [] \<and> hd p = CHR ''/''"

text \<open>The components of a path, without the empty ones.\<close>

definition components :: "string \<Rightarrow> string list" where
  "components p = filter (\<lambda>c. c \<noteq> []) (strings_Split (CHR ''/'') p)"

text \<open>\<open>filepath.Clean\<close>: \<open>clean_comps\<close> holds the cleaned prefix in reverse.\<close>

fun clean_comps :: "bool \<Rightarrow> string list \<Rightarrow> string list \<Rightarrow> string list" where
  "clean_comps ab acc [] = rev acc"
| "clean_comps ab acc (c # cs) =
    (if c = ''.'' then clean_comps ab acc cs
     else if c = ''..'' then
       (if acc \<noteq> [] \<and> hd acc \<noteq> ''..'' then clean_comps ab (tl acc) cs
        else if ab then clean_comps ab acc cs
        else clean_comps ab (''..'' # acc) cs)
     else clean_comps ab (c # acc) cs)"

definition abs_path :: "string list \<Rightarrow> string" where
  "abs_path cs = CHR ''/'' # strings_Join ''/'' cs"

definition Clean :: "string \<Rightarrow> string" where
  "Clean p = (let cs = clean_comps (is_abs p) [] (components p) in
     if is_abs p then abs_path cs else if cs = [] then ''.'' else strings_Join ''/'' cs)"

text \<open>\<open>filepath.Join\<close> ignores empty elements.\<close>

definition Join :: "string list \<Rightarrow> string" where
  "Join elems = (let es = filter (\<lambda>e. e \<noteq> []) elems in
     if es = [] then [] else Clean (strings_Join ''/'' es))"

definition Base :: "string \<Rightarrow> string" where
  "Base p = (if p = [] then ''.'' else if components p = [] then ''/'' else last (components p))"

text \<open>\<open>filepath.Dir\<close>: everything before the last slash, cleaned.\<close>

definition Dir_of :: "string \<Rightarrow> string" where
  "Dir_of p = Clean (rev (dropWhile (\<lambda>c. c \<noteq> CHR ''/'') (rev p)))"

section \<open>The file tree\<close>

datatype node = File string | Dir | Link string | Special

record os =
  nodes :: "(string list \<times> node) list"
  cwd :: "string list"
  fault :: "string \<Rightarrow> string \<Rightarrow> error option"

definition lookup :: "'z os_scheme \<Rightarrow> string list \<Rightarrow> node option" where
  "lookup w p = (if p = [] then Some Dir else map_of (nodes w) p)"

definition put :: "string list \<Rightarrow> node \<Rightarrow> 'z os_scheme \<Rightarrow> 'z os_scheme" where
  "put p n w = w\<lparr>nodes := (p, n) # filter (\<lambda>(q, _). q \<noteq> p) (nodes w)\<rparr>"

definition del :: "string list \<Rightarrow> 'z os_scheme \<Rightarrow> 'z os_scheme" where
  "del p w = w\<lparr>nodes := filter (\<lambda>(q, _). q \<noteq> p) (nodes w)\<rparr>"

lemma map_of_filter_key: "map_of (filter (\<lambda>(q, _). q \<noteq> p) xs) q = (if q = p then None else map_of xs q)"
  by (induction xs) auto

lemma lookup_put [simp]: "p \<noteq> [] \<Longrightarrow> lookup (put p n w) q = (if q = p then Some n else lookup w q)"
  by (auto simp: lookup_def put_def map_of_filter_key)

lemma lookup_del [simp]: "p \<noteq> [] \<Longrightarrow> lookup (del p w) q = (if q = p then None else lookup w q)"
  by (auto simp: lookup_def del_def map_of_filter_key)

lemma put_del_fields [simp]:
  "cwd (put p n w) = cwd w" "fault (put p n w) = fault w" "more (put p n w) = more w"
  "cwd (del p w) = cwd w" "fault (del p w) = fault w" "more (del p w) = more w"
  by (simp_all add: put_def del_def)

section \<open>Error numbers\<close>

definition ENOENT :: error where "ENOENT = Ext ''no such file or directory''"
definition ENOTDIR :: error where "ENOTDIR = Ext ''not a directory''"
definition EISDIR :: error where "EISDIR = Ext ''is a directory''"
definition EINVAL :: error where "EINVAL = Ext ''invalid argument''"
definition ELOOP :: error where "ELOOP = Ext ''too many levels of symbolic links''"
definition ENXIO :: error where "ENXIO = Ext ''no such device or address''"
definition ENOTEMPTY :: error where "ENOTEMPTY = Ext ''directory not empty''"
definition EBUSY :: error where "EBUSY = Ext ''device or resource busy''"

lemmas errno_defs = ENOENT_def ENOTDIR_def EISDIR_def EINVAL_def ELOOP_def ENXIO_def ENOTEMPTY_def EBUSY_def

definition PathError :: "string \<Rightarrow> string \<Rightarrow> error \<Rightarrow> error" where
  "PathError op p e = Errorf ''%s %s: %v'' [S op, S p, E e]"

text \<open>\<open>os.IsNotExist\<close> looks for the error number below the path error.\<close>

fun IsNotExist :: "error \<Rightarrow> bool" where
  "IsNotExist (Errorf f [S op, S p, E e]) \<longleftrightarrow> f = ''%s %s: %v'' \<and> e = ENOENT"
| "IsNotExist e \<longleftrightarrow> e = ENOENT"

lemma IsNotExist_PathError [simp]: "IsNotExist (PathError op p e) \<longleftrightarrow> e = ENOENT"
  by (simp add: PathError_def)

section \<open>Path resolution\<close>

text \<open>
  \<open>walk look how k d cs\<close> resolves the components \<open>cs\<close> from the directory \<open>d\<close> with at most \<open>k\<close> more
  links. \<open>NoFollow\<close> stops at a final link (\<open>lstat\<close>), \<open>Follow\<close> resolves it, and \<open>Create\<close> also
  accepts a final component that does not exist (\<open>O_CREATE\<close>).
\<close>

datatype how = NoFollow | Follow | Create

fun walk :: "(string list \<Rightarrow> node option) \<Rightarrow> how \<Rightarrow> nat \<Rightarrow> string list \<Rightarrow> string list \<Rightarrow> error + string list" where
  "walk look h k d [] = Inr d"
| "walk look h k d (c # cs) =
    (if c = ''.'' then walk look h k d cs
     else if c = ''..'' then walk look h k (butlast d) cs
     else case look (d @ [c]) of
       None \<Rightarrow> if cs = [] \<and> h = Create then Inr (d @ [c]) else Inl ENOENT
     | Some Dir \<Rightarrow> walk look h k (d @ [c]) cs
     | Some (Link t) \<Rightarrow>
         if cs = [] \<and> h = NoFollow then Inr (d @ [c])
         else (case k of 0 \<Rightarrow> Inl ELOOP
           | Suc k' \<Rightarrow> walk look h k' (if is_abs t then [] else d) (components t @ cs))
     | Some (File b) \<Rightarrow> if cs = [] then Inr (d @ [c]) else Inl ENOTDIR
     | Some Special \<Rightarrow> if cs = [] then Inr (d @ [c]) else Inl ENOTDIR)"

definition max_links :: nat where "max_links = 40"

definition resolve :: "how \<Rightarrow> 'z os_scheme \<Rightarrow> string \<Rightarrow> error + string list" where
  "resolve h w p = (if p = [] then Inl ENOENT
     else walk (lookup w) h max_links (if is_abs p then [] else cwd w) (components p))"

text \<open>The node a call acts on, after the faults of that call.\<close>

definition find_node :: "string \<Rightarrow> how \<Rightarrow> string \<Rightarrow> 'z os_scheme \<Rightarrow> error + (string list \<times> node)" where
  "find_node op h p w = (case fault w op p of Some e \<Rightarrow> Inl (PathError op p e) | None \<Rightarrow>
     (case resolve h w p of Inl e \<Rightarrow> Inl (PathError op p e)
      | Inr q \<Rightarrow> (case lookup w q of None \<Rightarrow> Inl (PathError op p ENOENT) | Some n \<Rightarrow> Inr (q, n))))"

section \<open>The calls\<close>

record FileInfo =
  InfoName :: string
  InfoNode :: node

definition is_symlink :: "FileInfo \<Rightarrow> bool" where
  "is_symlink fi \<longleftrightarrow> (case InfoNode fi of Link _ \<Rightarrow> True | _ \<Rightarrow> False)"

definition os_Lstat :: "string \<Rightarrow> ('z os_scheme, FileInfo) ext" where
  "os_Lstat p w = (case find_node ''lstat'' NoFollow p w of Inl e \<Rightarrow> Inl e
     | Inr (q, n) \<Rightarrow> Inr \<lparr>InfoName = Base p, InfoNode = n\<rparr>, w)"

definition os_Stat :: "string \<Rightarrow> ('z os_scheme, FileInfo) ext" where
  "os_Stat p w = (case find_node ''stat'' Follow p w of Inl e \<Rightarrow> Inl e
     | Inr (q, n) \<Rightarrow> Inr \<lparr>InfoName = Base p, InfoNode = n\<rparr>, w)"

definition os_ReadFile :: "string \<Rightarrow> ('z os_scheme, string) ext" where
  "os_ReadFile p w = (case find_node ''open'' Follow p w of Inl e \<Rightarrow> Inl e
     | Inr (q, File b) \<Rightarrow> Inr b
     | Inr (q, Dir) \<Rightarrow> Inl (PathError ''read'' p EISDIR)
     | Inr (q, _) \<Rightarrow> Inl (PathError ''open'' p ENXIO), w)"

definition os_Readlink :: "string \<Rightarrow> ('z os_scheme, string) ext" where
  "os_Readlink p w = (case find_node ''readlink'' NoFollow p w of Inl e \<Rightarrow> Inl e
     | Inr (q, Link t) \<Rightarrow> Inr t
     | Inr (q, _) \<Rightarrow> Inl (PathError ''readlink'' p EINVAL), w)"

text \<open>\<open>os.ReadDir\<close> sorts the entries by name, byte by byte.\<close>

fun name_le :: "string \<Rightarrow> string \<Rightarrow> bool" where
  "name_le [] ys \<longleftrightarrow> True"
| "name_le (x # xs) [] \<longleftrightarrow> False"
| "name_le (x # xs) (y # ys) \<longleftrightarrow>
     (of_char x :: nat) < of_char y \<or> (x = y \<and> name_le xs ys)"

fun insert_name :: "string \<Rightarrow> string list \<Rightarrow> string list" where
  "insert_name x [] = [x]"
| "insert_name x (y # ys) = (if x = y then y # ys else if name_le x y then x # y # ys else y # insert_name x ys)"

definition entries :: "string list \<Rightarrow> 'z os_scheme \<Rightarrow> string list" where
  "entries d w = foldr insert_name
     (map last (filter (\<lambda>q. q \<noteq> [] \<and> butlast q = d) (map fst (nodes w)))) []"

definition os_ReadDir :: "string \<Rightarrow> ('z os_scheme, string list) ext" where
  "os_ReadDir p w = (case find_node ''open'' Follow p w of Inl e \<Rightarrow> Inl e
     | Inr (q, Dir) \<Rightarrow> Inr (entries q w)
     | Inr (q, _) \<Rightarrow> Inl (PathError ''readdirent'' p ENOTDIR), w)"

text \<open>\<open>os.WriteFile\<close>: open with \<open>O_WRONLY|O_CREATE|O_TRUNC\<close>, then write. The permission bits
  have no part in the tree.\<close>

definition os_WriteFile :: "string \<Rightarrow> string \<Rightarrow> ('z os_scheme, unit) ext" where
  "os_WriteFile p data w = (case fault w ''open'' p of Some e \<Rightarrow> (Inl (PathError ''open'' p e), w) | None \<Rightarrow>
     (case resolve Create w p of Inl e \<Rightarrow> (Inl (PathError ''open'' p e), w)
      | Inr q \<Rightarrow> (case lookup w q of
          Some Dir \<Rightarrow> (Inl (PathError ''open'' p EISDIR), w)
        | Some Special \<Rightarrow> (Inl (PathError ''open'' p ENXIO), w)
        | _ \<Rightarrow> (case fault w ''write'' p of
            Some e \<Rightarrow> (Inl (PathError ''write'' p e), put q (File []) w)
          | None \<Rightarrow> (Inr (), put q (File data) w)))))"

definition os_Remove :: "string \<Rightarrow> ('z os_scheme, unit) ext" where
  "os_Remove p w = (case find_node ''remove'' NoFollow p w of Inl e \<Rightarrow> (Inl e, w)
     | Inr (q, n) \<Rightarrow> if q = [] then (Inl (PathError ''remove'' p EBUSY), w)
         else if n = Dir \<and> entries q w \<noteq> [] then (Inl (PathError ''remove'' p ENOTEMPTY), w)
         else (Inr (), del q w))"

text \<open>\<open>os.MkdirAll\<close>: each prefix that does not exist is created, from the outside in.\<close>

fun mkdirs :: "string \<Rightarrow> string list \<Rightarrow> string list \<Rightarrow> ('z os_scheme, unit) ext" where
  "mkdirs p d [] w = (Inr (), w)"
| "mkdirs p d (c # cs) w =
    (case walk (lookup w) Create max_links d [c] of
       Inl e \<Rightarrow> (Inl (PathError ''mkdir'' p e), w)
     | Inr q \<Rightarrow> (case lookup w q of
         Some Dir \<Rightarrow> mkdirs p q cs w
       | Some _ \<Rightarrow> (Inl (PathError ''mkdir'' p ENOTDIR), w)
       | None \<Rightarrow> (case fault w ''mkdir'' (abs_path q) of
           Some e \<Rightarrow> (Inl (PathError ''mkdir'' p e), w)
         | None \<Rightarrow> mkdirs p q cs (put q Dir w))))"

definition os_MkdirAll :: "string \<Rightarrow> ('z os_scheme, unit) ext" where
  "os_MkdirAll p w = (if p = [] then (Inl (PathError ''mkdir'' p ENOENT), w)
     else mkdirs p (if is_abs p then [] else cwd w) (components p) w)"

text \<open>\<open>filepath.EvalSymlinks\<close>, on the absolute paths the code gives it.\<close>

definition EvalSymlinks :: "string \<Rightarrow> ('z os_scheme, string) ext" where
  "EvalSymlinks p w = (case find_node ''lstat'' Follow p w of Inl e \<Rightarrow> Inl e
     | Inr (q, n) \<Rightarrow> Inr (abs_path q), w)"

lemma os_reads [simp]:
  "snd (os_Lstat p w) = w" "snd (os_Stat p w) = w" "snd (os_ReadFile p w) = w"
  "snd (os_Readlink p w) = w" "snd (os_ReadDir p w) = w" "snd (EvalSymlinks p w) = w"
  by (simp_all add: os_Lstat_def os_Stat_def os_ReadFile_def os_Readlink_def os_ReadDir_def EvalSymlinks_def)

lemma os_reads_keep [keeps_intros]:
  "keeps_ext P (os_Lstat p)" "keeps_ext P (os_Stat p)" "keeps_ext P (os_ReadFile p)"
  "keeps_ext P (os_Readlink p)" "keeps_ext P (os_ReadDir p)" "keeps_ext P (EvalSymlinks p)"
  by (simp_all add: keeps_ext_def)

text \<open>Running a call that only reads.\<close>

lemma call_read: "snd (f w) = w \<Longrightarrow> call f w = (of_sum (fst (f w)), w)"
  by (cases "f w"; cases "fst (f w)") (auto simp: call_def)

lemma os_calls:
  "call (os_Lstat p) w = (of_sum (fst (os_Lstat p w)), w)"
  "call (os_Stat p) w = (of_sum (fst (os_Stat p w)), w)"
  "call (os_ReadFile p) w = (of_sum (fst (os_ReadFile p w)), w)"
  "call (os_Readlink p) w = (of_sum (fst (os_Readlink p w)), w)"
  "call (os_ReadDir p) w = (of_sum (fst (os_ReadDir p w)), w)"
  "call (EvalSymlinks p) w = (of_sum (fst (EvalSymlinks p w)), w)"
  by (simp_all add: call_read)

section \<open>Paths without links\<close>

text \<open>A component that names an entry.\<close>

definition plain :: "string \<Rightarrow> bool" where
  "plain c \<longleftrightarrow> c \<noteq> [] \<and> c \<noteq> ''.'' \<and> c \<noteq> ''..'' \<and> CHR ''/'' \<notin> set c"

text \<open>A directory reached without following a link.\<close>

definition real_dir :: "'z os_scheme \<Rightarrow> string list \<Rightarrow> bool" where
  "real_dir w d \<longleftrightarrow> (\<forall>c \<in> set d. plain c) \<and> (\<forall>i \<le> length d. lookup w (take i d) = Some Dir)"

lemma walk_dirs:
  assumes "\<forall>c \<in> set cs. plain c" "\<forall>i \<le> length cs. look (d @ take i cs) = Some Dir"
  shows "walk look h k d (cs @ ds) = walk look h k (d @ cs) ds"
  using assms
proof (induction cs arbitrary: d)
  case (Cons c cs)
  have "look (d @ [c]) = Some Dir" using Cons.prems(2)[rule_format, of 1] by simp
  moreover have "\<forall>i \<le> length cs. look ((d @ [c]) @ take i cs) = Some Dir"
  proof (intro allI impI)
    fix i assume "i \<le> length cs"
    then show "look ((d @ [c]) @ take i cs) = Some Dir" using Cons.prems(2)[rule_format, of "Suc i"] by simp
  qed
  ultimately show ?case using Cons.IH [of "d @ [c]"] Cons.prems(1) by (simp add: plain_def)
qed simp

lemma components_abs_path:
  assumes "\<forall>c \<in> set cs. plain c"
  shows "components (abs_path cs) = cs"
proof (cases cs)
  case (Cons c ds)
  then have "strings_Split (CHR ''/'') (strings_Join ''/'' cs) = cs"
    using assms by (intro strings_Split_Join) (auto simp: plain_def)
  moreover have "filter (\<lambda>c. c \<noteq> []) cs = cs" using assms by (auto simp: plain_def intro: filter_True)
  ultimately show ?thesis by (simp add: components_def abs_path_def)
qed (simp add: components_def abs_path_def)

lemma clean_comps_plain: "\<forall>c \<in> set cs. plain c \<Longrightarrow> clean_comps ab acc cs = rev acc @ cs"
  by (induction cs arbitrary: acc) (auto simp: plain_def)

lemma is_abs_abs_path [simp]: "is_abs (abs_path cs)" "abs_path cs \<noteq> []"
  by (simp_all add: is_abs_def abs_path_def)

lemma Clean_abs_path: "\<forall>c \<in> set cs. plain c \<Longrightarrow> Clean (abs_path cs) = abs_path cs"
  by (simp add: Clean_def components_abs_path clean_comps_plain)

lemma strings_Split_append_sep:
  "strings_Split c (x @ c # y) = strings_Split c x @ strings_Split c y"
  by (induction x) (auto split: list.splits)

lemma components_append_sep: "components (x @ CHR ''/'' # y) = components x @ components y"
  by (simp add: components_def strings_Split_append_sep)

lemma components_plain: "plain c \<Longrightarrow> components c = [c]"
  by (simp add: components_def plain_def strings_Split_no_sep)

lemma Join_abs_path:
  assumes "\<forall>c \<in> set cs. plain c" "plain c"
  shows "Join [abs_path cs, c] = abs_path (cs @ [c])"
proof -
  have "components (abs_path cs @ CHR ''/'' # c) = cs @ [c]"
    using assms by (simp add: components_append_sep components_abs_path components_plain)
  moreover have "is_abs (abs_path cs @ CHR ''/'' # c)" by (simp add: is_abs_def abs_path_def)
  moreover have "c \<noteq> []" using assms by (simp add: plain_def)
  ultimately show ?thesis
    using assms by (simp add: Join_def Clean_def clean_comps_plain)
qed

lemma resolve_entry:
  assumes "real_dir w d" "plain c" "\<And>t. lookup w (d @ [c]) \<noteq> Some (Link t)"
  shows "resolve h w (abs_path (d @ [c])) =
    (if lookup w (d @ [c]) = None \<and> h \<noteq> Create then Inl ENOENT else Inr (d @ [c]))"
proof -
  have "\<forall>x \<in> set (d @ [c]). plain x" using assms by (auto simp: real_dir_def)
  then have "resolve h w (abs_path (d @ [c])) = walk (lookup w) h max_links [] (d @ [c])"
    by (simp add: resolve_def components_abs_path)
  also have "\<dots> = walk (lookup w) h max_links d [c]"
    using assms(1) walk_dirs [of d "lookup w" "[]" h max_links "[c]"] by (simp add: real_dir_def)
  also have "\<dots> = (if lookup w (d @ [c]) = None \<and> h \<noteq> Create then Inl ENOENT else Inr (d @ [c]))"
    using assms(2,3) by (auto simp: plain_def split: option.split node.split)
  finally show ?thesis .
qed

lemma real_dir_put: "real_dir w d \<Longrightarrow> \<not> (\<exists>i \<le> length d. q = take i d) \<Longrightarrow> q \<noteq> [] \<Longrightarrow> real_dir (put q n w) d"
  by (auto simp: real_dir_def)

lemma real_dir_del: "real_dir w d \<Longrightarrow> \<not> (\<exists>i \<le> length d. q = take i d) \<Longrightarrow> q \<noteq> [] \<Longrightarrow> real_dir (del q w) d"
  by (auto simp: real_dir_def)

lemma entry_not_prefix: "\<not> (\<exists>i \<le> length d. d @ [c] = take i d)"
proof
  assume "\<exists>i \<le> length d. d @ [c] = take i d"
  then have "length (d @ [c]) \<le> length d" by (metis length_take min.cobounded1)
  then show False by simp
qed

lemma real_dir_entry [simp]:
  "real_dir w d \<Longrightarrow> real_dir (put (d @ [c]) n w) d" "real_dir w d \<Longrightarrow> real_dir (del (d @ [c]) w) d"
  using entry_not_prefix [of d c] by (auto intro!: real_dir_put real_dir_del)

text \<open>What the calls do to one entry of such a directory that is a file or does not exist.\<close>

lemma ReadFile_entry:
  assumes "real_dir w d" "plain c" "lookup w (d @ [c]) = Some (File b)" "fault w ''open'' (abs_path (d @ [c])) = None"
  shows "os_ReadFile (abs_path (d @ [c])) w = (Inr b, w)"
  using assms resolve_entry [of w d c Follow] by (simp add: os_ReadFile_def find_node_def)

lemma Remove_entry:
  assumes "real_dir w d" "plain c" "\<And>n. lookup w (d @ [c]) = Some n \<Longrightarrow> \<exists>b. n = File b"
  shows "os_Remove (abs_path (d @ [c])) w =
    (case fault w ''remove'' (abs_path (d @ [c])) of
       Some e \<Rightarrow> (Inl (PathError ''remove'' (abs_path (d @ [c])) e), w)
     | None \<Rightarrow> if lookup w (d @ [c]) = None then (Inl (PathError ''remove'' (abs_path (d @ [c])) ENOENT), w)
         else (Inr (), del (d @ [c]) w))"
proof -
  have "lookup w (d @ [c]) \<noteq> Some (Link t)" for t using assms(3) [of "Link t"] by auto
  with assms resolve_entry [of w d c NoFollow] show ?thesis
    by (auto simp: os_Remove_def find_node_def split: option.split)
qed

lemma Stat_entry:
  assumes "real_dir w d" "plain c" "\<And>n. lookup w (d @ [c]) = Some n \<Longrightarrow> \<exists>b. n = File b"
  shows "fst (os_Stat (abs_path (d @ [c])) w) =
    (case fault w ''stat'' (abs_path (d @ [c])) of
       Some e \<Rightarrow> Inl (PathError ''stat'' (abs_path (d @ [c])) e)
     | None \<Rightarrow> (case lookup w (d @ [c]) of None \<Rightarrow> Inl (PathError ''stat'' (abs_path (d @ [c])) ENOENT)
         | Some n \<Rightarrow> Inr \<lparr>InfoName = Base (abs_path (d @ [c])), InfoNode = n\<rparr>))"
proof -
  have "lookup w (d @ [c]) \<noteq> Some (Link t)" for t using assms(3) [of "Link t"] by auto
  with assms resolve_entry [of w d c Follow] show ?thesis
    by (auto simp: os_Stat_def find_node_def split: option.split)
qed

lemma WriteFile_entry:
  assumes "real_dir w d" "plain c" "\<And>n. lookup w (d @ [c]) = Some n \<Longrightarrow> \<exists>b. n = File b"
  shows "os_WriteFile (abs_path (d @ [c])) data w =
    (case fault w ''open'' (abs_path (d @ [c])) of
       Some e \<Rightarrow> (Inl (PathError ''open'' (abs_path (d @ [c])) e), w)
     | None \<Rightarrow> (case fault w ''write'' (abs_path (d @ [c])) of
         Some e \<Rightarrow> (Inl (PathError ''write'' (abs_path (d @ [c])) e), put (d @ [c]) (File []) w)
       | None \<Rightarrow> (Inr (), put (d @ [c]) (File data) w)))"
proof -
  have "lookup w (d @ [c]) \<noteq> Some (Link t)" for t using assms(3) [of "Link t"] by auto
  with assms resolve_entry [of w d c Create] show ?thesis
    by (cases "lookup w (d @ [c])") (auto simp: os_WriteFile_def split: option.split)
qed

text \<open>\<open>MkdirAll\<close> on a path without links: when it succeeds the directory is there, and whatever it
  returns it has only added directories along the path.\<close>

definition dir_or_none :: "'z os_scheme \<Rightarrow> string list \<Rightarrow> bool" where
  "dir_or_none w d \<longleftrightarrow> (\<forall>c \<in> set d. plain c) \<and> (\<forall>i \<le> length d. lookup w (take i d) \<in> {None, Some Dir})"

lemma mkdirs_step:
  assumes "plain c" "lookup w (d @ [c]) \<in> {None, Some Dir}"
  shows "walk (lookup w) Create max_links d [c] = Inr (d @ [c])"
  using assms by (auto simp: plain_def)

text \<open>The first element of the path is there, or is made, or the call fails.\<close>

lemma mkdirs_first:
  assumes "plain c" "lookup w (d @ [c]) \<in> {None, Some Dir}" "mkdirs p d (c # cs) w = (r, w')"
  shows "(\<exists>u. mkdirs p (d @ [c]) cs u = (r, w') \<and> (\<forall>q. lookup u q = (if q = d @ [c] then Some Dir else lookup w q)) \<and>
      fault u = fault w \<and> os.more u = os.more w \<and> cwd u = cwd w) \<or> (\<exists>e. r = Inl e \<and> w' = w)"
proof -
  note step = mkdirs_step [OF assms(1,2)]
  show ?thesis
  proof (cases "lookup w (d @ [c])")
    case None
    with assms(3) step show ?thesis
      by (cases "fault w ''mkdir'' (abs_path (d @ [c]))")
         (auto simp del: walk.simps intro!: exI [of _ "put (d @ [c]) Dir w"])
  next
    case (Some n)
    with assms(2,3) step show ?thesis
      by (auto simp del: walk.simps intro!: exI [of _ w])
  qed
qed

lemma mkdirs_effect:
  assumes "\<forall>c \<in> set cs. plain c" "\<forall>i. 0 < i \<and> i \<le> length cs \<longrightarrow> lookup w (d @ take i cs) \<in> {None, Some Dir}"
    and "mkdirs p d cs w = (r, w')"
  shows "(r = Inr () \<longrightarrow> (\<forall>i. 0 < i \<and> i \<le> length cs \<longrightarrow> lookup w' (d @ take i cs) = Some Dir)) \<and>
    (\<forall>q. lookup w' q = lookup w q \<or> (lookup w' q = Some Dir \<and> (\<exists>i. 0 < i \<and> i \<le> length cs \<and> q = d @ take i cs))) \<and>
    fault w' = fault w \<and> os.more w' = os.more w \<and> cwd w' = cwd w"
  using assms
proof (induction cs arbitrary: d w)
  case (Cons c cs)
  have here: "lookup w (d @ [c]) \<in> {None, Some Dir}" using Cons.prems(2) [rule_format, of 1] by simp
  have shift: "(\<exists>i. 0 < i \<and> i \<le> length cs \<and> q = (d @ [c]) @ take i cs) \<Longrightarrow>
      \<exists>i. 0 < i \<and> i \<le> length (c # cs) \<and> q = d @ take i (c # cs)" for q
  proof -
    assume "\<exists>i. 0 < i \<and> i \<le> length cs \<and> q = (d @ [c]) @ take i cs"
    then obtain i where "i \<le> length cs" "q = (d @ [c]) @ take i cs" by blast
    then show ?thesis by (intro exI [of _ "Suc i"]) simp
  qed
  have first: "\<exists>i. 0 < i \<and> i \<le> length (c # cs) \<and> d @ [c] = d @ take i (c # cs)"
    by (intro exI [of _ 1]) simp
  have rest: "0 < i \<and> i \<le> length cs \<longrightarrow> lookup w ((d @ [c]) @ take i cs) \<in> {None, Some Dir}" for i
    using Cons.prems(2) [rule_format, of "Suc i"] by simp
  have longer: "0 < i \<Longrightarrow> i \<le> length cs \<Longrightarrow> (d @ [c]) @ take i cs \<noteq> d @ [c]" for i by (cases cs) auto
  have plain: "plain c" using Cons.prems(1) by simp
  show ?case
  proof (cases "\<exists>e. r = Inl e \<and> w' = w")
    case True
    then show ?thesis by auto
  next
    case False
    with mkdirs_first [OF plain here Cons.prems(3)] obtain u where u: "mkdirs p (d @ [c]) cs u = (r, w')" "\<And>q. lookup u q = (if q = d @ [c] then Some Dir else lookup w q)"
      "fault u = fault w" "os.more u = os.more w" "cwd u = cwd w" by blast
    have "\<forall>i. 0 < i \<and> i \<le> length cs \<longrightarrow> lookup u ((d @ [c]) @ take i cs) \<in> {None, Some Dir}"
      using rest longer u(2) by simp
    from Cons.IH [OF _ this u(1)] Cons.prems(1) have IH:
      "r = Inr () \<longrightarrow> (\<forall>i. 0 < i \<and> i \<le> length cs \<longrightarrow> lookup w' ((d @ [c]) @ take i cs) = Some Dir)"
      "\<And>q. lookup w' q = lookup u q \<or> (lookup w' q = Some Dir \<and> (\<exists>i. 0 < i \<and> i \<le> length cs \<and> q = (d @ [c]) @ take i cs))"
      "fault w' = fault u" "os.more w' = os.more u" "cwd w' = cwd u" by auto
    have "lookup w' (d @ [c]) = Some Dir" using IH(2) [of "d @ [c]"] u(2) by auto
    then have all: "r = Inr () \<longrightarrow> (\<forall>i. 0 < i \<and> i \<le> length (c # cs) \<longrightarrow> lookup w' (d @ take i (c # cs)) = Some Dir)"
    proof (intro impI allI)
      fix i assume ok: "r = Inr ()" and i: "0 < i \<and> i \<le> length (c # cs)"
      then obtain j where j: "i = Suc j" "j \<le> length cs" by (cases i) auto
      show "lookup w' (d @ take i (c # cs)) = Some Dir"
        using IH(1) ok j \<open>lookup w' (d @ [c]) = Some Dir\<close> by (cases j) auto
    qed
    have "lookup w' q = lookup w q \<or> (lookup w' q = Some Dir \<and> (\<exists>i. 0 < i \<and> i \<le> length (c # cs) \<and> q = d @ take i (c # cs)))" for q
    proof (cases "q = d @ [c]")
      case True
      with \<open>lookup w' (d @ [c]) = Some Dir\<close> first show ?thesis by blast
    next
      case False
      with IH(2) [of q] u(2) [of q] shift [of q] show ?thesis by auto
    qed
    with all IH u show ?thesis by auto
  qed
qed simp

text \<open>Without a fault \<open>MkdirAll\<close> succeeds there.\<close>

lemma mkdirs_succeeds:
  assumes "\<forall>c \<in> set cs. plain c" "\<forall>i. 0 < i \<and> i \<le> length cs \<longrightarrow> lookup w (d @ take i cs) \<in> {None, Some Dir}"
    and "\<And>q. fault w ''mkdir'' q = None"
  shows "\<exists>w'. mkdirs p d cs w = (Inr (), w')"
  using assms
proof (induction cs arbitrary: d w)
  case (Cons c cs)
  have here: "lookup w (d @ [c]) \<in> {None, Some Dir}" using Cons.prems(2) [rule_format, of 1] by simp
  have step: "walk (lookup w) Create max_links d [c] = Inr (d @ [c])"
    using Cons.prems(1) here by (intro mkdirs_step) auto
  have rest: "0 < i \<and> i \<le> length cs \<longrightarrow> lookup w ((d @ [c]) @ take i cs) \<in> {None, Some Dir}" for i
    using Cons.prems(2) [rule_format, of "Suc i"] by simp
  have longer: "0 < i \<Longrightarrow> i \<le> length cs \<Longrightarrow> (d @ [c]) @ take i cs \<noteq> d @ [c]" for i by (cases cs) auto
  have next_dir: "\<exists>w'. mkdirs p (d @ [c]) cs u = (Inr (), w')"
    if "u = w \<or> u = put (d @ [c]) Dir w" for u
    by (rule Cons.IH) (use that Cons.prems rest longer in auto)
  show ?case
    using next_dir [of w] next_dir [of "put (d @ [c]) Dir w"] here step Cons.prems(3)
    by (auto simp del: walk.simps)
qed simp

lemma MkdirAll_succeeds:
  assumes "dir_or_none w d" "\<And>q. fault w ''mkdir'' q = None"
  shows "\<exists>w'. os_MkdirAll (abs_path d) w = (Inr (), w')"
proof -
  have plain: "\<forall>c \<in> set d. plain c" using assms(1) by (simp add: dir_or_none_def)
  have "\<exists>w'. mkdirs (abs_path d) [] d w = (Inr (), w')"
    by (rule mkdirs_succeeds) (use assms in \<open>auto simp: dir_or_none_def\<close>)
  then show ?thesis by (simp add: os_MkdirAll_def components_abs_path [OF plain])
qed

lemma MkdirAll_effect:
  assumes "dir_or_none w d" "os_MkdirAll (abs_path d) w = (r, w')"
  shows "(r = Inr () \<longrightarrow> real_dir w' d) \<and> dir_or_none w' d \<and>
    (\<forall>q. lookup w' q = lookup w q \<or> (lookup w' q = Some Dir \<and> (\<exists>i \<le> length d. q = take i d))) \<and>
    fault w' = fault w \<and> os.more w' = os.more w \<and> cwd w' = cwd w"
proof -
  have plain: "\<forall>c \<in> set d. plain c" using assms(1) by (simp add: dir_or_none_def)
  have "mkdirs (abs_path d) [] d w = (r, w')"
    using assms(2) by (simp add: os_MkdirAll_def components_abs_path [OF plain])
  from mkdirs_effect [OF plain _ this] assms(1) have eff:
    "r = Inr () \<longrightarrow> (\<forall>i. 0 < i \<and> i \<le> length d \<longrightarrow> lookup w' (take i d) = Some Dir)"
    "\<forall>q. lookup w' q = lookup w q \<or> (lookup w' q = Some Dir \<and> (\<exists>i. 0 < i \<and> i \<le> length d \<and> q = take i d))"
    "fault w' = fault w \<and> os.more w' = os.more w \<and> cwd w' = cwd w" by (auto simp: dir_or_none_def)
  have root: "lookup w' [] = Some Dir" by (simp add: lookup_def)
  have "r = Inr () \<longrightarrow> real_dir w' d"
  proof (intro impI, unfold real_dir_def, intro conjI plain allI)
    fix i assume "r = Inr ()"
    with eff(1) root show "i \<le> length d \<longrightarrow> lookup w' (take i d) = Some Dir" by (cases i) auto
  qed
  moreover have "dir_or_none w' d"
    unfolding dir_or_none_def using plain assms(1) eff(2) by (auto simp: dir_or_none_def) metis+
  ultimately show ?thesis using eff(2,3) by blast
qed

lemma MkdirAll_entry:
  assumes "dir_or_none w d" "os_MkdirAll (abs_path d) w = (r, w')"
  shows "lookup w' (d @ [c]) = lookup w (d @ [c])"
  using MkdirAll_effect [OF assms, THEN conjunct2, THEN conjunct2, THEN conjunct1, rule_format, of "d @ [c]"]
    entry_not_prefix [of d c] by auto

section \<open>The order of directory entries\<close>

lemma set_insert_name [simp]: "set (insert_name x ys) = insert x (set ys)"
  by (induction ys) auto

lemma set_foldr_insert_name: "set (foldr insert_name xs []) = set xs"
  by (induction xs) auto

lemma snoc_iff: "q \<noteq> [] \<and> butlast q = d \<longleftrightarrow> (\<exists>c. q = d @ [c])"
  by (cases q rule: rev_cases) auto

lemma set_entries: "c \<in> set (entries d w) \<longleftrightarrow> d @ [c] \<in> set (map fst (nodes w))"
  unfolding entries_def set_foldr_insert_name set_map set_filter snoc_iff by force

end
