(* ===== verification/SriovManager.thy ===== *)
theory SriovManager
  imports SriovUtils GoOS
begin

text \<open>
  \<open>sriov_cni/pkg/types/types.go\<close> (the network configuration and the saved state of a virtual
  function) and \<open>sriov_cni/pkg/sriov/sriov.go\<close> (the manager that configures a virtual function, moves
  it into a pod and takes it back). \<open>SetupVF\<close> and \<open>FillOriginalVfInfo\<close> write to the configuration they
  are given a pointer to, so they run on the pair of the configuration and the world; the others only
  read it. \<open>logging.Debug\<close> calls have no part in the model.
\<close>

section \<open>Configuration\<close>

definition Proto8021q :: string where "Proto8021q = ''802.1q''"
definition Proto8021ad :: string where "Proto8021ad = ''802.1ad''"

definition VlanProtoInt :: "(string \<times> int) list" where
  "VlanProtoInt = [(Proto8021q, 33024), (Proto8021ad, 34984)]"

record VfState =
  HostIFName :: string
  vsSpoofChk :: bool
  vsTrust :: bool
  AdminMAC :: string
  EffectiveMAC :: string
  vsVlan :: int
  vsVlanQoS :: int
  vsVlanProto :: int
  vsMinTxRate :: int
  vsMaxTxRate :: int
  vsLinkState :: "32 word"

text \<open>\<open>CNIVersion\<close> and \<open>IpamType\<close> are what the code reads of the embedded \<open>types.NetConf\<close>.\<close>

record NetConf =
  CNIVersion :: string
  IpamType :: string
  OrigVfState :: VfState
  DPDKMode :: bool
  Master :: string
  MAC :: string
  Vlan :: "int option"
  VlanQoS :: "int option"
  VlanProto :: "string option"
  DeviceID :: string
  VFID :: int
  MinTxRate :: "int option"
  MaxTxRate :: "int option"
  SpoofChk :: string
  Trust :: string
  LinkState :: string
  RuntimeMac :: string
  DpuDaemonAddress :: string
  LogLevel :: string
  LogFile :: string

definition FillFromVfInfo :: "VfInfo \<Rightarrow> VfState \<Rightarrow> VfState" where
  "FillFromVfInfo info vs = vs\<lparr>
     AdminMAC := MacString (Mac info),
     vsLinkState := vfLinkState info,
     vsMaxTxRate := int (unat (vfMaxTxRate info)),
     vsMinTxRate := int (unat (vfMinTxRate info)),
     vsVlan := vfVlan info,
     vsVlanQoS := Qos info,
     vsVlanProto := vfVlanProto info,
     vsSpoofChk := Spoofchk info,
     vsTrust := (vfTrust info \<noteq> 0)\<rparr>"

section \<open>The manager\<close>

record 'w pciUtils =
  util_GetSriovNumVfs :: "string \<Rightarrow> ('w, int) prog"
  util_GetVFLinkNamesFromVFID :: "string \<Rightarrow> int \<Rightarrow> ('w, string list) prog"
  util_GetPciAddress :: "string \<Rightarrow> int \<Rightarrow> ('w, string) prog"
  util_EnableArpAndNdiscNotify :: "string \<Rightarrow> ('w, unit) prog"

text \<open>An open network namespace of the \<open>ns\<close> package: \<open>Do\<close> runs a function inside it.\<close>

record 'w NetNS =
  Fd :: int
  Path :: string
  Do :: "('w, unit) prog \<Rightarrow> ('w, unit) prog"

record 'w sriovManager =
  nLink :: "'w NetlinkManager"
  utils :: "'w pciUtils"
  sleep :: "nat \<Rightarrow> 'w \<Rightarrow> 'w"
  GetCurrentNS :: "('w, 'w NetNS) ext"

definition NewSriovManager :: "'w NetlinkManager \<Rightarrow> 'w pciUtils \<Rightarrow> (nat \<Rightarrow> 'w \<Rightarrow> 'w) \<Rightarrow> ('w, 'w NetNS) ext \<Rightarrow> 'w sriovManager" where
  "NewSriovManager netlink pciUtilsImpl slp cur =
     \<lparr>nLink = MyNetlink netlink, utils = pciUtilsImpl, sleep = slp, GetCurrentNS = cur\<rparr>"

abbreviation on_world :: "('w, 'a) prog \<Rightarrow> ('c \<times> 'w, 'a) prog" where
  "on_world \<equiv> zoom snd apsnd"

definition set_orig :: "(VfState \<Rightarrow> VfState) \<Rightarrow> (NetConf \<times> 'w, unit) prog" where
  "set_orig f = modify (apfst (\<lambda>conf. conf\<lparr>OrigVfState := f (OrigVfState conf)\<rparr>))"

text \<open>The closure \<open>SetupVF\<close> runs in the pod's namespace.\<close>

definition setup_in_pod :: "'w sriovManager \<Rightarrow> NetConf \<Rightarrow> string \<Rightarrow> string \<Rightarrow> string \<Rightarrow> sriov_link \<Rightarrow> ('w, unit) prog" where
  "setup_in_pod s conf linkName tempName podifName linkObj =
     check (call (LinkSetName (nLink s) linkObj podifName))
       (\<lambda>err. Errorf ''error setting container interface name %s for %s'' [S linkName, S tempName]) (\<lambda>_.
     andthen (ignore (util_EnableArpAndNdiscNotify (utils s) podifName)) (\<lambda>_.
     andthen (if MAC conf \<noteq> []
        then check (SetVFEffectiveMAC (sleep s) (nLink s) podifName (MAC conf))
               (\<lambda>err. Errorf ''failed to set netlink MAC address to %s: %v'' [S (MAC conf), E err]) ret
        else ret ()) (\<lambda>_.
     check (call (LinkSetUp (nLink s) linkObj))
       (\<lambda>err. Errorf ''error bringing interface up in container ns: %q'' [E err]) ret)))"

definition SetupVF :: "'w sriovManager \<Rightarrow> string \<Rightarrow> 'w NetNS \<Rightarrow> (NetConf \<times> 'w, unit) prog" where
  "SetupVF s podifName netns =
     andthen (gets fst) (\<lambda>conf0.
     let linkName = HostIFName (OrigVfState conf0) in
     check (on_world (call (LinkByName (nLink s) linkName)))
       (\<lambda>err. Errorf ''error getting VF netdevice with name %s'' [S linkName]) (\<lambda>linkObj.
     andthen (set_orig (EffectiveMAC_update (\<lambda>_. MacString (HardwareAddr linkObj)))) (\<lambda>_.
     let tempName = ''temp_'' @ Itoa (Index linkObj) in
     check (on_world (call (LinkSetDown (nLink s) linkObj)))
       (\<lambda>err. Errorf ''failed to down vf device %q: %v'' [S linkName, E err]) (\<lambda>_.
     check (on_world (call (LinkSetName (nLink s) linkObj tempName)))
       (\<lambda>err. Errorf ''error setting temp IF name %s for %s'' [S tempName, S linkName]) (\<lambda>_.
     check (on_world (call (LinkSetNsFd (nLink s) linkObj (Fd netns))))
       (\<lambda>err. Errorf ''failed to move IF %s to netns: %q'' [S tempName, E err]) (\<lambda>_.
     andthen (gets fst) (\<lambda>conf.
     check (on_world (Do netns (setup_in_pod s conf linkName tempName podifName linkObj)))
       (\<lambda>err. Errorf ''error setting up interface in container namespace: %q'' [E err]) ret)))))))"

definition release_in_pod :: "'w sriovManager \<Rightarrow> NetConf \<Rightarrow> string \<Rightarrow> 'w NetNS \<Rightarrow> ('w, unit) prog" where
  "release_in_pod s conf podifName initns =
     check (call (LinkByName (nLink s) podifName))
       (\<lambda>err. Errorf ''failed to get netlink device with name %s: %q'' [S podifName, E err]) (\<lambda>linkObj.
     check (call (LinkSetDown (nLink s) linkObj))
       (\<lambda>err. Errorf ''failed to set link %s down: %q'' [S podifName, E err]) (\<lambda>_.
     check (call (LinkSetName (nLink s) linkObj (HostIFName (OrigVfState conf))))
       (\<lambda>err. Errorf ''failed to rename link %s to host name %s: %q'' [S podifName, S (HostIFName (OrigVfState conf)), E err]) (\<lambda>_.
     andthen (if MAC conf \<noteq> []
        then check (SetVFEffectiveMAC (sleep s) (nLink s) (HostIFName (OrigVfState conf)) (EffectiveMAC (OrigVfState conf)))
               (\<lambda>err. Errorf ''failed to restore original effective netlink MAC address %s: %v''
                  [S (EffectiveMAC (OrigVfState conf)), E err]) ret
        else ret ()) (\<lambda>_.
     check (call (LinkSetNsFd (nLink s) linkObj (Fd initns)))
       (\<lambda>err. Errorf ''failed to move interface %s to init netns: %v'' [S (HostIFName (OrigVfState conf)), E err]) ret))))"

definition ReleaseVF :: "'w sriovManager \<Rightarrow> NetConf \<Rightarrow> string \<Rightarrow> 'w NetNS \<Rightarrow> ('w, unit) prog" where
  "ReleaseVF s conf podifName netns =
     check (call (GetCurrentNS s)) (\<lambda>err. Errorf ''failed to get init netns: %v'' [E err]) (\<lambda>initns.
     Do netns (release_in_pod s conf podifName initns))"

text \<open>The first entry of the list with the wanted number; Go returns a pointer to a copy of it.\<close>

definition getVfInfo :: "sriov_link \<Rightarrow> int \<Rightarrow> VfInfo option" where
  "getVfInfo link vfid = find (\<lambda>vf. ID vf = vfid) (Vfs link)"

text \<open>A flag of the configuration: \<open>"on"\<close> is true, any other non-empty text is false.\<close>

definition flag_on :: "string \<Rightarrow> bool" where
  "flag_on f \<longleftrightarrow> f = ''on''"

definition link_state :: "string \<Rightarrow> (32 word) option" where
  "link_state st = (if st = ''auto'' then Some VF_LINK_STATE_AUTO
     else if st = ''enable'' then Some VF_LINK_STATE_ENABLE
     else if st = ''disable'' then Some VF_LINK_STATE_DISABLE else None)"

definition ApplyVFConfig :: "'w sriovManager \<Rightarrow> NetConf \<Rightarrow> ('w, unit) prog" where
  "ApplyVFConfig s conf =
     check (call (LinkByName (nLink s) (Master conf)))
       (\<lambda>err. Errorf ''failed to lookup master %q: %v'' [S (Master conf), E err]) (\<lambda>pfLink.
     andthen (if MAC conf \<noteq> []
        then check (SetVFHardwareMAC (sleep s) (nLink s) (Master conf) (VFID conf) (MAC conf))
               (\<lambda>err. Errorf ''failed to set MAC address to %s: %v'' [S (MAC conf), E err]) ret
        else ret ()) (\<lambda>_.
     let minTxRate = (case MinTxRate conf of None \<Rightarrow> 0 | Some r \<Rightarrow> r);
         maxTxRate = (case MaxTxRate conf of None \<Rightarrow> 0 | Some r \<Rightarrow> r);
         rateConfigured = (MinTxRate conf \<noteq> None \<or> MaxTxRate conf \<noteq> None) in
     andthen (if rateConfigured
        then check (call (LinkSetVfRate (nLink s) pfLink (VFID conf) minTxRate maxTxRate))
               (\<lambda>err. Errorf ''failed to set vf %d min_tx_rate to %d Mbps: max_tx_rate to %d Mbps: %v''
                  [I (VFID conf), I minTxRate, I maxTxRate, E err]) ret
        else ret ()) (\<lambda>_.
     andthen (if SpoofChk conf \<noteq> []
        then check (call (LinkSetVfSpoofchk (nLink s) pfLink (VFID conf) (flag_on (SpoofChk conf))))
               (\<lambda>err. Errorf ''failed to set vf %d spoofchk flag to %s: %v'' [I (VFID conf), S (SpoofChk conf), E err]) ret
        else ret ()) (\<lambda>_.
     andthen (if Trust conf \<noteq> []
        then check (call (LinkSetVfTrust (nLink s) pfLink (VFID conf) (flag_on (Trust conf))))
               (\<lambda>err. Errorf ''failed to set vf %d trust flag to %s: %v'' [I (VFID conf), S (Trust conf), E err]) ret
        else ret ()) (\<lambda>_.
     if LinkState conf \<noteq> [] then
       (case link_state (LinkState conf) of
          None \<Rightarrow> fail (Errorf ''unknown link state %s when setting it for vf %d: %v''
                    [S (LinkState conf), I (VFID conf), NilErr])
        | Some state \<Rightarrow> check (call (LinkSetVfState (nLink s) pfLink (VFID conf) state))
               (\<lambda>err. Errorf ''failed to set vf %d link state to %d: %v'' [I (VFID conf), I (int (unat state)), E err]) ret)
     else ret ())))))"

definition FillOriginalVfInfo :: "'w sriovManager \<Rightarrow> (NetConf \<times> 'w, unit) prog" where
  "FillOriginalVfInfo s =
     andthen (gets fst) (\<lambda>conf.
     check (on_world (call (LinkByName (nLink s) (Master conf))))
       (\<lambda>err. Errorf ''failed to lookup master %q: %v'' [S (Master conf), E err]) (\<lambda>pfLink.
     case getVfInfo pfLink (VFID conf) of
       None \<Rightarrow> fail (Errorf ''failed to find vf %d'' [I (VFID conf)])
     | Some vfState \<Rightarrow> set_orig (FillFromVfInfo vfState)))"

definition ResetVFConfig :: "'w sriovManager \<Rightarrow> NetConf \<Rightarrow> ('w, unit) prog" where
  "ResetVFConfig s conf =
    (let orig = OrigVfState conf in
     check (call (LinkByName (nLink s) (Master conf)))
       (\<lambda>err. Errorf ''failed to lookup master %q: %v'' [S (Master conf), E err]) (\<lambda>pfLink.
     andthen (if SpoofChk conf \<noteq> []
        then check (call (LinkSetVfSpoofchk (nLink s) pfLink (VFID conf) (vsSpoofChk orig)))
               (\<lambda>err. Errorf ''failed to restore spoofchk for vf %d: %v'' [I (VFID conf), E err]) ret
        else ret ()) (\<lambda>_.
     andthen (if MAC conf \<noteq> []
        then check (SetVFHardwareMAC (sleep s) (nLink s) (Master conf) (VFID conf) (AdminMAC orig))
               (\<lambda>err. Errorf ''failed to restore original administrative MAC address %s: %v'' [S (AdminMAC orig), E err]) ret
        else ret ()) (\<lambda>_.
     andthen (if Trust conf \<noteq> []
        then check (call (LinkSetVfTrust (nLink s) pfLink (VFID conf) (vsTrust orig)))
               (\<lambda>err. Errorf ''failed to set trust for vf %d: %v'' [I (VFID conf), E err]) ret
        else ret ()) (\<lambda>_.
     andthen (if MinTxRate conf \<noteq> None \<or> MaxTxRate conf \<noteq> None
        then check (call (LinkSetVfRate (nLink s) pfLink (VFID conf) (vsMinTxRate orig) (vsMaxTxRate orig)))
               (\<lambda>err. Errorf ''failed to disable rate limiting for vf %d %v'' [I (VFID conf), E err]) ret
        else ret ()) (\<lambda>_.
     if LinkState conf \<noteq> []
     then check (call (LinkSetVfState (nLink s) pfLink (VFID conf) (vsLinkState orig)))
            (\<lambda>err. Errorf ''failed to set link state to auto for vf %d: %v'' [I (VFID conf), E err]) ret
     else ret ()))))))"

end
