(* ===== verification/SriovProps.thy ===== *)
theory SriovProps
  imports SriovManager
begin

text \<open>
  What the SR-IOV manager guarantees about a virtual function, over any netlink library that does
  what its setters say. \<open>vf_laws\<close> is that documented behaviour for the administrative attributes of
  one virtual function, seen through the physical function: \<open>view w\<close> is the entry of the function in
  the list the physical function reports.
\<close>

section \<open>Administrative attributes\<close>

definition vf_laws :: "'w sriovManager \<Rightarrow> string \<Rightarrow> int \<Rightarrow> ('w \<Rightarrow> VfInfo) \<Rightarrow> bool" where
  "vf_laws s pf vf view \<longleftrightarrow>
     (\<forall>w r w'. LinkByName (nLink s) pf w = (r, w') \<longrightarrow> view w' = view w \<and>
        (\<forall>l. r = Inr l \<longrightarrow> getVfInfo l vf = Some (view w') \<and> index (Vfs l) vf = Ok (view w'))) \<and>
     (\<forall>l hw w r w'. LinkSetVfHardwareAddr (nLink s) l vf hw w = (r, w') \<longrightarrow>
        view w' = (if isl r then view w else (view w)\<lparr>Mac := hw\<rparr>)) \<and>
     (\<forall>l b w r w'. LinkSetVfSpoofchk (nLink s) l vf b w = (r, w') \<longrightarrow>
        view w' = (if isl r then view w else (view w)\<lparr>Spoofchk := b\<rparr>)) \<and>
     (\<forall>l b w r w'. LinkSetVfTrust (nLink s) l vf b w = (r, w') \<longrightarrow>
        view w' = (if isl r then view w else (view w)\<lparr>vfTrust := (if b then 1 else 0)\<rparr>)) \<and>
     (\<forall>l lo hi w r w'. LinkSetVfRate (nLink s) l vf lo hi w = (r, w') \<longrightarrow>
        view w' = (if isl r then view w else (view w)\<lparr>vfMinTxRate := of_int lo, vfMaxTxRate := of_int hi\<rparr>)) \<and>
     (\<forall>l st w r w'. LinkSetVfState (nLink s) l vf st w = (r, w') \<longrightarrow>
        view w' = (if isl r then view w else (view w)\<lparr>vfLinkState := st\<rparr>)) \<and>
     (\<forall>d w. view (sleep s d w) = view w)"

lemma vf_lawsD:
  assumes "vf_laws s pf vf view"
  shows "LinkByName (nLink s) pf w = (Inr l, w') \<Longrightarrow>
      view w' = view w \<and> getVfInfo l vf = Some (view w') \<and> index (Vfs l) vf = Ok (view w')"
    and "LinkSetVfSpoofchk (nLink s) l vf b w = (Inr u, w') \<Longrightarrow> view w' = (view w)\<lparr>Spoofchk := b\<rparr>"
    and "LinkSetVfTrust (nLink s) l vf b w = (Inr u, w') \<Longrightarrow> view w' = (view w)\<lparr>vfTrust := (if b then 1 else 0)\<rparr>"
    and "LinkSetVfRate (nLink s) l vf lo hi w = (Inr u, w') \<Longrightarrow>
      view w' = (view w)\<lparr>vfMinTxRate := of_int lo, vfMaxTxRate := of_int hi\<rparr>"
    and "LinkSetVfState (nLink s) l vf st w = (Inr u, w') \<Longrightarrow> view w' = (view w)\<lparr>vfLinkState := st\<rparr>"
  using assms by (fastforce simp: vf_laws_def)+

lemma set_hardware_mac_view:
  assumes laws: "vf_laws s pf vf view"
    and run: "SetVFHardwareMAC (sleep s) (nLink s) pf vf mac w = (Ok (), w')"
  shows "view w' = (view w)\<lparr>Mac := projr (ParseMAC mac)\<rparr> \<and> mac = MacString (Mac (view w'))"
proof -
  let ?P = "\<lambda>u. \<exists>m. view u = (view w)\<lparr>Mac := m\<rparr>"
  have "keeps ?P (SetVFHardwareMAC (sleep s) (nLink s) pf vf mac)"
  proof (intro keeps_intros)
    show "keeps_ext ?P (LinkByName (nLink s) pf)"
    proof (unfold keeps_ext_def, intro allI impI)
      fix u assume "?P u"
      obtain r u' where step: "LinkByName (nLink s) pf u = (r, u')" by fastforce
      with laws have "view u' = view u" by (simp add: vf_laws_def)
      with \<open>?P u\<close> step show "?P (snd (LinkByName (nLink s) pf u))" by simp
    qed
    show "keeps_ext ?P (LinkSetVfHardwareAddr (nLink s) l vf hw)" for l hw
    proof (unfold keeps_ext_def, intro allI impI)
      fix u assume "?P u"
      obtain r u' where step: "LinkSetVfHardwareAddr (nLink s) l vf hw u = (r, u')" by fastforce
      with laws have "view u' = (if isl r then view u else (view u)\<lparr>Mac := hw\<rparr>)" by (simp add: vf_laws_def)
      with \<open>?P u\<close> step show "?P (snd (LinkSetVfHardwareAddr (nLink s) l vf hw u))" by auto
    qed
    show "?P u \<Longrightarrow> ?P (sleep s d u)" for d u using laws by (simp add: vf_laws_def)
  qed
  moreover have "?P w" by (intro exI [of _ "Mac (view w)"]) simp
  ultimately obtain m where m: "view w' = (view w)\<lparr>Mac := m\<rparr>" using run by (blast dest: keepsD)
  from SetVFHardwareMAC_Ok [OF run] obtain hw l w1 where r: "ParseMAC mac = Inr hw" "mac = MacString hw"
    "LinkByName (nLink s) pf w1 = (Inr l, w')" "index (Vfs l) vf = Ok (Vfs l ! nat vf)" "Mac (Vfs l ! nat vf) = hw"
    by (auto simp: index_Ok_iff)
  with vf_lawsD(1) [OF laws r(3)] have "Mac (view w') = hw" by simp
  with m r show ?thesis by simp
qed

text \<open>One optional step of \<open>ApplyVFConfig\<close> or \<open>ResetVFConfig\<close> that returned no error.\<close>

lemma if_step_Ok: "(if b then check m f ret else ret ()) w = (Ok (), w') \<longleftrightarrow>
    (if b then m w = (Ok (), w') else w' = w)"
  by (auto simp: ok_iffs)

definition wants_rate :: "NetConf \<Rightarrow> bool" where
  "wants_rate conf \<longleftrightarrow> MinTxRate conf \<noteq> None \<or> MaxTxRate conf \<noteq> None"

definition rate_or_0 :: "int option \<Rightarrow> int" where
  "rate_or_0 r = (case r of None \<Rightarrow> 0 | Some i \<Rightarrow> i)"


text \<open>The state \<open>FillOriginalVfInfo\<close> saves, as it shows in the view.\<close>

lemma fill_saves:
  assumes laws: "vf_laws s (Master conf) (VFID conf) view"
    and run: "FillOriginalVfInfo s (conf, w) = (Ok (), (conf', w'))"
  shows "view w' = view w \<and> conf' = conf\<lparr>OrigVfState := FillFromVfInfo (view w) (OrigVfState conf)\<rparr>"
proof -
  from run obtain l w1 vf where link: "LinkByName (nLink s) (Master conf) w = (Inr l, w1)"
    and vf: "getVfInfo l (VFID conf) = Some vf" and "conf' = OrigVfState_update (FillFromVfInfo vf) conf" "w' = w1"
    unfolding FillOriginalVfInfo_def
    by (auto simp: ok_iffs set_orig_def split: option.splits)
  with vf_lawsD(1) [OF laws link] show ?thesis by simp
qed


lemma total_SetVFHardwareMAC_empty: "total (SetVFHardwareMAC sl nl pf vf [])"
  unfolding total_def
proof
  fix w
  from SetVFHardwareMAC_empty [of sl nl pf vf w] show "\<not> abnormal (fst (SetVFHardwareMAC sl nl pf vf [] w))" by auto
qed

lemma total_reset_unsaved: "AdminMAC (OrigVfState conf) = [] \<Longrightarrow> total (ResetVFConfig s conf)"
  unfolding ResetVFConfig_def Let_def
  by (auto intro!: total_intros total_SetVFHardwareMAC_empty)

lemma reset_unsaved_fails:
  assumes "MAC conf \<noteq> []" "AdminMAC (OrigVfState conf) = []"
  shows "\<exists>e. fst (ResetVFConfig s conf w) = Err e"
proof -
  obtain r w' where run: "ResetVFConfig s conf w = (r, w')" by fastforce
  have "\<not> is_Ok r"
  proof
    assume "is_Ok r"
    then obtain u where "r = Ok u" by (auto simp: is_Ok_iff)
    with run assms obtain u1 u2 where "SetVFHardwareMAC (sleep s) (nLink s) (Master conf) (VFID conf) [] u1 = (Ok (), u2)"
      unfolding ResetVFConfig_def Let_def andthen_Ok if_step_Ok check_Ok call_Ok by (auto simp: ok_iffs)
    with SetVFHardwareMAC_empty [of "sleep s" "nLink s" "Master conf" "VFID conf" u1] show False by auto
  qed
  moreover have "\<not> abnormal r"
    using total_reset_unsaved [OF assms(2)] run by (rule totalD)
  ultimately show ?thesis using run by (cases r) auto
qed

text \<open>C33. When an address is configured and the saved administrative address is empty, which is what the
  CNI hands over because it never calls \<open>FillOriginalVfInfo\<close>, \<open>ResetVFConfig\<close> cannot succeed: it
  fails at the latest when it parses the empty address, and then trust, rates and link state stay as
  they are.\<close>

theorem reset_without_saved_mac_fails:
  assumes "MAC conf \<noteq> []" "AdminMAC (OrigVfState conf) = []"
  shows "\<exists>e. fst (ResetVFConfig s conf w) = Err e"
  by (rule reset_unsaved_fails [OF assms])

section \<open>The device\<close>

text \<open>
  What \<open>SetupVF\<close> and \<open>ReleaseVF\<close> move about: the network device of the virtual function, with its
  name, its namespace and its address. \<open>device_laws\<close> is what netlink documents about the device with
  index \<open>idx\<close>, \<open>here w\<close> being the namespace the calling thread is in and \<open>ns_of\<close> the namespace
  behind a descriptor; \<open>ns_laws\<close> is what the \<open>ns\<close> package documents about \<open>Do\<close>: the function runs in
  the namespace, and the thread is back in its own afterwards.
\<close>

record 'n device =
  dname :: string
  dns :: 'n
  dmac :: "byte list"

definition device_laws :: "'w sriovManager \<Rightarrow> int \<Rightarrow> (int \<Rightarrow> 'n) \<Rightarrow> ('w \<Rightarrow> 'n device) \<Rightarrow> ('w \<Rightarrow> 'n) \<Rightarrow> bool" where
  "device_laws s idx ns_of dev here \<longleftrightarrow>
     (\<forall>n w r w'. LinkByName (nLink s) n w = (r, w') \<longrightarrow> dev w' = dev w \<and> here w' = here w \<and>
        (\<forall>l. r = Inr l \<and> dname (dev w) = n \<and> dns (dev w) = here w \<longrightarrow> Index l = idx \<and> HardwareAddr l = dmac (dev w))) \<and>
     (\<forall>l n w r w'. Index l = idx \<and> LinkSetName (nLink s) l n w = (r, w') \<longrightarrow>
        dev w' = (if isl r then dev w else (dev w)\<lparr>dname := n\<rparr>) \<and> here w' = here w) \<and>
     (\<forall>l fd w r w'. Index l = idx \<and> LinkSetNsFd (nLink s) l fd w = (r, w') \<longrightarrow>
        dev w' = (if isl r then dev w else (dev w)\<lparr>dns := ns_of fd\<rparr>) \<and> here w' = here w) \<and>
     (\<forall>l hw w r w'. LinkSetHardwareAddr (nLink s) l hw w = (r, w') \<longrightarrow>
        (\<exists>m. dev w' = (dev w)\<lparr>dmac := m\<rparr>) \<and> here w' = here w) \<and>
     (\<forall>l w r w'. LinkSetUp (nLink s) l w = (r, w') \<longrightarrow> dev w' = dev w \<and> here w' = here w) \<and>
     (\<forall>l w r w'. LinkSetDown (nLink s) l w = (r, w') \<longrightarrow> dev w' = dev w \<and> here w' = here w) \<and>
     (\<forall>n w r w'. util_EnableArpAndNdiscNotify (utils s) n w = (r, w') \<longrightarrow> dev w' = dev w \<and> here w' = here w) \<and>
     (\<forall>d w. dev (sleep s d w) = dev w \<and> here (sleep s d w) = here w)"

definition ns_laws :: "'w NetNS \<Rightarrow> (int \<Rightarrow> 'n) \<Rightarrow> ('w \<Rightarrow> 'n device) \<Rightarrow> ('w \<Rightarrow> 'n) \<Rightarrow> bool" where
  "ns_laws ns ns_of dev here \<longleftrightarrow> (\<forall>f w w'. Do ns f w = (Ok (), w') \<longrightarrow>
     (\<exists>w1 w2. f w1 = (Ok (), w2) \<and> dev w1 = dev w \<and> here w1 = ns_of (Fd ns) \<and> dev w' = dev w2 \<and> here w' = here w))"

lemma device_lawsD:
  assumes "device_laws s idx ns_of dev here"
  shows "LinkByName (nLink s) n w = (r, w') \<Longrightarrow> dev w' = dev w \<and> here w' = here w"
    and "LinkByName (nLink s) n w = (Inr l, w') \<Longrightarrow> dname (dev w) = n \<Longrightarrow> dns (dev w) = here w \<Longrightarrow>
      Index l = idx \<and> HardwareAddr l = dmac (dev w)"
    and "LinkSetName (nLink s) l n w = (Inr u, w') \<Longrightarrow> Index l = idx \<Longrightarrow> dev w' = (dev w)\<lparr>dname := n\<rparr> \<and> here w' = here w"
    and "LinkSetNsFd (nLink s) l fd w = (Inr u, w') \<Longrightarrow> Index l = idx \<Longrightarrow> dev w' = (dev w)\<lparr>dns := ns_of fd\<rparr> \<and> here w' = here w"
    and "LinkSetHardwareAddr (nLink s) l hw w = (ru, w') \<Longrightarrow> (\<exists>m. dev w' = (dev w)\<lparr>dmac := m\<rparr>) \<and> here w' = here w"
    and "LinkSetUp (nLink s) l w = (ru, w') \<Longrightarrow> dev w' = dev w \<and> here w' = here w"
    and "LinkSetDown (nLink s) l w = (ru, w') \<Longrightarrow> dev w' = dev w \<and> here w' = here w"
    and "util_EnableArpAndNdiscNotify (utils s) n w = (rp, w') \<Longrightarrow> dev w' = dev w \<and> here w' = here w"
    and "dev (sleep s d w) = dev w" and "here (sleep s d w) = here w"
proof -
  note L = assms [unfolded device_laws_def]
  note L1 = L [THEN conjunct1] and M1 = L [THEN conjunct2]
  note L2 = M1 [THEN conjunct1] and M2 = M1 [THEN conjunct2]
  note L3 = M2 [THEN conjunct1] and M3 = M2 [THEN conjunct2]
  note L4 = M3 [THEN conjunct1] and M4 = M3 [THEN conjunct2]
  note L5 = M4 [THEN conjunct1] and M5 = M4 [THEN conjunct2]
  note L6 = M5 [THEN conjunct1] and M6 = M5 [THEN conjunct2]
  note L7 = M6 [THEN conjunct1] and L8 = M6 [THEN conjunct2]
  show "LinkByName (nLink s) n w = (r, w') \<Longrightarrow> dev w' = dev w \<and> here w' = here w"
    using L1 by blast
  show "LinkByName (nLink s) n w = (Inr l, w') \<Longrightarrow> dname (dev w) = n \<Longrightarrow> dns (dev w) = here w \<Longrightarrow>
      Index l = idx \<and> HardwareAddr l = dmac (dev w)"
    using L1 by blast
  show "LinkSetName (nLink s) l n w = (Inr u, w') \<Longrightarrow> Index l = idx \<Longrightarrow> dev w' = (dev w)\<lparr>dname := n\<rparr> \<and> here w' = here w"
    using L2 [rule_format, of l n w "Inr u" w'] by simp
  show "LinkSetNsFd (nLink s) l fd w = (Inr u, w') \<Longrightarrow> Index l = idx \<Longrightarrow> dev w' = (dev w)\<lparr>dns := ns_of fd\<rparr> \<and> here w' = here w"
    using L3 [rule_format, of l fd w "Inr u" w'] by simp
  show "LinkSetHardwareAddr (nLink s) l hw w = (ru, w') \<Longrightarrow> (\<exists>m. dev w' = (dev w)\<lparr>dmac := m\<rparr>) \<and> here w' = here w"
    using L4 by blast
  show "LinkSetUp (nLink s) l w = (ru, w') \<Longrightarrow> dev w' = dev w \<and> here w' = here w"
    using L5 by blast
  show "LinkSetDown (nLink s) l w = (ru, w') \<Longrightarrow> dev w' = dev w \<and> here w' = here w"
    using L6 by blast
  show "util_EnableArpAndNdiscNotify (utils s) n w = (rp, w') \<Longrightarrow> dev w' = dev w \<and> here w' = here w"
    using L7 by blast
  show "dev (sleep s d w) = dev w" "here (sleep s d w) = here w" using L8 by blast+
qed

lemma set_effective_mac_dev:
  assumes laws: "device_laws s idx ns_of dev here"
    and run: "SetVFEffectiveMAC (sleep s) (nLink s) (dname (dev w)) mac w = (Ok (), w')"
    and local: "dns (dev w) = here w"
  shows "dev w' = (dev w)\<lparr>dmac := projr (ParseMAC mac)\<rparr> \<and> here w' = here w \<and> mac = MacString (dmac (dev w'))"
proof -
  let ?P = "\<lambda>u. (\<exists>m. dev u = (dev w)\<lparr>dmac := m\<rparr>) \<and> here u = here w"
  have "keeps ?P (SetVFEffectiveMAC (sleep s) (nLink s) (dname (dev w)) mac)"
  proof (intro keeps_intros)
    show "keeps_ext ?P (LinkByName (nLink s) n)" for n
    proof (unfold keeps_ext_def, intro allI impI)
      fix u assume "?P u"
      with device_lawsD(1) [OF laws prod.collapse [symmetric], of n u]
      show "?P (snd (LinkByName (nLink s) n u))" by simp
    qed
    show "keeps_ext ?P (LinkSetHardwareAddr (nLink s) l hw)" for l hw
    proof (unfold keeps_ext_def, intro allI impI)
      fix u assume "?P u"
      with device_lawsD(5) [OF laws prod.collapse [symmetric], of l hw u]
      show "?P (snd (LinkSetHardwareAddr (nLink s) l hw u))" by auto
    qed
    show "?P u \<Longrightarrow> ?P (sleep s d u)" for d u using device_lawsD(9,10) [OF laws] by simp
  qed
  moreover have "?P w" by (intro conjI exI [of _ "dmac (dev w)"]) simp_all
  ultimately have P: "?P w'" using run by (blast dest: keepsD)
  from SetVFEffectiveMAC_Ok [OF run] obtain hw l w1 where r: "ParseMAC mac = Inr hw" "mac = MacString hw"
    "LinkByName (nLink s) (dname (dev w)) w1 = (Inr l, w')" "HardwareAddr l = hw" by blast
  from device_lawsD(1) [OF laws r(3)] P local have "dns (dev w1) = here w1" "dname (dev w1) = dname (dev w)" by auto
  with device_lawsD(1,2) [OF laws r(3)] r(4) have "dmac (dev w') = hw" by simp
  with P r show ?thesis by auto
qed

lemma ignore_run_Ok: "ignore m w = (Ok (), w') \<longleftrightarrow> (\<exists>r. m w = (r, w') \<and> \<not> abnormal r)"
  by (auto simp: ignore_def try_else_def ret_def split: prod.splits res.splits)

text \<open>The two halves inside the pod's namespace.\<close>

lemma setup_in_pod_dev:
  assumes laws: "device_laws s idx ns_of dev here" and l: "Index l = idx" and local: "dns (dev w) = here w"
    and run: "setup_in_pod s conf n t podif l w = (Ok (), w')"
  shows "dev w' = (dev w)\<lparr>dname := podif,
    dmac := if MAC conf \<noteq> [] then projr (ParseMAC (MAC conf)) else dmac (dev w)\<rparr> \<and> here w' = here w"
proof -
  from run obtain w1 w2 w3 rp where
    name: "LinkSetName (nLink s) l podif w = (Inr (), w1)" and
    arp: "util_EnableArpAndNdiscNotify (utils s) podif w1 = (rp, w2)" and
    mac: "if MAC conf \<noteq> [] then SetVFEffectiveMAC (sleep s) (nLink s) podif (MAC conf) w2 = (Ok (), w3) else w3 = w2" and
    up: "LinkSetUp (nLink s) l w3 = (Inr (), w')"
    unfolding setup_in_pod_def by (auto simp: ok_iffs if_step_Ok ignore_run_Ok)
  have 1: "dev w1 = (dev w)\<lparr>dname := podif\<rparr> \<and> here w1 = here w" by (rule device_lawsD(3) [OF laws name l])
  have 2: "dev w2 = dev w1 \<and> here w2 = here w1" by (rule device_lawsD(8) [OF laws arp])
  have 3: "dev w3 = (dev w2)\<lparr>dmac := if MAC conf \<noteq> [] then projr (ParseMAC (MAC conf)) else dmac (dev w2)\<rparr> \<and> here w3 = here w2"
  proof (cases "MAC conf = []")
    case False
    with mac 1 2 have "SetVFEffectiveMAC (sleep s) (nLink s) (dname (dev w2)) (MAC conf) w2 = (Ok (), w3)" by simp
    from set_effective_mac_dev [OF laws this, THEN conjunct1] set_effective_mac_dev [OF laws this, THEN conjunct2, THEN conjunct1]
      1 2 local False show ?thesis by simp
  qed (use mac in simp)
  have 4: "dev w' = dev w3 \<and> here w' = here w3" by (rule device_lawsD(6) [OF laws up])
  from 1 2 3 4 show ?thesis by simp
qed

lemma release_in_pod_dev:
  assumes laws: "device_laws s idx ns_of dev here"
    and local: "dns (dev w) = here w" "dname (dev w) = podif"
    and run: "release_in_pod s conf podif initns w = (Ok (), w')"
  shows "dev w' = \<lparr>dname = HostIFName (OrigVfState conf), dns = ns_of (Fd initns),
    dmac = if MAC conf \<noteq> [] then projr (ParseMAC (EffectiveMAC (OrigVfState conf))) else dmac (dev w)\<rparr> \<and>
    (MAC conf \<noteq> [] \<longrightarrow> EffectiveMAC (OrigVfState conf) = MacString (dmac (dev w')))"
proof -
  let ?o = "OrigVfState conf"
  from run obtain l w1 w2 w3 w4 where
    link: "LinkByName (nLink s) podif w = (Inr l, w1)" and
    down: "LinkSetDown (nLink s) l w1 = (Inr (), w2)" and
    name: "LinkSetName (nLink s) l (HostIFName ?o) w2 = (Inr (), w3)" and
    mac: "if MAC conf \<noteq> [] then SetVFEffectiveMAC (sleep s) (nLink s) (HostIFName ?o) (EffectiveMAC ?o) w3 = (Ok (), w4) else w4 = w3" and
    ns: "LinkSetNsFd (nLink s) l (Fd initns) w4 = (Inr (), w')"
    unfolding release_in_pod_def by (auto simp: ok_iffs if_step_Ok)
  have 1: "dev w1 = dev w \<and> here w1 = here w" by (rule device_lawsD(1) [OF laws link])
  have l: "Index l = idx" using device_lawsD(2) [OF laws link local(2) local(1)] by simp
  have 2: "dev w2 = dev w1 \<and> here w2 = here w1" by (rule device_lawsD(7) [OF laws down])
  have 3: "dev w3 = (dev w2)\<lparr>dname := HostIFName ?o\<rparr> \<and> here w3 = here w2" by (rule device_lawsD(3) [OF laws name l])
  have 4: "dev w4 = (dev w3)\<lparr>dmac := if MAC conf \<noteq> [] then projr (ParseMAC (EffectiveMAC ?o)) else dmac (dev w3)\<rparr> \<and>
      (MAC conf \<noteq> [] \<longrightarrow> EffectiveMAC ?o = MacString (dmac (dev w4)))"
  proof (cases "MAC conf = []")
    case False
    with mac 3 have "SetVFEffectiveMAC (sleep s) (nLink s) (dname (dev w3)) (EffectiveMAC ?o) w3 = (Ok (), w4)" by simp
    from set_effective_mac_dev [OF laws this] have "dns (dev w3) = here w3 \<Longrightarrow>
      dev w4 = (dev w3)\<lparr>dmac := projr (ParseMAC (EffectiveMAC ?o))\<rparr> \<and> EffectiveMAC ?o = MacString (dmac (dev w4))" by blast
    moreover have "dns (dev w3) = here w3" using 1 2 3 local by simp
    ultimately have c: "dev w4 = (dev w3)\<lparr>dmac := projr (ParseMAC (EffectiveMAC ?o))\<rparr>"
      "EffectiveMAC ?o = MacString (dmac (dev w4))" by blast+
    show ?thesis unfolding if_P [OF False] by (intro conjI impI c)
  qed (use mac in simp)
  have 5: "dev w' = (dev w4)\<lparr>dns := ns_of (Fd initns)\<rparr>" using device_lawsD(4) [OF laws ns l] by simp
  have "dmac (dev w') = dmac (dev w4)" using 5 by simp
  then have 6: "MAC conf \<noteq> [] \<longrightarrow> EffectiveMAC ?o = MacString (dmac (dev w'))"
    using 4 [THEN conjunct2] by (simp only:)
  have "dev w' = \<lparr>dname = HostIFName ?o, dns = ns_of (Fd initns),
      dmac = if MAC conf \<noteq> [] then projr (ParseMAC (EffectiveMAC ?o)) else dmac (dev w)\<rparr>"
    using 1 2 3 4 [THEN conjunct1] 5 by simp
  with 6 show ?thesis by (rule conjI [rotated])
qed

text \<open>\<open>SetupVF\<close> as a whole.\<close>

lemma setup_dev:
  assumes laws: "device_laws s idx ns_of dev here" "ns_laws netns ns_of dev here"
    and start: "dname (dev w) = HostIFName (OrigVfState conf)" "dns (dev w) = here w"
    and run: "SetupVF s podif netns (conf, w) = (Ok (), (conf', w'))"
  shows "conf' = conf\<lparr>OrigVfState := (OrigVfState conf)\<lparr>EffectiveMAC := MacString (dmac (dev w))\<rparr>\<rparr> \<and>
    dev w' = \<lparr>dname = podif, dns = ns_of (Fd netns),
      dmac = if MAC conf \<noteq> [] then projr (ParseMAC (MAC conf)) else dmac (dev w)\<rparr> \<and> here w' = here w"
proof -
  let ?n = "HostIFName (OrigVfState conf)"
  from run obtain l w1 w2 w3 w4 where
    link: "LinkByName (nLink s) ?n w = (Inr l, w1)" and
    down: "LinkSetDown (nLink s) l w1 = (Inr (), w2)" and
    name: "LinkSetName (nLink s) l (''temp_'' @ Itoa (Index l)) w2 = (Inr (), w3)" and
    ns: "LinkSetNsFd (nLink s) l (Fd netns) w3 = (Inr (), w4)" and
    conf': "conf' = conf\<lparr>OrigVfState := (OrigVfState conf)\<lparr>EffectiveMAC := MacString (HardwareAddr l)\<rparr>\<rparr>" and
    inner: "Do netns (setup_in_pod s conf' ?n (''temp_'' @ Itoa (Index l)) podif l) w4 = (Ok (), w')"
    unfolding SetupVF_def Let_def by (auto simp: ok_iffs set_orig_def)
  have 1: "dev w1 = dev w \<and> here w1 = here w" by (rule device_lawsD(1) [OF laws(1) link])
  have l: "Index l = idx" "HardwareAddr l = dmac (dev w)"
    using device_lawsD(2) [OF laws(1) link start] by simp_all
  have 2: "dev w2 = dev w1 \<and> here w2 = here w1" by (rule device_lawsD(7) [OF laws(1) down])
  have 3: "dev w3 = (dev w2)\<lparr>dname := ''temp_'' @ Itoa (Index l)\<rparr> \<and> here w3 = here w2"
    by (rule device_lawsD(3) [OF laws(1) name l(1)])
  have 4: "dev w4 = (dev w3)\<lparr>dns := ns_of (Fd netns)\<rparr> \<and> here w4 = here w3"
    by (rule device_lawsD(4) [OF laws(1) ns l(1)])
  from laws(2) inner obtain u1 u2 where
    u: "setup_in_pod s conf' ?n (''temp_'' @ Itoa (Index l)) podif l u1 = (Ok (), u2)"
      "dev u1 = dev w4" "here u1 = ns_of (Fd netns)" "dev w' = dev u2" "here w' = here w4"
    unfolding ns_laws_def by blast
  have "dns (dev u1) = here u1" using u(2,3) 4 by simp
  from setup_in_pod_dev [OF laws(1) l(1) this u(1)] 1 2 3 4 u conf' l(2) show ?thesis by simp
qed

text \<open>A successful \<open>SetupVF\<close> leaves the device in the pod's namespace under the pod's name for it,
  with the configured address if there is one, and records the address it had before.\<close>

theorem setup_moves_device:
  assumes laws: "device_laws s idx ns_of dev here" "ns_laws netns ns_of dev here"
    and start: "dname (dev w) = HostIFName (OrigVfState conf)" "dns (dev w) = here w"
    and run: "SetupVF s podif netns (conf, w) = (Ok (), (conf', w'))"
  shows "dev w' = \<lparr>dname = podif, dns = ns_of (Fd netns),
      dmac = if MAC conf \<noteq> [] then projr (ParseMAC (MAC conf)) else dmac (dev w)\<rparr> \<and>
    conf' = conf\<lparr>OrigVfState := (OrigVfState conf)\<lparr>EffectiveMAC := MacString (dmac (dev w))\<rparr>\<rparr>"
  using setup_dev [OF laws start run] by blast

text \<open>C30. \<open>ReleaseVF\<close> undoes \<open>SetupVF\<close>: with the configuration \<open>SetupVF\<close> has filled, at any later time at
  which the device is still in the pod under its name there (its address changed or not, if one was
  configured), a successful \<open>ReleaseVF\<close> gives the device back the name, the namespace and the
  address it had before.\<close>

theorem setup_release_roundtrip:
  assumes laws: "device_laws s idx ns_of dev here" "ns_laws netns ns_of dev here"
    and start: "dname (dev w0) = HostIFName (OrigVfState conf0)" "dns (dev w0) = here w0"
    and moved: "SetupVF s podif netns (conf0, w0) = (Ok (), (conf, w1))"
    and pod: "dname (dev w2) = podif" "dns (dev w2) = ns_of (Fd netns)"
      "MAC conf0 = [] \<Longrightarrow> dmac (dev w2) = dmac (dev w0)"
    and init: "GetCurrentNS s w2 = (Inr initns, w2')" "dev w2' = dev w2" "ns_of (Fd initns) = here w0"
    and release: "ReleaseVF s conf podif netns w2 = (Ok (), w3)"
  shows "dev w3 = dev w0"
proof -
  from setup_dev [OF laws start moved]
  have conf: "MAC conf = MAC conf0" "HostIFName (OrigVfState conf) = HostIFName (OrigVfState conf0)"
    "EffectiveMAC (OrigVfState conf) = MacString (dmac (dev w0))" by simp_all
  from release init(1) have "Do netns (release_in_pod s conf podif initns) w2' = (Ok (), w3)"
    by (auto simp: ReleaseVF_def ok_iffs)
  with laws(2) obtain u1 u2 where u: "release_in_pod s conf podif initns u1 = (Ok (), u2)"
    "dev u1 = dev w2'" "here u1 = ns_of (Fd netns)" "dev w3 = dev u2" unfolding ns_laws_def by blast
  have "dns (dev u1) = here u1" "dname (dev u1) = podif" using u init(2) pod by simp_all
  note out = release_in_pod_dev [OF laws(1) this u(1)]
  have dev: "dev w3 = \<lparr>dname = HostIFName (OrigVfState conf0), dns = ns_of (Fd initns),
      dmac = if MAC conf0 \<noteq> [] then projr (ParseMAC (MacString (dmac (dev w0)))) else dmac (dev w2)\<rparr>"
    using out [THEN conjunct1] u(2,4) init(2) by (simp add: conf)
  have mac: "MAC conf0 \<noteq> [] \<longrightarrow> MacString (dmac (dev w0)) = MacString (dmac (dev w3))"
    using out [THEN conjunct2] u(4) by (simp only: conf)
  have "dmac (dev w3) = dmac (dev w0)"
    using mac dev pod(3) by (cases "MAC conf0 = []") (simp_all add: MacString_inject)
  with dev init(3) start show ?thesis by (cases "dev w0") (simp add: start)
qed

section \<open>Witnesses\<close>

text \<open>A kernel with one device and one virtual function, in which every call succeeds.\<close>

record kernel =
  kdev :: "int device"
  khere :: int
  kvf :: VfInfo

definition kernel_nl :: "kernel NetlinkManager" where
  "kernel_nl =
     \<lparr>LinkByName = \<lambda>n w. (Inr \<lparr>Name = n, Index = 9, ParentIndex = 0, HardwareAddr = dmac (kdev w),
        Vfs = [(kvf w)\<lparr>ID := 0\<rparr>]\<rparr>, w),
      LinkSetVfVlanQosProto = \<lambda>l v a b c w. (Inr (), w),
      LinkSetVfHardwareAddr = \<lambda>l v hw w. (Inr (), w\<lparr>kvf := (kvf w)\<lparr>Mac := hw\<rparr>\<rparr>),
      LinkSetHardwareAddr = \<lambda>l hw w. (Inr (), w\<lparr>kdev := (kdev w)\<lparr>dmac := hw\<rparr>\<rparr>),
      LinkSetUp = \<lambda>l w. (Inr (), w), LinkSetDown = \<lambda>l w. (Inr (), w),
      LinkSetNsFd = \<lambda>l fd w. (Inr (), w\<lparr>kdev := (kdev w)\<lparr>dns := fd\<rparr>\<rparr>),
      LinkSetName = \<lambda>l n w. (Inr (), w\<lparr>kdev := (kdev w)\<lparr>dname := n\<rparr>\<rparr>),
      LinkSetVfRate = \<lambda>l v a b w. (Inr (), w\<lparr>kvf := (kvf w)\<lparr>vfMinTxRate := of_int a, vfMaxTxRate := of_int b\<rparr>\<rparr>),
      LinkSetVfSpoofchk = \<lambda>l v b w. (Inr (), w\<lparr>kvf := (kvf w)\<lparr>Spoofchk := b\<rparr>\<rparr>),
      LinkSetVfTrust = \<lambda>l v b w. (Inr (), w\<lparr>kvf := (kvf w)\<lparr>vfTrust := (if b then 1 else 0)\<rparr>\<rparr>),
      LinkSetVfState = \<lambda>l v st w. (Inr (), w\<lparr>kvf := (kvf w)\<lparr>vfLinkState := st\<rparr>\<rparr>)\<rparr>"

definition demo_Do :: "int \<Rightarrow> (kernel, unit) prog \<Rightarrow> (kernel, unit) prog" where
  "demo_Do fd f w = (case f (w\<lparr>khere := fd\<rparr>) of (r, w') \<Rightarrow> (r, w'\<lparr>khere := khere w\<rparr>))"

definition demo_ns :: "int \<Rightarrow> kernel NetNS" where
  "demo_ns fd = \<lparr>Fd = fd, Path = ''/proc/1/ns/net'', Do = demo_Do fd\<rparr>"

definition demo_utils :: "kernel pciUtils" where
  "demo_utils = \<lparr>util_GetSriovNumVfs = \<lambda>_. ret 1, util_GetVFLinkNamesFromVFID = \<lambda>_ _. ret [],
     util_GetPciAddress = \<lambda>_ _. ret [], util_EnableArpAndNdiscNotify = \<lambda>_. ret ()\<rparr>"

definition demo_manager :: "kernel sriovManager" where
  "demo_manager = NewSriovManager kernel_nl demo_utils (\<lambda>_ w. w) (\<lambda>w. (Inr (demo_ns (khere w)), w))"

definition demo_conf :: NetConf where
  "demo_conf = \<lparr>CNIVersion = [], IpamType = [],
     OrigVfState = \<lparr>HostIFName = ''vf'', vsSpoofChk = False, vsTrust = False, AdminMAC = [], EffectiveMAC = [],
       vsVlan = 0, vsVlanQoS = 0, vsVlanProto = 0, vsMinTxRate = 0, vsMaxTxRate = 0, vsLinkState = 0\<rparr>,
     DPDKMode = False, Master = ''pf'', MAC = MacString demo_mac, Vlan = None, VlanQoS = None, VlanProto = None,
     DeviceID = ''d'', VFID = 0, MinTxRate = Some 5, MaxTxRate = None, SpoofChk = ''on'', Trust = ''off'',
     LinkState = ''enable'', RuntimeMac = [], DpuDaemonAddress = [], LogLevel = [], LogFile = []\<rparr>"

definition old_mac :: "byte list" where "old_mac = [2, 0, 0, 0, 0, 9]"

definition demo_kernel :: kernel where
  "demo_kernel = \<lparr>kdev = \<lparr>dname = ''vf'', dns = 3, dmac = old_mac\<rparr>, khere = 3, kvf = demo_vf old_mac\<rparr>"

lemma old_mac_parse: "ParseMAC (MacString old_mac) = Inr old_mac"
  by (rule ParseMAC_MacString) (simp add: old_mac_def)

lemma demo_mac_text: "MacString demo_mac \<noteq> []"
  by (simp add: MacString_def demo_mac_def hex2_def)

lemma demo_vf_laws: "vf_laws demo_manager (Master demo_conf) (VFID demo_conf) (\<lambda>w. (kvf w)\<lparr>ID := 0\<rparr>)"
  by (simp add: vf_laws_def demo_manager_def NewSriovManager_def kernel_nl_def demo_conf_def getVfInfo_def index_def)

lemma demo_device_laws: "device_laws demo_manager 9 (\<lambda>fd. fd) kdev khere"
  by (simp add: device_laws_def demo_manager_def NewSriovManager_def kernel_nl_def demo_utils_def) blast

lemma demo_ns_laws: "ns_laws (demo_ns fd) (\<lambda>fd. fd) kdev khere"
  unfolding ns_laws_def
proof (intro allI impI)
  fix f w w' assume "Do (demo_ns fd) f w = (Ok (), w')"
  then obtain u where "f (w\<lparr>khere := fd\<rparr>) = (Ok (), u)" "w' = u\<lparr>khere := khere w\<rparr>"
    by (auto simp: demo_ns_def demo_Do_def split: prod.splits)
  then show "\<exists>w1 w2. f w1 = (Ok (), w2) \<and> kdev w1 = kdev w \<and> khere w1 = Fd (demo_ns fd) \<and>
      kdev w' = kdev w2 \<and> khere w' = khere w"
    by (intro exI [of _ "w\<lparr>khere := fd\<rparr>"] exI [of _ u]) (simp add: demo_ns_def)
qed

lemma demo_hw: "SetVFHardwareMAC (\<lambda>_ w. w) kernel_nl ''pf'' 0 (MacString hw) w = (Ok (), w\<lparr>kvf := (kvf w)\<lparr>Mac := hw\<rparr>\<rparr>)"
  if "length hw = 6"
proof -
  have "ParseMAC (MacString hw) = Inr hw" using that by (intro ParseMAC_MacString) simp
  then show ?thesis
    by (simp add: SetVFHardwareMAC_def kernel_nl_def andthen_def check_def try_else_def call_def retry_at_once
        index_def ret_def)
qed

lemma demo_eff: "SetVFEffectiveMAC (\<lambda>_ w. w) kernel_nl d (MacString hw) w = (Ok (), w\<lparr>kdev := (kdev w)\<lparr>dmac := hw\<rparr>\<rparr>)"
  if "length hw = 6"
proof -
  have "ParseMAC (MacString hw) = Inr hw" using that by (intro ParseMAC_MacString) simp
  then show ?thesis
    by (simp add: SetVFEffectiveMAC_def kernel_nl_def andthen_def check_def try_else_def call_def retry_at_once ret_def)
qed

lemma demo_lengths [simp]: "length demo_mac = 6" "length old_mac = 6"
  by (simp_all add: demo_mac_def old_mac_def)

lemma demo_apply: "\<exists>w'. ApplyVFConfig demo_manager demo_conf demo_kernel = (Ok (), w')"
  by (simp add: ApplyVFConfig_def demo_manager_def NewSriovManager_def demo_conf_def demo_mac_text
      ok_iffs demo_hw link_state_def)
     (simp add: kernel_nl_def)


lemma demo_fill: "FillOriginalVfInfo demo_manager (demo_conf, demo_kernel) =
    (Ok (), demo_conf\<lparr>OrigVfState := FillFromVfInfo (demo_vf old_mac) (OrigVfState demo_conf)\<rparr>, demo_kernel)"
  by (simp add: FillOriginalVfInfo_def demo_manager_def NewSriovManager_def kernel_nl_def demo_conf_def demo_kernel_def
      ok_iffs getVfInfo_def set_orig_def demo_vf_def)

lemma demo_reset: "\<exists>w'. ResetVFConfig demo_manager
    (demo_conf\<lparr>OrigVfState := FillFromVfInfo (demo_vf old_mac) (OrigVfState demo_conf)\<rparr>) w = (Ok (), w')"
  by (simp add: ResetVFConfig_def demo_manager_def NewSriovManager_def demo_conf_def demo_mac_text
      ok_iffs demo_hw FillFromVfInfo_def demo_vf_def)
     (simp add: kernel_nl_def)


theorem reset_without_saved_mac_fails_witness:
  "\<exists>w' e. ApplyVFConfig demo_manager demo_conf demo_kernel = (Ok (), w') \<and>
     fst (ResetVFConfig demo_manager demo_conf w') = Err e"
  using demo_apply reset_without_saved_mac_fails [of demo_conf demo_manager]
  by (auto simp: demo_conf_def demo_mac_text)

lemma demo_Do_Ok: "demo_Do fd f w = (Ok (), w') \<longleftrightarrow>
    (\<exists>u. f (w\<lparr>khere := fd\<rparr>) = (Ok (), u) \<and> w' = u\<lparr>khere := khere w\<rparr>)"
  by (auto simp: demo_Do_def split: prod.splits)

lemma demo_setup:
  "\<exists>w'. SetupVF demo_manager ''net1'' (demo_ns 8) (demo_conf, demo_kernel) = (Ok (),
     demo_conf\<lparr>OrigVfState := (OrigVfState demo_conf)\<lparr>EffectiveMAC := MacString old_mac\<rparr>\<rparr>, w')"
  by (simp add: SetupVF_def setup_in_pod_def demo_manager_def NewSriovManager_def demo_conf_def demo_mac_text
      ok_iffs set_orig_def demo_ns_def demo_Do_Ok demo_eff ignore_run_Ok demo_utils_def Let_def)
     (simp add: kernel_nl_def demo_kernel_def)

lemma demo_release:
  "\<exists>w'. ReleaseVF demo_manager (demo_conf\<lparr>OrigVfState := (OrigVfState demo_conf)\<lparr>EffectiveMAC := MacString old_mac\<rparr>\<rparr>)
     ''net1'' (demo_ns 8) w = (Ok (), w')"
  by (simp add: ReleaseVF_def release_in_pod_def demo_manager_def NewSriovManager_def demo_conf_def demo_mac_text
      ok_iffs demo_ns_def demo_Do_Ok demo_eff)
     (simp add: kernel_nl_def)

lemma demo_start: "dname (kdev demo_kernel) = HostIFName (OrigVfState demo_conf)"
    "dns (kdev demo_kernel) = khere demo_kernel"
  by (simp_all add: demo_kernel_def demo_conf_def)

theorem setup_moves_device_witness:
  "\<exists>conf w'. SetupVF demo_manager ''net1'' (demo_ns 8) (demo_conf, demo_kernel) = (Ok (), conf, w') \<and>
     kdev w' = \<lparr>dname = ''net1'', dns = 8, dmac = demo_mac\<rparr>"
proof -
  from demo_setup obtain w' where run: "SetupVF demo_manager ''net1'' (demo_ns 8) (demo_conf, demo_kernel) = (Ok (),
     demo_conf\<lparr>OrigVfState := (OrigVfState demo_conf)\<lparr>EffectiveMAC := MacString old_mac\<rparr>\<rparr>, w')" by blast
  from setup_moves_device [OF demo_device_laws demo_ns_laws demo_start run]
  have "kdev w' = \<lparr>dname = ''net1'', dns = 8, dmac = demo_mac\<rparr>"
    by (simp add: demo_conf_def demo_mac_text demo_mac_parse demo_ns_def)
  with run show ?thesis by blast
qed

theorem setup_release_roundtrip_witness:
  "\<exists>conf w1 w3. SetupVF demo_manager ''net1'' (demo_ns 8) (demo_conf, demo_kernel) = (Ok (), conf, w1) \<and>
     kdev w1 \<noteq> kdev demo_kernel \<and> ReleaseVF demo_manager conf ''net1'' (demo_ns 8) w1 = (Ok (), w3) \<and>
     kdev w3 = kdev demo_kernel"
proof -
  let ?c = "demo_conf\<lparr>OrigVfState := (OrigVfState demo_conf)\<lparr>EffectiveMAC := MacString old_mac\<rparr>\<rparr>"
  from demo_setup obtain w1 where run: "SetupVF demo_manager ''net1'' (demo_ns 8) (demo_conf, demo_kernel) = (Ok (), ?c, w1)"
    by blast
  obtain w3 where release: "ReleaseVF demo_manager ?c ''net1'' (demo_ns 8) w1 = (Ok (), w3)" using demo_release by blast
  from setup_dev [OF demo_device_laws demo_ns_laws demo_start run]
  have w1: "kdev w1 = \<lparr>dname = ''net1'', dns = 8, dmac = demo_mac\<rparr>" "khere w1 = 3"
    by (simp_all add: demo_conf_def demo_mac_text demo_mac_parse demo_ns_def demo_kernel_def)
  have "kdev w3 = kdev demo_kernel"
  proof (rule setup_release_roundtrip [OF demo_device_laws demo_ns_laws demo_start run])
    show "dname (kdev w1) = ''net1''" "dns (kdev w1) = Fd (demo_ns 8)" by (simp_all add: w1 demo_ns_def)
    show "MAC demo_conf = [] \<Longrightarrow> dmac (kdev w1) = dmac (kdev demo_kernel)" by (simp add: demo_conf_def demo_mac_text)
    show "GetCurrentNS demo_manager w1 = (Inr (demo_ns 3), w1)"
      by (simp add: demo_manager_def NewSriovManager_def w1)
    show "Fd (demo_ns 3) = khere demo_kernel" by (simp add: demo_ns_def demo_kernel_def)
  qed (use release in simp_all)
  with run release w1 show ?thesis by (auto simp: demo_kernel_def)
qed

end
