(* ===== verification/NetConfJson.thy ===== *)
theory NetConfJson
  imports SriovManager
begin

text \<open>
  How \<open>encoding/json\<close> maps the \<open>NetConf\<close> struct of \<open>sriov_cni/pkg/types/types.go\<close>: the keys its tags
  give, the fields \<open>omitempty\<close> leaves out, and the one field (\<open>DPDKMode\<close>, tag \<open>-\<close>) it never writes nor
  reads. Values are JSON trees; the text around them is a codec parameter (\<open>render\<close>, \<open>parse\<close>) of the
  definitions that read and write files. Of the embedded \<open>types.NetConf\<close> the model has the CNI version
  and the IPAM type, the two fields the code reads.
\<close>

datatype json = JNull | JBool bool | JInt int | JReal string | JStr string | JArr "json list" | JObj "(string \<times> json) list"

section \<open>Decoding\<close>

text \<open>A key matches a field when it is equal up to case; the last match wins.\<close>

fun get_field :: "string \<Rightarrow> (string \<times> json) list \<Rightarrow> json option" where
  "get_field k [] = None"
| "get_field k ((k', v) # rest) = (case get_field k rest of
     Some u \<Rightarrow> Some u | None \<Rightarrow> if ToLower k' = ToLower k then Some v else None)"

definition err_type :: "string \<Rightarrow> error" where
  "err_type k = Errorf ''json: cannot unmarshal value into Go struct field %s'' [S k]"

definition then_dec :: "error + 'a \<Rightarrow> ('a \<Rightarrow> error + 'b) \<Rightarrow> error + 'b" where
  "then_dec r k = (case r of Inl e \<Rightarrow> Inl e | Inr a \<Rightarrow> k a)"

lemma then_dec_simps [simp]: "then_dec (Inl e) k = Inl e" "then_dec (Inr a) k = k a"
  by (simp_all add: then_dec_def)

text \<open>A missing field and \<open>null\<close> leave the zero value; another kind of value is an error.\<close>

definition dec_string :: "string \<Rightarrow> (string \<times> json) list \<Rightarrow> error + string" where
  "dec_string k obj = (case get_field k obj of None \<Rightarrow> Inr [] | Some JNull \<Rightarrow> Inr []
     | Some (JStr s) \<Rightarrow> Inr s | Some _ \<Rightarrow> Inl (err_type k))"

definition dec_bool :: "string \<Rightarrow> (string \<times> json) list \<Rightarrow> error + bool" where
  "dec_bool k obj = (case get_field k obj of None \<Rightarrow> Inr False | Some JNull \<Rightarrow> Inr False
     | Some (JBool b) \<Rightarrow> Inr b | Some _ \<Rightarrow> Inl (err_type k))"

definition dec_int :: "string \<Rightarrow> (string \<times> json) list \<Rightarrow> error + int" where
  "dec_int k obj = (case get_field k obj of None \<Rightarrow> Inr 0 | Some JNull \<Rightarrow> Inr 0
     | Some (JInt i) \<Rightarrow> if in_int64 i then Inr i else Inl (err_type k) | Some _ \<Rightarrow> Inl (err_type k))"

definition dec_uint32 :: "string \<Rightarrow> (string \<times> json) list \<Rightarrow> error + 32 word" where
  "dec_uint32 k obj = (case get_field k obj of None \<Rightarrow> Inr 0 | Some JNull \<Rightarrow> Inr 0
     | Some (JInt i) \<Rightarrow> if 0 \<le> i \<and> i < 2 ^ 32 then Inr (of_int i) else Inl (err_type k) | Some _ \<Rightarrow> Inl (err_type k))"

definition dec_int_ptr :: "string \<Rightarrow> (string \<times> json) list \<Rightarrow> error + int option" where
  "dec_int_ptr k obj = (case get_field k obj of None \<Rightarrow> Inr None | Some JNull \<Rightarrow> Inr None
     | Some (JInt i) \<Rightarrow> if in_int64 i then Inr (Some i) else Inl (err_type k) | Some _ \<Rightarrow> Inl (err_type k))"

definition dec_string_ptr :: "string \<Rightarrow> (string \<times> json) list \<Rightarrow> error + string option" where
  "dec_string_ptr k obj = (case get_field k obj of None \<Rightarrow> Inr None | Some JNull \<Rightarrow> Inr None
     | Some (JStr s) \<Rightarrow> Inr (Some s) | Some _ \<Rightarrow> Inl (err_type k))"

definition dec_struct :: "string \<Rightarrow> (string \<times> json) list \<Rightarrow> error + (string \<times> json) list" where
  "dec_struct k obj = (case get_field k obj of None \<Rightarrow> Inr [] | Some JNull \<Rightarrow> Inr []
     | Some (JObj fs) \<Rightarrow> Inr fs | Some _ \<Rightarrow> Inl (err_type k))"

definition dec_VfState :: "(string \<times> json) list \<Rightarrow> error + VfState" where
  "dec_VfState obj =
     then_dec (dec_string ''HostIFName'' obj) (\<lambda>host.
     then_dec (dec_bool ''SpoofChk'' obj) (\<lambda>spoof.
     then_dec (dec_bool ''Trust'' obj) (\<lambda>trust.
     then_dec (dec_string ''AdminMAC'' obj) (\<lambda>admin.
     then_dec (dec_string ''EffectiveMAC'' obj) (\<lambda>eff.
     then_dec (dec_int ''Vlan'' obj) (\<lambda>vlan.
     then_dec (dec_int ''VlanQoS'' obj) (\<lambda>qos.
     then_dec (dec_int ''VlanProto'' obj) (\<lambda>proto.
     then_dec (dec_int ''MinTxRate'' obj) (\<lambda>lo.
     then_dec (dec_int ''MaxTxRate'' obj) (\<lambda>hi.
     then_dec (dec_uint32 ''LinkState'' obj) (\<lambda>st.
     Inr \<lparr>HostIFName = host, vsSpoofChk = spoof, vsTrust = trust, AdminMAC = admin, EffectiveMAC = eff,
       vsVlan = vlan, vsVlanQoS = qos, vsVlanProto = proto, vsMinTxRate = lo, vsMaxTxRate = hi, vsLinkState = st\<rparr>)))))))))))"

definition dec_NetConf :: "(string \<times> json) list \<Rightarrow> error + NetConf" where
  "dec_NetConf obj =
     then_dec (dec_string ''cniVersion'' obj) (\<lambda>ver.
     then_dec (dec_struct ''ipam'' obj) (\<lambda>ipam.
     then_dec (dec_string ''type'' ipam) (\<lambda>ipamType.
     then_dec (dec_struct ''OrigVfState'' obj) (\<lambda>orig.
     then_dec (dec_VfState orig) (\<lambda>vfState.
     then_dec (dec_string ''Master'' obj) (\<lambda>master.
     then_dec (dec_string ''MAC'' obj) (\<lambda>mac.
     then_dec (dec_int_ptr ''vlan'' obj) (\<lambda>vlan.
     then_dec (dec_int_ptr ''vlanQoS'' obj) (\<lambda>qos.
     then_dec (dec_string_ptr ''vlanProto'' obj) (\<lambda>proto.
     then_dec (dec_string ''deviceID'' obj) (\<lambda>dev.
     then_dec (dec_int ''VFID'' obj) (\<lambda>vfid.
     then_dec (dec_int_ptr ''min_tx_rate'' obj) (\<lambda>lo.
     then_dec (dec_int_ptr ''max_tx_rate'' obj) (\<lambda>hi.
     then_dec (dec_string ''spoofchk'' obj) (\<lambda>spoof.
     then_dec (dec_string ''trust'' obj) (\<lambda>trust.
     then_dec (dec_string ''link_state'' obj) (\<lambda>st.
     then_dec (dec_struct ''runtimeConfig'' obj) (\<lambda>rc.
     then_dec (dec_string ''mac'' rc) (\<lambda>rmac.
     then_dec (dec_string ''ipu_manager_address'' obj) (\<lambda>dpu.
     then_dec (dec_string ''logLevel'' obj) (\<lambda>lvl.
     then_dec (dec_string ''logFile'' obj) (\<lambda>lf.
     Inr \<lparr>CNIVersion = ver, IpamType = ipamType, OrigVfState = vfState, DPDKMode = False, Master = master, MAC = mac,
       Vlan = vlan, VlanQoS = qos, VlanProto = proto, DeviceID = dev, VFID = vfid, MinTxRate = lo, MaxTxRate = hi,
       SpoofChk = spoof, Trust = trust, LinkState = st, RuntimeMac = rmac, DpuDaemonAddress = dpu,
       LogLevel = lvl, LogFile = lf\<rparr>))))))))))))))))))))))"

definition NetConf_of_json :: "json \<Rightarrow> error + NetConf" where
  "NetConf_of_json j = (case j of JObj obj \<Rightarrow> dec_NetConf obj | JNull \<Rightarrow> dec_NetConf [] | _ \<Rightarrow> Inl (err_type []))"

section \<open>Encoding\<close>

definition enc_omitempty :: "string \<Rightarrow> string \<Rightarrow> (string \<times> json) list" where
  "enc_omitempty k s = (if s = [] then [] else [(k, JStr s)])"

definition enc_int_ptr :: "int option \<Rightarrow> json" where
  "enc_int_ptr p = (case p of None \<Rightarrow> JNull | Some i \<Rightarrow> JInt i)"

definition enc_string_ptr :: "string option \<Rightarrow> json" where
  "enc_string_ptr p = (case p of None \<Rightarrow> JNull | Some s \<Rightarrow> JStr s)"

definition enc_VfState :: "VfState \<Rightarrow> json" where
  "enc_VfState v = JObj
     [(''HostIFName'', JStr (HostIFName v)), (''SpoofChk'', JBool (vsSpoofChk v)), (''Trust'', JBool (vsTrust v)),
      (''AdminMAC'', JStr (AdminMAC v)), (''EffectiveMAC'', JStr (EffectiveMAC v)), (''Vlan'', JInt (vsVlan v)),
      (''VlanQoS'', JInt (vsVlanQoS v)), (''VlanProto'', JInt (vsVlanProto v)), (''MinTxRate'', JInt (vsMinTxRate v)),
      (''MaxTxRate'', JInt (vsMaxTxRate v)), (''LinkState'', JInt (int (unat (vsLinkState v))))]"

definition netconf_fields :: "NetConf \<Rightarrow> (string \<times> json) list" where
  "netconf_fields c =
     (enc_omitempty ''cniVersion'' (CNIVersion c) @
      [(''ipam'', JObj (enc_omitempty ''type'' (IpamType c))), (''OrigVfState'', enc_VfState (OrigVfState c)),
       (''Master'', JStr (Master c)), (''MAC'', JStr (MAC c)), (''vlan'', enc_int_ptr (Vlan c)),
       (''vlanQoS'', enc_int_ptr (VlanQoS c)), (''vlanProto'', enc_string_ptr (VlanProto c)),
       (''deviceID'', JStr (DeviceID c)), (''VFID'', JInt (VFID c)), (''min_tx_rate'', enc_int_ptr (MinTxRate c)),
       (''max_tx_rate'', enc_int_ptr (MaxTxRate c))] @
      enc_omitempty ''spoofchk'' (SpoofChk c) @ enc_omitempty ''trust'' (Trust c) @ enc_omitempty ''link_state'' (LinkState c) @
      [(''runtimeConfig'', JObj (enc_omitempty ''mac'' (RuntimeMac c)))] @
      enc_omitempty ''ipu_manager_address'' (DpuDaemonAddress c) @ enc_omitempty ''logLevel'' (LogLevel c) @
      enc_omitempty ''logFile'' (LogFile c))"

definition json_of_NetConf :: "NetConf \<Rightarrow> json" where
  "json_of_NetConf c = JObj (netconf_fields c)"

section \<open>Round trip\<close>

text \<open>Go's \<open>int\<close> fields hold 64-bit values.\<close>

definition ints_ok :: "NetConf \<Rightarrow> bool" where
  "ints_ok c \<longleftrightarrow> (\<forall>i \<in> {vsVlan (OrigVfState c), vsVlanQoS (OrigVfState c), vsVlanProto (OrigVfState c),
      vsMinTxRate (OrigVfState c), vsMaxTxRate (OrigVfState c), VFID c}. in_int64 i) \<and>
     (\<forall>p \<in> {Vlan c, VlanQoS c, MinTxRate c, MaxTxRate c}. \<forall>i. p = Some i \<longrightarrow> in_int64 i)"

text \<open>The fold of a key to lower case, evaluated once per key.\<close>

lemma key_lower:
  "ToLower ''HostIFName'' = ''hostifname''"
  "ToLower ''SpoofChk'' = ''spoofchk''"
  "ToLower ''Trust'' = ''trust''"
  "ToLower ''AdminMAC'' = ''adminmac''"
  "ToLower ''EffectiveMAC'' = ''effectivemac''"
  "ToLower ''Vlan'' = ''vlan''"
  "ToLower ''VlanQoS'' = ''vlanqos''"
  "ToLower ''VlanProto'' = ''vlanproto''"
  "ToLower ''MinTxRate'' = ''mintxrate''"
  "ToLower ''MaxTxRate'' = ''maxtxrate''"
  "ToLower ''LinkState'' = ''linkstate''"
  "ToLower ''cniVersion'' = ''cniversion''"
  "ToLower ''ipam'' = ''ipam''"
  "ToLower ''type'' = ''type''"
  "ToLower ''OrigVfState'' = ''origvfstate''"
  "ToLower ''Master'' = ''master''"
  "ToLower ''MAC'' = ''mac''"
  "ToLower ''vlan'' = ''vlan''"
  "ToLower ''vlanQoS'' = ''vlanqos''"
  "ToLower ''vlanProto'' = ''vlanproto''"
  "ToLower ''deviceID'' = ''deviceid''"
  "ToLower ''VFID'' = ''vfid''"
  "ToLower ''min_tx_rate'' = ''min_tx_rate''"
  "ToLower ''max_tx_rate'' = ''max_tx_rate''"
  "ToLower ''spoofchk'' = ''spoofchk''"
  "ToLower ''trust'' = ''trust''"
  "ToLower ''link_state'' = ''link_state''"
  "ToLower ''runtimeConfig'' = ''runtimeconfig''"
  "ToLower ''mac'' = ''mac''"
  "ToLower ''ipu_manager_address'' = ''ipu_manager_address''"
  "ToLower ''logLevel'' = ''loglevel''"
  "ToLower ''logFile'' = ''logfile''"
  by (simp_all add: ToLower_def lower_char_def char_of_eq_iff)

lemma get_field_append: "get_field k (xs @ ys) = (case get_field k ys of Some u \<Rightarrow> Some u | None \<Rightarrow> get_field k xs)"
  by (induction xs) (auto split: option.splits)

lemma get_field_omitempty:
  "get_field k (enc_omitempty k' s) = (if s \<noteq> [] \<and> ToLower k' = ToLower k then Some (JStr s) else None)"
  by (simp add: enc_omitempty_def)

lemma uint32_bound: "uint (x :: 32 word) < 4294967296"
  using uint_lt2p [of x] by simp

lemma dec_enc_VfState:
  assumes "in_int64 (vsVlan v)" "in_int64 (vsVlanQoS v)" "in_int64 (vsVlanProto v)"
    "in_int64 (vsMinTxRate v)" "in_int64 (vsMaxTxRate v)"
  shows "\<exists>fs. enc_VfState v = JObj fs \<and> dec_VfState fs = Inr v"
  using assms
  by (simp add: enc_VfState_def dec_VfState_def dec_string_def dec_bool_def dec_int_def dec_uint32_def
      key_lower uint32_bound)

lemma netconf_dec:
  "dec_string ''cniVersion'' (netconf_fields c) = Inr (CNIVersion c)"
  "dec_string ''Master'' (netconf_fields c) = Inr (Master c)"
  "dec_string ''MAC'' (netconf_fields c) = Inr (MAC c)"
  "dec_string ''deviceID'' (netconf_fields c) = Inr (DeviceID c)"
  "dec_string ''spoofchk'' (netconf_fields c) = Inr (SpoofChk c)"
  "dec_string ''trust'' (netconf_fields c) = Inr (Trust c)"
  "dec_string ''link_state'' (netconf_fields c) = Inr (LinkState c)"
  "dec_string ''ipu_manager_address'' (netconf_fields c) = Inr (DpuDaemonAddress c)"
  "dec_string ''logLevel'' (netconf_fields c) = Inr (LogLevel c)"
  "dec_string ''logFile'' (netconf_fields c) = Inr (LogFile c)"
  "in_int64 (VFID c) \<Longrightarrow> dec_int ''VFID'' (netconf_fields c) = Inr (VFID c)"
  "(\<And>i. Vlan c = Some i \<Longrightarrow> in_int64 i) \<Longrightarrow> dec_int_ptr ''vlan'' (netconf_fields c) = Inr (Vlan c)"
  "(\<And>i. VlanQoS c = Some i \<Longrightarrow> in_int64 i) \<Longrightarrow> dec_int_ptr ''vlanQoS'' (netconf_fields c) = Inr (VlanQoS c)"
  "(\<And>i. MinTxRate c = Some i \<Longrightarrow> in_int64 i) \<Longrightarrow> dec_int_ptr ''min_tx_rate'' (netconf_fields c) = Inr (MinTxRate c)"
  "(\<And>i. MaxTxRate c = Some i \<Longrightarrow> in_int64 i) \<Longrightarrow> dec_int_ptr ''max_tx_rate'' (netconf_fields c) = Inr (MaxTxRate c)"
  "dec_string_ptr ''vlanProto'' (netconf_fields c) = Inr (VlanProto c)"
  "dec_struct ''ipam'' (netconf_fields c) = Inr (enc_omitempty ''type'' (IpamType c))"
  "dec_struct ''runtimeConfig'' (netconf_fields c) = Inr (enc_omitempty ''mac'' (RuntimeMac c))"
  "dec_struct ''OrigVfState'' (netconf_fields c) = (case enc_VfState (OrigVfState c) of JObj fs \<Rightarrow> Inr fs | JNull \<Rightarrow> Inr [] | _ \<Rightarrow> Inl (err_type ''OrigVfState''))"
  "dec_string ''type'' (enc_omitempty ''type'' t) = Inr t"
  "dec_string ''mac'' (enc_omitempty ''mac'' m) = Inr m"
  by (simp_all add: netconf_fields_def dec_string_def dec_struct_def dec_int_def dec_int_ptr_def dec_string_ptr_def
      get_field_append get_field_omitempty key_lower enc_int_ptr_def enc_string_ptr_def split: option.split)

lemma netconf_roundtrip:
  assumes "ints_ok c"
  shows "NetConf_of_json (json_of_NetConf c) = Inr (c\<lparr>DPDKMode := False\<rparr>)"
proof -
  from assms obtain fs where vf: "enc_VfState (OrigVfState c) = JObj fs" "dec_VfState fs = Inr (OrigVfState c)"
    using dec_enc_VfState [of "OrigVfState c"] by (auto simp: ints_ok_def)
  from assms have "in_int64 (VFID c)" "\<And>i. Vlan c = Some i \<Longrightarrow> in_int64 i" "\<And>i. VlanQoS c = Some i \<Longrightarrow> in_int64 i"
    "\<And>i. MinTxRate c = Some i \<Longrightarrow> in_int64 i" "\<And>i. MaxTxRate c = Some i \<Longrightarrow> in_int64 i"
    by (simp_all add: ints_ok_def)
  then show ?thesis
    by (simp add: NetConf_of_json_def json_of_NetConf_def dec_NetConf_def netconf_dec vf)
qed

text \<open>Reading back what \<open>json.Marshal\<close> wrote for a configuration gives the configuration, except that
  \<open>DPDKMode\<close> is lost: its tag keeps it out of the text, so a cached configuration always says that
  the virtual function is not in DPDK mode.\<close>

theorem netconf_json_roundtrip:
  assumes "ints_ok c"
  shows "NetConf_of_json (json_of_NetConf c) = Inr (c\<lparr>DPDKMode := False\<rparr>)"
  by (rule netconf_roundtrip [OF assms])

definition zero_VfState :: VfState where
  "zero_VfState = \<lparr>HostIFName = [], vsSpoofChk = False, vsTrust = False, AdminMAC = [], EffectiveMAC = [],
     vsVlan = 0, vsVlanQoS = 0, vsVlanProto = 0, vsMinTxRate = 0, vsMaxTxRate = 0, vsLinkState = 0\<rparr>"

definition zero_NetConf :: NetConf where
  "zero_NetConf = \<lparr>CNIVersion = [], IpamType = [], OrigVfState = zero_VfState, DPDKMode = False, Master = [], MAC = [],
     Vlan = None, VlanQoS = None, VlanProto = None, DeviceID = [], VFID = 0, MinTxRate = None, MaxTxRate = None,
     SpoofChk = [], Trust = [], LinkState = [], RuntimeMac = [], DpuDaemonAddress = [], LogLevel = [], LogFile = []\<rparr>"

theorem netconf_json_roundtrip_witness:
  "ints_ok (zero_NetConf\<lparr>DPDKMode := True, VFID := 3\<rparr>) \<and>
   NetConf_of_json (json_of_NetConf (zero_NetConf\<lparr>DPDKMode := True, VFID := 3\<rparr>)) = Inr (zero_NetConf\<lparr>VFID := 3\<rparr>)"
proof -
  have ok: "ints_ok (zero_NetConf\<lparr>DPDKMode := True, VFID := 3\<rparr>)"
    by (simp add: ints_ok_def zero_NetConf_def zero_VfState_def in_int64_def)
  with netconf_json_roundtrip [OF ok] show ?thesis by (simp add: zero_NetConf_def)
qed

end
