(* ===== verification/DevicePlugin.thy ===== *)
theory DevicePlugin
  imports NetConfJson GoOS "HOL-Library.AList" "HOL-Library.Multiset"
begin

text \<open>
  \<open>ipu-device-plugin/cmd/ipu-dp/main.go\<close> and \<open>pkg/types/types.go\<close>: the Kubernetes device plugin that
  advertises the accelerated physical functions of the host. The state is the manager, the lines
  printed so far and the world (files, kubelet). A Go map is an association list with distinct keys;
  the order in which \<open>range\<close> visits it is the parameter \<open>dp_range\<close>. The gRPC library, the kubelet, the
  time and the signals are fields of \<open>dp_ext\<close>, as are the constants of the kubelet's API package. What
  the functions print is kept without the line ends, and without the message \<open>ListAndWatch\<close> prints.
\<close>

section \<open>Constants and state\<close>

definition sysClassNet :: string where "sysClassNet = ''/sys/class/net''"
definition excludeFilePath :: string where "excludeFilePath = ''/etc/ipu-dp/config.json''"
definition pluginEndpoint :: string where "pluginEndpoint = ''sriovNet.sock''"
definition resourceName :: string where "resourceName = ''intel.com/ipu''"
definition deviceCode :: string where "deviceCode = ''0x1452''"
definition DeprecatedSockDir :: string where "DeprecatedSockDir = ''/var/lib/kubelet/device-plugins''"
definition KubeEndPoint :: string where "KubeEndPoint = ''kubelet.sock''"

record Device =
  devID :: string
  Health :: string

record apfManager =
  configFile :: string
  socketFile :: string
  devices :: "(string \<times> Device) list"
  grpcServer :: "int option"

record RegisterRequest =
  rqVersion :: string
  Endpoint :: string
  ResourceName :: string

record 'w dp_ext =
  dp_Unmarshal :: "string \<Rightarrow> error + json"
  dp_range :: "string list \<Rightarrow> 'w \<Rightarrow> string list"
  dp_Healthy :: string
  dp_Version :: string
  DevicePluginPath :: string
  dp_Send :: "Device list \<Rightarrow> ('w, unit) ext"
  dp_Sleep :: "nat \<Rightarrow> 'w \<Rightarrow> 'w"
  dp_Listen :: "string \<Rightarrow> string \<Rightarrow> ('w, int) ext"
  dp_NewServer :: "'w \<Rightarrow> int \<times> 'w"
  dp_ServerStop :: "int \<Rightarrow> 'w \<Rightarrow> 'w"
  dp_Dial :: "string \<Rightarrow> ('w, int) ext"
  dp_DialBlock :: "string \<Rightarrow> ('w, int) ext"
  dp_ConnClose :: "int \<Rightarrow> ('w, unit) ext"
  dp_RegisterServer :: "int \<Rightarrow> 'w \<Rightarrow> 'w"
  dp_Serve :: "int \<Rightarrow> int option \<Rightarrow> 'w \<Rightarrow> 'w"
  dp_Register :: "int \<Rightarrow> RegisterRequest \<Rightarrow> ('w, unit) ext"
  dp_signal :: "'w \<Rightarrow> string \<times> 'w"

record 'w dp_state =
  mgr :: apfManager
  stdout :: "(string \<times> arg list) list"
  host :: 'w

abbreviation on_host :: "('w, 'a) prog \<Rightarrow> ('w dp_state, 'a) prog" where
  "on_host \<equiv> zoom host host_update"

definition printf :: "string \<Rightarrow> arg list \<Rightarrow> ('w dp_state, unit) prog" where
  "printf f args = modify (stdout_update (\<lambda>l. l @ [(f, args)]))"

definition newAPFManager :: "string \<Rightarrow> apfManager" where
  "newAPFManager cfg = \<lparr>configFile = cfg, socketFile = pluginEndpoint, devices = [], grpcServer = None\<rparr>"

definition GetDeviceState :: "'w dp_ext \<Rightarrow> string \<Rightarrow> string" where
  "GetDeviceState x DeviceName = dp_Healthy x"

section \<open>Discovery\<close>

text \<open>\<open>json.Unmarshal\<close> into an \<open>ExcludeConfig\<close>; a \<open>null\<close> leaves what is there, the empty value.\<close>

fun dec_strings :: "json list \<Rightarrow> error + string list" where
  "dec_strings [] = Inr []"
| "dec_strings (JStr s # js) = then_dec (dec_strings js) (\<lambda>ss. Inr (s # ss))"
| "dec_strings (JNull # js) = then_dec (dec_strings js) (\<lambda>ss. Inr ([] # ss))"
| "dec_strings (_ # js) = Inl (err_type ''exclude'')"

definition dec_ExcludeConfig :: "json \<Rightarrow> error + string list" where
  "dec_ExcludeConfig j = (case j of
     JObj obj \<Rightarrow> (case get_field ''exclude'' obj of None \<Rightarrow> Inr [] | Some JNull \<Rightarrow> Inr []
        | Some (JArr js) \<Rightarrow> dec_strings js | Some _ \<Rightarrow> Inl (err_type ''exclude''))
   | JNull \<Rightarrow> Inr [] | _ \<Rightarrow> Inl (err_type []))"

text \<open>The body of the loop over \<open>/sys/class/net\<close>.\<close>

definition discover_one :: "'z os_scheme dp_ext \<Rightarrow> string list \<Rightarrow> string \<Rightarrow> ('z os_scheme dp_state, unit) prog" where
  "discover_one x excluded name =
     andthen (try_else (on_host (call (os_ReadFile (Join [sysClassNet, name, ''device/device'']))))
        (\<lambda>err. andthen (printf ''Error: %s'' [E err]) (\<lambda>_. ret [])) ret) (\<lambda>deviceCodeByte.
     let device_code = TrimSpace deviceCodeByte in
     if device_code = deviceCode then
       (if name \<notin> set excluded
        then modify (mgr_update (devices_update (AList.update name \<lparr>devID = name, Health = dp_Healthy x\<rparr>)))
        else ret ())
     else ret ())"

text \<open>An error of \<open>ReadDir\<close> other than a missing directory is dropped: the loop then has no files.\<close>

definition discoverHostDevices :: "'z os_scheme dp_ext \<Rightarrow> ('z os_scheme dp_state, unit) prog" where
  "discoverHostDevices x =
     andthen (gets (configFile \<circ> mgr)) (\<lambda>file_name.
     check (on_host (call (os_ReadFile file_name)))
       (\<lambda>err. Errorf ''error reading file %s, %v'' [S file_name, E err]) (\<lambda>rawBytes.
     check (of_res (of_sum (then_dec (dp_Unmarshal x rawBytes) dec_ExcludeConfig)))
       (\<lambda>err. Errorf ''error unmarshalling raw bytes %v please make sure the config is in json format'' [E err]) (\<lambda>excluded.
     try_else (on_host (call (os_ReadDir sysClassNet)))
       (\<lambda>err. if IsNotExist err then ret () else for_each [] (discover_one x excluded))
       (\<lambda>files. for_each files (discover_one x excluded)))))"

section \<open>\<open>ListAndWatch\<close>\<close>

text \<open>The first inner loop, over the identifiers \<open>range\<close> has left.\<close>

fun update_health :: "'w dp_ext \<Rightarrow> string list \<Rightarrow> bool \<Rightarrow> ('w dp_state, bool) prog" where
  "update_health x [] changed = ret changed"
| "update_health x (i # ids) changed =
     andthen (gets (\<lambda>s. map_of (devices (mgr s)) i)) (\<lambda>entry. case entry of
       None \<Rightarrow> update_health x ids changed
     | Some dev \<Rightarrow>
         (let state = GetDeviceState x i in
          if Health dev \<noteq> state then
            andthen (modify (mgr_update (devices_update (AList.update i (dev\<lparr>Health := state\<rparr>)))))
              (\<lambda>_. update_health x ids True)
          else update_health x ids changed))"

definition range_ids :: "'w dp_ext \<Rightarrow> 'w dp_state \<Rightarrow> string list" where
  "range_ids x s = dp_range x (map fst (devices (mgr s))) (host s)"

definition dp_response :: "'w dp_ext \<Rightarrow> 'w dp_state \<Rightarrow> Device list" where
  "dp_response x s = List.map_filter (map_of (devices (mgr s))) (range_ids x s)"

definition stop_server :: "'w dp_ext \<Rightarrow> ('w dp_state, unit) prog" where
  "stop_server x = andthen (gets (grpcServer \<circ> mgr)) (\<lambda>srv. case srv of
       None \<Rightarrow> panic ''invalid memory address or nil pointer dereference''
     | Some g \<Rightarrow> modify (host_update (dp_ServerStop x g)))"

text \<open>One round of the endless loop, from the value of \<open>changed\<close> at its start to the one at its end.\<close>

definition watch_round :: "'w dp_ext \<Rightarrow> bool \<Rightarrow> ('w dp_state, bool) prog" where
  "watch_round x changed =
     andthen (gets (range_ids x)) (\<lambda>ids.
     andthen (update_health x ids changed) (\<lambda>changed.
     andthen (if changed then
          andthen (gets (dp_response x)) (\<lambda>resp.
          andthen (printf ''ListAndWatch: send devices %v'' []) (\<lambda>_.
          try_else (on_host (call (dp_Send x resp)))
            (\<lambda>err. andthen (printf ''Error. Cannot update device states: %v'' [E err]) (\<lambda>_.
               andthen (stop_server x) (\<lambda>_. fail err)))
            ret))
        else ret ()) (\<lambda>_.
     andthen (modify (host_update (dp_Sleep x 5))) (\<lambda>_. ret False))))"

text \<open>The first \<open>n\<close> rounds; an \<open>Ok\<close> result says that the loop is still running.\<close>

fun watch_rounds :: "'w dp_ext \<Rightarrow> nat \<Rightarrow> bool \<Rightarrow> ('w dp_state, bool) prog" where
  "watch_rounds x 0 changed = ret changed"
| "watch_rounds x (Suc n) changed = andthen (watch_round x changed) (watch_rounds x n)"

definition ListAndWatch :: "'w dp_ext \<Rightarrow> nat \<Rightarrow> ('w dp_state, bool) prog" where
  "ListAndWatch x n = watch_rounds x n True"

section \<open>\<open>Allocate\<close>\<close>

text \<open>An unknown or unhealthy device is reported on the standard output and allocated all the same.\<close>

definition allocate_device :: "'w dp_ext \<Rightarrow> string \<Rightarrow> ('w dp_state, unit) prog" where
  "allocate_device x i =
     andthen (printf ''DeviceID in Allocate: %v'' [S i]) (\<lambda>_.
     andthen (gets (\<lambda>s. map_of (devices (mgr s)) i)) (\<lambda>entry.
     let dev = (case entry of None \<Rightarrow> \<lparr>devID = [], Health = []\<rparr> | Some d \<Rightarrow> d) in
     andthen (if entry = None
        then printf ''Error. Invalid allocation request with non-existing device %s'' [S i] else ret ()) (\<lambda>_.
     if Health dev \<noteq> dp_Healthy x
     then printf ''Error. Invalid allocation request with unhealthy device %s'' [S i] else ret ())))"

fun allocate_ids :: "'w dp_ext \<Rightarrow> string list \<Rightarrow> string \<Rightarrow> ('w dp_state, string) prog" where
  "allocate_ids x [] devName = ret devName"
| "allocate_ids x (i # ids) devName =
     andthen (allocate_device x i) (\<lambda>_. allocate_ids x ids (devName @ i @ '',''))"

fun allocate_containers :: "'w dp_ext \<Rightarrow> string list list \<Rightarrow> string \<Rightarrow> ('w dp_state, (string \<rightharpoonup> string) list) prog" where
  "allocate_containers x [] devName = ret []"
| "allocate_containers x (c # cs) devName =
     andthen (allocate_ids x c devName) (\<lambda>devName.
     andthen (printf ''device(s) allocated: %s'' [S devName]) (\<lambda>_.
     andthen (allocate_containers x cs devName) (\<lambda>resps. ret ([''APF-DEV'' \<mapsto> devName] # resps))))"

text \<open>The request is the list of device identifiers per container, the answer the environment per container.\<close>

definition Allocate :: "'w dp_ext \<Rightarrow> string list list \<Rightarrow> ('w dp_state, (string \<rightharpoonup> string) list) prog" where
  "Allocate x rqt = allocate_containers x rqt []"

section \<open>Life cycle\<close>

definition dp_cleanup :: "'z os_scheme dp_ext \<Rightarrow> ('z os_scheme dp_state, unit) prog" where
  "dp_cleanup x =
     andthen (gets (socketFile \<circ> mgr)) (\<lambda>socket_file.
     try_else (on_host (call (os_Remove (Join [DevicePluginPath x, socket_file]))))
       (\<lambda>err. if \<not> IsNotExist err then fail err else ret ()) ret)"

definition dp_Start :: "'z os_scheme dp_ext \<Rightarrow> ('z os_scheme dp_state, unit) prog" where
  "dp_Start x =
     andthen (printf ''Discovering device[s]'' []) (\<lambda>_.
     andthen (discoverHostDevices x) (\<lambda>_.
     andthen (gets (socketFile \<circ> mgr)) (\<lambda>socket_file.
     let endpoint = Join [DevicePluginPath x, socket_file] in
     andthen (printf ''Starting APF Device Plugin server at: %s'' [S endpoint]) (\<lambda>_.
     andthen (try_else (on_host (call (dp_Listen x ''unix'' endpoint)))
        (\<lambda>err. andthen (printf ''Error: Starting APF Device Plugin server failed: %v'' [E err]) (\<lambda>_. ret None))
        (\<lambda>l. ret (Some l))) (\<lambda>lis.
     andthen (gets (dp_NewServer x \<circ> host)) (\<lambda>(g, w).
     andthen (modify (host_update (\<lambda>_. w))) (\<lambda>_.
     andthen (modify (mgr_update (grpcServer_update (\<lambda>_. Some g)))) (\<lambda>_.
     let kubelet = Join [''unix:'', DeprecatedSockDir, KubeEndPoint] in
     try_else (on_host (call (dp_Dial x kubelet)))
       (\<lambda>err. andthen (printf ''%s device plugin unable connect to Kubelet : %v'' [S resourceName, E err]) (\<lambda>_. fail err)) (\<lambda>conn.
     deferring (on_host (call (dp_ConnClose x conn)))
      (andthen (modify (host_update (dp_RegisterServer x g))) (\<lambda>_.
       andthen (modify (host_update (dp_Serve x g lis))) (\<lambda>_.
       try_else (on_host (call (dp_DialBlock x (''unix:'' @ endpoint))))
         (\<lambda>err. andthen (printf ''error. unable to establish test connection with %s gRPC server: %v'' [S resourceName, E err])
            (\<lambda>_. fail err)) (\<lambda>test.
       andthen (printf ''%s device plugin endpoint started serving'' [S resourceName]) (\<lambda>_.
       andthen (ignore (on_host (call (dp_ConnClose x test)))) (\<lambda>_.
       try_else (on_host (call (dp_Register x conn
            \<lparr>rqVersion = dp_Version x, Endpoint = socket_file, ResourceName = resourceName\<rparr>)))
         (\<lambda>err. andthen (printf ''%s device plugin unable to register with Kubelet : %v'' [S resourceName, E err])
            (\<lambda>_. fail err)) (\<lambda>_.
       printf ''%s device plugin registered with Kubelet'' [S resourceName]))))))))))))))))"

definition dp_Stop :: "'z os_scheme dp_ext \<Rightarrow> ('z os_scheme dp_state, unit) prog" where
  "dp_Stop x =
     andthen (printf ''Stopping Device Plugin gRPC server..'' []) (\<lambda>_.
     andthen (gets (grpcServer \<circ> mgr)) (\<lambda>srv.
     if srv = None then ret ()
     else andthen (stop_server x) (\<lambda>_.
       andthen (modify (mgr_update (grpcServer_update (\<lambda>_. None)))) (\<lambda>_.
       dp_cleanup x))))"

definition PreStartContainer :: "('w dp_state, unit) prog" where
  "PreStartContainer = ret ()"

text \<open>The options are the one field \<open>PreStartRequired\<close>.\<close>

definition GetDevicePluginOptions :: "('w dp_state, bool) prog" where
  "GetDevicePluginOptions = ret False"

text \<open>\<open>main\<close> after the flags; \<open>cfg\<close> is the value of \<open>--config-file\<close>, if it is given.\<close>

definition flag_config :: "string option \<Rightarrow> string" where
  "flag_config cfg = (case cfg of None \<Rightarrow> excludeFilePath | Some v \<Rightarrow> v)"

definition dp_main :: "'z os_scheme dp_ext \<Rightarrow> ('z os_scheme dp_state, unit) prog" where
  "dp_main x =
     andthen (ignore (dp_cleanup x)) (\<lambda>_.
     try_else (dp_Start x) (\<lambda>err. printf ''sriovManager.Start() failed: %v'' [E err]) (\<lambda>_.
     andthen (gets (dp_signal x \<circ> host)) (\<lambda>(sig, w).
     andthen (modify (host_update (\<lambda>_. w))) (\<lambda>_.
     andthen (printf ''Received signal \"%v\", shutting down.'' [S sig]) (\<lambda>_.
     ignore (dp_Stop x))))))"

definition dp_run :: "'z os_scheme dp_ext \<Rightarrow> string option \<Rightarrow> 'z os_scheme \<Rightarrow> unit res \<times> 'z os_scheme dp_state" where
  "dp_run x cfg w = dp_main x \<lparr>mgr = newAPFManager (flag_config cfg), stdout = [], host = w\<rparr>"

end
