(* ===== verification/DeviceProps.thy ===== *)
theory DeviceProps
  imports DevicePlugin
begin

text \<open>
  What the device plugin guarantees: the devices it discovers, what its watch loop tells the kubelet,
  and the environment it gives to the containers that are allocated devices.
\<close>

section \<open>Reads of the host\<close>

lemma host_update_id [simp]: "s\<lparr>host := host s\<rparr> = s"
  by (cases s) simp

lemma read_host:
  assumes "snd (f (host s)) = host s"
  shows "on_host (call f) s = (case fst (f (host s)) of Inl e \<Rightarrow> Err e | Inr a \<Rightarrow> Ok a, s)"
  using assms by (cases "f (host s)") (auto simp: zoom_def call_def split: sum.split)

lemma read_host_else:
  assumes "snd (f (host s)) = host s"
  shows "try_else (on_host (call f)) h k s = (case fst (f (host s)) of Inl e \<Rightarrow> h e s | Inr a \<Rightarrow> k a s)"
    "check (on_host (call f)) g k s = (case fst (f (host s)) of Inl e \<Rightarrow> (Err (g e), s) | Inr a \<Rightarrow> k a s)"
  by (simp_all add: check_def try_else_def read_host [where f = f, OF assms] fail_def split: sum.split)

section \<open>Discovery\<close>

definition code_of :: "'z os_scheme \<Rightarrow> string \<Rightarrow> string" where
  "code_of w name = (case fst (os_ReadFile (Join [sysClassNet, name, ''device/device'']) w) of
     Inl _ \<Rightarrow> [] | Inr b \<Rightarrow> TrimSpace b)"

definition interfaces :: "'z os_scheme \<Rightarrow> string list" where
  "interfaces w = (case fst (os_ReadDir sysClassNet w) of Inl _ \<Rightarrow> [] | Inr files \<Rightarrow> files)"

text \<open>The exclusion list, or why there is none.\<close>

definition exclusions :: "'z os_scheme dp_ext \<Rightarrow> string \<Rightarrow> 'z os_scheme \<Rightarrow> error + string list" where
  "exclusions x cfg w = (case fst (os_ReadFile cfg w) of
     Inl e \<Rightarrow> Inl (Errorf ''error reading file %s, %v'' [S cfg, E e])
   | Inr b \<Rightarrow> (case then_dec (dp_Unmarshal x b) dec_ExcludeConfig of
       Inl e \<Rightarrow> Inl (Errorf ''error unmarshalling raw bytes %v please make sure the config is in json format'' [E e])
     | Inr ex \<Rightarrow> Inr ex))"

definition advertised :: "'z os_scheme \<Rightarrow> string list \<Rightarrow> string \<Rightarrow> bool" where
  "advertised w excluded k \<longleftrightarrow> code_of w k = deviceCode \<and> k \<notin> set excluded"

lemma discover_one_run:
  "\<exists>out. discover_one x ex k s = (Ok (), s\<lparr>stdout := out,
     mgr := if advertised (host s) ex k
       then devices_update (AList.update k \<lparr>devID = k, Health = dp_Healthy x\<rparr>) (mgr s) else mgr s\<rparr>)"
proof (cases "fst (os_ReadFile (Join [sysClassNet, k, ''device/device'']) (host s))")
  case (Inl e)
  then have "code_of (host s) k \<noteq> deviceCode" by (simp add: code_of_def deviceCode_def)
  with Inl show ?thesis
    by (cases s) (simp add: discover_one_def andthen_def try_else_def read_host printf_def advertised_def deviceCode_def
        TrimSpace_def modify_def ret_def)
next
  case (Inr b)
  then have "code_of (host s) k = TrimSpace b" by (simp add: code_of_def)
  with Inr show ?thesis
    by (cases s) (simp add: discover_one_def andthen_def try_else_def read_host advertised_def modify_def ret_def Let_def)
qed

lemma discover_loop:
  "\<exists>out m. for_each files (discover_one x ex) s = (Ok (), s\<lparr>stdout := out, mgr := m\<rparr>) \<and>
     map_of (devices m) = (\<lambda>k. if k \<in> set files \<and> advertised (host s) ex k
       then Some \<lparr>devID = k, Health = dp_Healthy x\<rparr> else map_of (devices (mgr s)) k)"
proof (induction files arbitrary: s)
  case Nil
  show ?case by (intro exI [of _ "stdout s"] exI [of _ "mgr s"]) (simp add: ret_def)
next
  case (Cons k ks)
  from discover_one_run [of x ex k s] obtain out where
    run: "discover_one x ex k s = (Ok (), s\<lparr>stdout := out,
       mgr := if advertised (host s) ex k
         then devices_update (AList.update k \<lparr>devID = k, Health = dp_Healthy x\<rparr>) (mgr s) else mgr s\<rparr>)" by blast
  let ?s = "s\<lparr>stdout := out, mgr := if advertised (host s) ex k
         then devices_update (AList.update k \<lparr>devID = k, Health = dp_Healthy x\<rparr>) (mgr s) else mgr s\<rparr>"
  from Cons [of ?s] obtain out' m where
    "for_each ks (discover_one x ex) ?s = (Ok (), ?s\<lparr>stdout := out', mgr := m\<rparr>)" and
    m: "map_of (devices m) = (\<lambda>j. if j \<in> set ks \<and> advertised (host ?s) ex j
       then Some \<lparr>devID = j, Health = dp_Healthy x\<rparr> else map_of (devices (mgr ?s)) j)" by blast
  then have "for_each (k # ks) (discover_one x ex) s = (Ok (), s\<lparr>stdout := out', mgr := m\<rparr>)"
    by (simp add: andthen_def try_else_def run)
  moreover have "map_of (devices m) = (\<lambda>j. if j \<in> set (k # ks) \<and> advertised (host s) ex j
       then Some \<lparr>devID = j, Health = dp_Healthy x\<rparr> else map_of (devices (mgr s)) j)"
    by (auto simp: m update_conv fun_eq_iff)
  ultimately show ?case by blast
qed

text \<open>C21. Discovery fails, changing nothing, exactly when the configuration file cannot be read or is no
  exclusion list. Otherwise the devices it adds are exactly the interfaces of \<open>/sys/class/net\<close> whose
  device code is the one of the accelerated functions and which the file does not exclude, each
  healthy and under its own name; every other entry stays, and the host is only read.\<close>

theorem discover_devices:
  "case discoverHostDevices x s of (r, s') \<Rightarrow> host s' = host s \<and>
    (case exclusions x (configFile (mgr s)) (host s) of
       Inl e \<Rightarrow> r = Err e \<and> s' = s
     | Inr excluded \<Rightarrow> r = Ok () \<and> map_of (devices (mgr s')) =
         (\<lambda>k. if k \<in> set (interfaces (host s)) \<and> code_of (host s) k = ''0x1452'' \<and> k \<notin> set excluded
            then Some \<lparr>devID = k, Health = dp_Healthy x\<rparr> else map_of (devices (mgr s)) k))"
proof (cases "exclusions x (configFile (mgr s)) (host s)")
  case (Inl e)
  then show ?thesis
    by (auto simp: discoverHostDevices_def exclusions_def read_host_else split: sum.splits)
next
  case (Inr ex)
  have codes: "\<And>k. advertised (host s) ex k \<longleftrightarrow> code_of (host s) k = ''0x1452'' \<and> k \<notin> set ex"
    by (simp add: advertised_def deviceCode_def)
  obtain out m where loop: "for_each (interfaces (host s)) (discover_one x ex) s = (Ok (), s\<lparr>stdout := out, mgr := m\<rparr>)"
    "map_of (devices m) = (\<lambda>k. if k \<in> set (interfaces (host s)) \<and> advertised (host s) ex k
       then Some \<lparr>devID = k, Health = dp_Healthy x\<rparr> else map_of (devices (mgr s)) k)"
    using discover_loop [of "interfaces (host s)" x ex s] by blast
  have "discoverHostDevices x s = (case fst (os_ReadDir sysClassNet (host s)) of
      Inl e \<Rightarrow> (Ok (), s)
    | Inr files \<Rightarrow> for_each files (discover_one x ex) s)"
    using Inr by (auto simp: discoverHostDevices_def exclusions_def read_host_else split: sum.splits)
  then show ?thesis
    using Inr loop by (auto simp: interfaces_def codes split: sum.splits)
qed

section \<open>The watch loop\<close>

definition heal :: "'w dp_ext \<Rightarrow> string set \<Rightarrow> string \<times> Device \<Rightarrow> string \<times> Device" where
  "heal x K e = (fst e, if fst e \<in> K then (snd e)\<lparr>Health := dp_Healthy x\<rparr> else snd e)"

abbreviation healthy :: "'w dp_ext \<Rightarrow> 'w dp_state \<Rightarrow> bool" where
  "healthy x s \<equiv> \<forall>d \<in> snd ` set (devices (mgr s)). Health d = dp_Healthy x"

lemma run_updates:
  "andthen (modify (mgr_update f)) k s = k () (s\<lparr>mgr := f (mgr s)\<rparr>)"
  "andthen (modify (host_update h)) k s = k () (s\<lparr>host := h (host s)\<rparr>)"
  "andthen (printf t a) k s = k () (s\<lparr>stdout := stdout s @ [(t, a)]\<rparr>)"
  by (cases s; simp add: printf_def)+

lemma map_fst_heal [simp]: "map fst (map (heal x K) ds) = map fst ds"
  by (simp add: heal_def)

lemma heal_none [simp]: "heal x {} = id"
  by (simp add: heal_def fun_eq_iff)

lemma update_eq_map:
  assumes "distinct (map fst ds)" and "map_of ds k = Some d"
  shows "AList.update k v ds = map (\<lambda>e. (fst e, if fst e = k then v else snd e)) ds"
  using assms
proof (induction ds)
  case (Cons e ds)
  obtain k' d' where "e = (k', d')" by force
  moreover have "map (\<lambda>e. (fst e, if fst e = k' then v else snd e)) ds = ds" if "k' \<notin> fst ` set ds"
    using that by (intro map_idI) (auto simp: prod_eq_iff image_iff)
  ultimately show ?case using Cons by auto
qed simp

lemma heal_insert:
  assumes "distinct (map fst ds)" and "map_of ds k = Some d"
  shows "map (heal x K) (AList.update k (d\<lparr>Health := dp_Healthy x\<rparr>) ds) = map (heal x (insert k K)) ds"
  using assms by (auto simp: update_eq_map heal_def dest: eq_key_imp_eq_value)

lemma heal_skip:
  assumes "distinct (map fst ds)" and "\<And>d. map_of ds k = Some d \<Longrightarrow> Health d = dp_Healthy x"
  shows "map (heal x (insert k K)) ds = map (heal x K) ds"
  using assms by (auto simp: heal_def)

lemma update_health_run:
  assumes "distinct (map fst (devices (mgr s)))"
  shows "\<exists>c'. update_health x ids c s = (Ok c', s\<lparr>mgr := devices_update (map (heal x (set ids))) (mgr s)\<rparr>) \<and>
    (c \<longrightarrow> c') \<and> (healthy x s \<longrightarrow> c' = c)"
  using assms
proof (induction ids arbitrary: s c)
  case Nil
  then show ?case by (cases s; cases "mgr s") (simp add: ret_def)
next
  case (Cons i ids)
  show ?case
  proof (cases "\<exists>d. map_of (devices (mgr s)) i = Some d \<and> Health d \<noteq> dp_Healthy x")
    case True
    then obtain d where d: "map_of (devices (mgr s)) i = Some d" "Health d \<noteq> dp_Healthy x" by blast
    let ?s = "s\<lparr>mgr := devices_update (AList.update i (d\<lparr>Health := dp_Healthy x\<rparr>)) (mgr s)\<rparr>"
    have "\<not> healthy x s" using d by (auto dest!: map_of_SomeD intro!: bexI)
    moreover have "update_health x (i # ids) c s = update_health x ids True ?s"
      using d by (simp add: GetDeviceState_def run_updates del: andthen_modify)
    moreover have "distinct (map fst (devices (mgr ?s)))" using Cons.prems by (simp add: distinct_update)
    ultimately show ?thesis
      using Cons.IH [of ?s True] d Cons.prems by (auto simp: heal_insert)
  next
    case False
    then have "update_health x (i # ids) c s = update_health x ids c s"
      by (auto simp: GetDeviceState_def andthen_def try_else_def gets_def split: option.split)
    moreover have "map (heal x (set (i # ids))) (devices (mgr s)) = map (heal x (set ids)) (devices (mgr s))"
      unfolding list.set by (rule heal_skip) (use False Cons.prems in auto)
    then have "devices_update (map (heal x (set (i # ids)))) (mgr s) = devices_update (map (heal x (set ids))) (mgr s)"
      by (cases "mgr s") simp
    ultimately show ?thesis using Cons.IH [OF Cons.prems, of c] by (simp only:)
  qed
qed

lemma mset_map_filter: "mset (List.map_filter f xs) = image_mset (the \<circ> f) (filter_mset (\<lambda>k. f k \<noteq> None) (mset xs))"
  by (induction xs) (auto simp: List.map_filter_simps split: option.splits)

lemma dp_response_mset:
  assumes "mset (range_ids x s) = mset (map fst (devices (mgr s)))" and "distinct (map fst (devices (mgr s)))"
  shows "mset (dp_response x s) = mset (map snd (devices (mgr s)))"
proof -
  have "List.map_filter (map_of ds) (map fst ds) = map snd ds" if "distinct (map fst ds)" for ds :: "(string \<times> Device) list"
  proof -
    have "List.map_filter (map_of ds) (map fst es) = map snd es" if "set es \<subseteq> set ds" for es
      using that \<open>distinct (map fst ds)\<close> by (induction es) (auto simp: List.map_filter_simps)
    then show ?thesis by blast
  qed
  then show ?thesis using assms by (metis dp_response_def mset_map_filter)
qed

lemma heal_all: "map (heal x (fst ` set ds)) ds = map (\<lambda>(k, d). (k, d\<lparr>Health := dp_Healthy x\<rparr>)) ds"
  by (auto simp: heal_def)

lemma heal_healthy:
  assumes "\<forall>d \<in> snd ` set ds. Health d = dp_Healthy x"
  shows "map (heal x K) ds = ds"
  using assms by (intro map_idI) (auto simp: heal_def)

lemma watch_round_sends:
  assumes order: "\<And>ks w. mset (dp_range x ks w) = mset ks"
    and keys: "distinct (map fst (devices (mgr s)))" and server: "grpcServer (mgr s) = Some g"
  shows "\<exists>resp s' out. mset resp = mset (map (\<lambda>(k, d). d\<lparr>Health := dp_Healthy x\<rparr>) (devices (mgr s))) \<and>
    mgr s' = devices_update (map (\<lambda>(k, d). (k, d\<lparr>Health := dp_Healthy x\<rparr>))) (mgr s) \<and>
    watch_round x True s = (case dp_Send x resp (host s) of
      (Inl e, w) \<Rightarrow> (Err e, s'\<lparr>host := dp_ServerStop x g w, stdout := out\<rparr>)
    | (Inr _, w) \<Rightarrow> (Ok False, s'\<lparr>host := dp_Sleep x 5 w\<rparr>))"
proof -
  let ?ids = "range_ids x s"
  have ids: "mset ?ids = mset (map fst (devices (mgr s)))" by (simp add: range_ids_def order)
  then have "set ?ids = fst ` set (devices (mgr s))" by (metis list.set_map mset_eq_setD)
  define s1 where "s1 = s\<lparr>mgr := devices_update (map (\<lambda>(k, d). (k, d\<lparr>Health := dp_Healthy x\<rparr>))) (mgr s)\<rparr>"
  have run: "update_health x ?ids True s = (Ok True, s1)"
    using update_health_run [OF keys, of x ?ids True] \<open>set ?ids = _\<close>
    by (cases "mgr s") (auto simp: s1_def heal_all)
  have "mset (dp_response x s1) = mset (map snd (devices (mgr s1)))"
    using keys by (intro dp_response_mset) (simp_all add: range_ids_def order s1_def case_prod_beta comp_def)
  then have resp: "mset (dp_response x s1) = mset (map (\<lambda>(k, d). d\<lparr>Health := dp_Healthy x\<rparr>) (devices (mgr s)))"
    by (simp add: s1_def case_prod_unfold comp_def)
  let ?s' = "s1\<lparr>stdout := stdout s1 @ [(''ListAndWatch: send devices %v'', [])]\<rparr>"
  have "\<exists>out. watch_round x True s = (case dp_Send x (dp_response x s1) (host s) of
      (Inl e, w) \<Rightarrow> (Err e, ?s'\<lparr>host := dp_ServerStop x g w, stdout := out\<rparr>)
    | (Inr _, w) \<Rightarrow> (Ok False, ?s'\<lparr>host := dp_Sleep x 5 w\<rparr>))"
    using server
    by (cases "dp_Send x (dp_response x s1) (host s)"; cases "fst (dp_Send x (dp_response x s1) (host s))")
      (auto simp: watch_round_def andthen_def try_else_def run gets_def modify_def ret_def printf_def zoom_def
        call_def fail_def stop_server_def, (cases s, auto simp: s1_def)+)
  with resp show ?thesis by (intro exI [of _ "dp_response x s1"] exI [of _ ?s']) (auto simp: s1_def)
qed

lemma watch_rounds_idle:
  assumes "distinct (map fst (devices (mgr s)))" and "healthy x s"
  shows "watch_rounds x n False s = (Ok False, s\<lparr>host := (dp_Sleep x 5 ^^ n) (host s)\<rparr>)"
  using assms
proof (induction n arbitrary: s)
  case 0
  show ?case by (cases s) (simp add: ret_def)
next
  case (Suc n)
  have "update_health x (range_ids x s) False s = (Ok False, s)"
    using update_health_run [OF Suc.prems(1), of x "range_ids x s" False] Suc.prems(2)
    by (cases s; cases "mgr s") (auto simp: heal_healthy)
  then have "watch_round x False s = (Ok False, s\<lparr>host := dp_Sleep x 5 (host s)\<rparr>)"
    by (cases s) (simp add: watch_round_def andthen_def try_else_def gets_def ret_def modify_def)
  with Suc.IH [of "s\<lparr>host := dp_Sleep x 5 (host s)\<rparr>"] Suc.prems show ?case
    by (simp add: andthen_def try_else_def funpow_Suc_right del: funpow.simps)
qed

text \<open>C23. However many rounds the watch loop has made, it has told the kubelet of the devices exactly once, in
  its first round: the message lists every device, each as healthy, in some order, and all the loop
  does to the world is this one message and a pause of 5 s per round. If the kubelet does not take
  it, the server is stopped and the loop ends with that error. The order in which \<open>range\<close> visits the
  map is arbitrary.\<close>

theorem list_and_watch_sends_once:
  assumes "\<And>ks w. mset (dp_range x ks w) = mset ks"
    and "distinct (map fst (devices (mgr s)))" and "grpcServer (mgr s) = Some g" and "0 < n"
  shows "\<exists>resp. mset resp = mset (map (\<lambda>(k, d). d\<lparr>Health := dp_Healthy x\<rparr>) (devices (mgr s))) \<and>
    (case ListAndWatch x n s of (r, s') \<Rightarrow>
      mgr s' = devices_update (map (\<lambda>(k, d). (k, d\<lparr>Health := dp_Healthy x\<rparr>))) (mgr s) \<and>
      (case dp_Send x resp (host s) of
         (Inl e, w) \<Rightarrow> r = Err e \<and> host s' = dp_ServerStop x g w
       | (Inr _, w) \<Rightarrow> r = Ok False \<and> host s' = (dp_Sleep x 5 ^^ n) w))"
proof -
  obtain k where k: "n = Suc k" using assms(4) by (cases n) auto
  obtain resp s1 out where resp: "mset resp = mset (map (\<lambda>(k, d). d\<lparr>Health := dp_Healthy x\<rparr>) (devices (mgr s)))"
    and s1: "mgr s1 = devices_update (map (\<lambda>(k, d). (k, d\<lparr>Health := dp_Healthy x\<rparr>))) (mgr s)"
    and round1: "watch_round x True s = (case dp_Send x resp (host s) of
      (Inl e, w) \<Rightarrow> (Err e, s1\<lparr>host := dp_ServerStop x g w, stdout := out\<rparr>)
    | (Inr _, w) \<Rightarrow> (Ok False, s1\<lparr>host := dp_Sleep x 5 w\<rparr>))"
    using watch_round_sends [OF assms(1-3)] by blast
  have keys: "distinct (map fst (devices (mgr s1)))"
    using assms(2) by (simp add: s1 case_prod_beta comp_def)
  have idle: "watch_rounds x k False (s1\<lparr>host := w\<rparr>) = (Ok False, s1\<lparr>host := (dp_Sleep x 5 ^^ k) w\<rparr>)" for w
    using watch_rounds_idle [of "s1\<lparr>host := w\<rparr>" x k] keys by (auto simp: s1 case_prod_unfold)
  show ?thesis
    using resp by (intro exI [of _ resp])
      (auto simp: ListAndWatch_def k andthen_def try_else_def round1 idle fail_def s1 funpow_swap1
        split: prod.split sum.split)
qed

text \<open>A kubelet that takes every message: the world is the list of the messages so far.\<close>

definition demo_dp :: "Device list list dp_ext" where
  "demo_dp = \<lparr>dp_Unmarshal = (\<lambda>_. Inr JNull), dp_range = (\<lambda>ks _. rev ks), dp_Healthy = ''Healthy'', dp_Version = ''v1beta1'',
     DevicePluginPath = ''/var/lib/kubelet/device-plugins/'', dp_Send = (\<lambda>r w. (Inr (), w @ [r])), dp_Sleep = (\<lambda>_ w. w),
     dp_Listen = (\<lambda>_ _ w. (Inr 3, w)), dp_NewServer = (\<lambda>w. (1, w)), dp_ServerStop = (\<lambda>_ w. w),
     dp_Dial = (\<lambda>_ w. (Inr 4, w)), dp_DialBlock = (\<lambda>_ w. (Inr 5, w)), dp_ConnClose = (\<lambda>_ w. (Inr (), w)),
     dp_RegisterServer = (\<lambda>_ w. w), dp_Serve = (\<lambda>_ _ w. w), dp_Register = (\<lambda>_ _ w. (Inr (), w)),
     dp_signal = (\<lambda>w. (''SIGTERM'', w))\<rparr>"

definition demo_dp_state :: "Device list list dp_state" where
  "demo_dp_state = \<lparr>mgr = \<lparr>configFile = excludeFilePath, socketFile = pluginEndpoint,
       devices = [(''ens1'', \<lparr>devID = ''ens1'', Health = ''Healthy''\<rparr>), (''ens2'', \<lparr>devID = ''ens2'', Health = ''Unhealthy''\<rparr>)],
       grpcServer = Some 1\<rparr>, stdout = [], host = []\<rparr>"

lemma list_and_watch_sends_once_witness:
  "\<exists>resp. mset resp = {#\<lparr>devID = ''ens1'', Health = ''Healthy''\<rparr>, \<lparr>devID = ''ens2'', Health = ''Healthy''\<rparr>#} \<and>
     fst (ListAndWatch demo_dp 7 demo_dp_state) = Ok False \<and> host (snd (ListAndWatch demo_dp 7 demo_dp_state)) = [resp]"
proof -
  have idle: "((\<lambda>w. w) ^^ n) w = w" for n and w :: "Device list list" by (induction n) auto
  have "mset (dp_range demo_dp ks w) = mset ks" for ks w by (simp add: demo_dp_def)
  from list_and_watch_sends_once [where s = demo_dp_state and n = 7 and g = 1, OF this] show ?thesis
    by (auto simp: demo_dp_def demo_dp_state_def idle case_prod_unfold)
qed

section \<open>Allocation\<close>

lemma allocate_device_run:
  "\<exists>out. allocate_device x i s = (Ok (), s\<lparr>stdout := stdout s @ out\<rparr>) \<and>
    (map_of (devices (mgr s)) i = None \<longrightarrow> (''Error. Invalid allocation request with non-existing device %s'', [S i]) \<in> set out)"
  by (cases s) (auto simp: allocate_device_def printf_def ret_def modify_def Let_def andthen_def try_else_def)

definition unknown :: "'w dp_state \<Rightarrow> string list \<Rightarrow> (string \<times> arg list) set" where
  "unknown s ids = (\<lambda>i. (''Error. Invalid allocation request with non-existing device %s'', [S i]))
     ` {i \<in> set ids. map_of (devices (mgr s)) i = None}"

lemma unknown_append: "unknown s (a @ b) = unknown s a \<union> unknown s b"
  by (auto simp: unknown_def)

lemma unknown_stdout [simp]: "unknown (s\<lparr>stdout := l\<rparr>) ids = unknown s ids"
  by (simp add: unknown_def)

lemma allocate_ids_run:
  "\<exists>out. allocate_ids x ids d s = (Ok (d @ concat (map (\<lambda>i. i @ '','') ids)), s\<lparr>stdout := stdout s @ out\<rparr>) \<and>
    unknown s ids \<subseteq> set out"
proof (induction ids arbitrary: d s)
  case Nil
  show ?case by (intro exI [of _ "[]"]) (cases s, simp add: unknown_def)
next
  case (Cons i ids)
  obtain o1 where o1: "allocate_device x i s = (Ok (), s\<lparr>stdout := stdout s @ o1\<rparr>)"
    "map_of (devices (mgr s)) i = None \<longrightarrow> (''Error. Invalid allocation request with non-existing device %s'', [S i]) \<in> set o1"
    using allocate_device_run by blast
  obtain o2 where "allocate_ids x ids (d @ i @ '','') (s\<lparr>stdout := stdout s @ o1\<rparr>) =
      (Ok ((d @ i @ '','') @ concat (map (\<lambda>i. i @ '','') ids)), s\<lparr>stdout := (stdout s @ o1) @ o2\<rparr>)"
    "unknown (s\<lparr>stdout := stdout s @ o1\<rparr>) ids \<subseteq> set o2"
    using Cons [of "d @ i @ '',''" "s\<lparr>stdout := stdout s @ o1\<rparr>"] by auto
  with o1 show ?case
    by (intro exI [of _ "o1 @ o2"]) (auto simp: andthen_def try_else_def unknown_def)
qed

lemma allocate_containers_run:
  "\<exists>out. allocate_containers x rqt d s =
     (Ok (map (\<lambda>n. [''APF-DEV'' \<mapsto> d @ concat (map (\<lambda>i. i @ '','') (concat (take (Suc n) rqt)))]) [0..<length rqt]),
      s\<lparr>stdout := stdout s @ out\<rparr>) \<and> unknown s (concat rqt) \<subseteq> set out"
proof (induction rqt arbitrary: d s)
  case Nil
  show ?case by (intro exI [of _ "[]"]) (cases s, simp add: unknown_def)
next
  case (Cons c cs)
  obtain o1 where o1: "allocate_ids x c d s = (Ok (d @ concat (map (\<lambda>i. i @ '','') c)), s\<lparr>stdout := stdout s @ o1\<rparr>)"
    "unknown s c \<subseteq> set o1" using allocate_ids_run by blast
  let ?d = "d @ concat (map (\<lambda>i. i @ '','') c)"
  let ?o1 = "o1 @ [(''device(s) allocated: %s'', [S ?d])]"
  define s1 where "s1 = s\<lparr>stdout := stdout s @ ?o1\<rparr>"
  obtain o2 where o2: "allocate_containers x cs ?d s1 =
     (Ok (map (\<lambda>n. [''APF-DEV'' \<mapsto> ?d @ concat (map (\<lambda>i. i @ '','') (concat (take (Suc n) cs)))]) [0..<length cs]),
      s1\<lparr>stdout := stdout s1 @ o2\<rparr>)" "unknown s1 (concat cs) \<subseteq> set o2"
    using Cons [of ?d s1] by blast
  have step2: "andthen (printf ''device(s) allocated: %s'' [S ?d]) k (s\<lparr>stdout := stdout s @ o1\<rparr>) = k () s1" for k
    by (simp add: run_updates s1_def del: andthen_modify)
  have step1: "andthen (allocate_ids x c d) k s = k ?d (s\<lparr>stdout := stdout s @ o1\<rparr>)" for k
    by (simp add: andthen_def try_else_def o1)
  have step3: "andthen (allocate_containers x cs ?d) k s1 = k (map (\<lambda>n. [''APF-DEV'' \<mapsto> ?d @
      concat (map (\<lambda>i. i @ '','') (concat (take (Suc n) cs)))]) [0..<length cs]) (s1\<lparr>stdout := stdout s1 @ o2\<rparr>)" for k
    by (simp add: andthen_def try_else_def o2)
  have "allocate_containers x (c # cs) d s =
     (Ok ([''APF-DEV'' \<mapsto> ?d] # map (\<lambda>n. [''APF-DEV'' \<mapsto> ?d @
      concat (map (\<lambda>i. i @ '','') (concat (take (Suc n) cs)))]) [0..<length cs]), s1\<lparr>stdout := stdout s1 @ o2\<rparr>)"
    by (simp only: allocate_containers.simps step1 step2 step3 ret_def)
  moreover have "s1\<lparr>stdout := stdout s1 @ o2\<rparr> = s\<lparr>stdout := stdout s @ ?o1 @ o2\<rparr>" by (simp add: s1_def)
  moreover have "map (\<lambda>n. [''APF-DEV'' \<mapsto> d @ concat (map (\<lambda>i. i @ '','') (concat (take (Suc n) (c # cs))))]) [0..<length (c # cs)] =
     [''APF-DEV'' \<mapsto> ?d] # map (\<lambda>n. [''APF-DEV'' \<mapsto> ?d @ concat (map (\<lambda>i. i @ '','') (concat (take (Suc n) cs)))]) [0..<length cs]"
    by (simp add: map_upt_Suc del: upt_Suc)
  moreover have "unknown s (concat (c # cs)) \<subseteq> set (?o1 @ o2)" using o1(2) o2(2) unfolding concat.simps unknown_append s1_def unknown_stdout
    by (simp add: subset_iff)
  ultimately show ?case by (intro exI [of _ "?o1 @ o2"]) (simp only: append_assoc simp_thms)
qed

text \<open>C24. An allocation never fails and changes nothing but the standard output. The \<open>APF-DEV\<close> of the \<open>n\<close>-th
  container of a request names the devices of that container and of every container before it, each
  followed by a comma; a device the plugin does not know is allocated like any other and only
  reported on the standard output.\<close>

theorem allocate_accumulates:
  "\<exists>out. Allocate x rqt s =
     (Ok (map (\<lambda>n. [''APF-DEV'' \<mapsto> concat (map (\<lambda>i. i @ '','') (concat (take (Suc n) rqt)))]) [0..<length rqt]),
      s\<lparr>stdout := stdout s @ out\<rparr>) \<and>
     (\<lambda>i. (''Error. Invalid allocation request with non-existing device %s'', [S i]))
       ` {i \<in> set (concat rqt). map_of (devices (mgr s)) i = None} \<subseteq> set out"
  using allocate_containers_run [of x rqt "[]" s] by (simp add: Allocate_def unknown_def)

section \<open>The process\<close>

text \<open>The two lines that tell how the process ended, which nothing before its end prints.\<close>

definition failed_line :: string where "failed_line = ''sriovManager.Start() failed: %v''"
definition signal_line :: string where "signal_line = ''Received signal \"%v\", shutting down.''"

definition undecided :: "'w dp_state \<Rightarrow> bool" where
  "undecided s \<longleftrightarrow> failed_line \<notin> fst ` set (stdout s) \<and> signal_line \<notin> fst ` set (stdout s)"

lemma undecided_steps [keeps_intros]:
  "t \<noteq> failed_line \<Longrightarrow> t \<noteq> signal_line \<Longrightarrow> keeps undecided (printf t a)"
  "keeps undecided (on_host m)" "keeps undecided (modify (host_update f))" "keeps undecided (modify (mgr_update g))"
  by (auto simp: keeps_def undecided_def printf_def zoom_def split: prod.split)

lemma total_printf [total_intros]: "total (printf t a)"
  by (auto simp: printf_def intro: total_intros)

lemma discover_total: "total (discoverHostDevices x)" and discover_undecided: "keeps undecided (discoverHostDevices x)"
  unfolding discoverHostDevices_def discover_one_def Let_def
  by (auto intro!: total_intros) (auto simp: failed_line_def signal_line_def intro!: keeps_intros)

lemma dp_Start_total: "total (dp_Start x)" and dp_Start_undecided: "keeps undecided (dp_Start x)"
  unfolding dp_Start_def Let_def
  by (auto intro!: total_intros discover_total split: prod.split)
    (auto simp: failed_line_def signal_line_def intro!: keeps_intros discover_undecided split: prod.split)

lemma discover_socket: "keeps (\<lambda>s. socketFile (mgr s) = v) (discoverHostDevices x)"
proof -
  have steps: "keeps (\<lambda>s. socketFile (mgr s) = v) (printf t a)" "keeps (\<lambda>s. socketFile (mgr s) = v) (on_host m)"
    "keeps (\<lambda>s. socketFile (mgr s) = v) (modify (mgr_update (devices_update g)))" for t a g and m :: "('a os_scheme, 'b) prog"
    by (auto simp: keeps_def printf_def zoom_def split: prod.split)
  show ?thesis
    unfolding discoverHostDevices_def discover_one_def Let_def by (auto intro!: keeps_intros steps)
qed

lemma reported_Ok:
  "try_else m (\<lambda>err. andthen (printf t (a err)) (\<lambda>_. fail err)) k s = (Ok b, s') \<longleftrightarrow>
     (\<exists>c s1. m s = (Ok c, s1) \<and> k c s1 = (Ok b, s'))"
  by (auto simp: try_else_def run_updates simp del: andthen_modify split: prod.split res.split)

lemma run_closed: "andthen (ignore (on_host (call f))) k s = k () (s\<lparr>host := snd (f (host s))\<rparr>)"
  by (cases "f (host s)"; cases "fst (f (host s))"; cases s)
    (auto simp: andthen_def ignore_def try_else_def zoom_def call_def ret_def)

lemma printf_mgr: "printf t a s = (r, s') \<Longrightarrow> mgr s' = mgr s"
  by (auto simp: printf_def)

lemma on_host_mgr: "on_host m s = (r, s') \<Longrightarrow> mgr s' = mgr s"
  by (auto simp: zoom_def split: prod.splits)

lemma listen_mgr:
  "try_else (on_host m) (\<lambda>err. andthen (printf t (a err)) (\<lambda>_. ret None)) (\<lambda>l. ret (Some l)) s = (r, s') \<Longrightarrow> mgr s' = mgr s"
  by (auto simp: try_else_def run_updates simp del: andthen_modify split: prod.splits res.splits dest: on_host_mgr)

lemma dp_Start_Ok:
  assumes "dp_Start x s = (Ok (), s')"
  shows "grpcServer (mgr s') \<noteq> None \<and> socketFile (mgr s') = socketFile (mgr s) \<and>
    (\<exists>conn w1 w2. dp_Register x conn \<lparr>rqVersion = dp_Version x, Endpoint = socketFile (mgr s), ResourceName = resourceName\<rparr> w1 = (Inr (), w2))"
proof -
  let ?s = "s\<lparr>stdout := stdout s @ [(''Discovering device[s]'', [])]\<rparr>"
  obtain s1 where disc: "discoverHostDevices x ?s = (Ok (), s1)"
    using assms by (auto simp: dp_Start_def run_updates andthen_Ok simp del: andthen_modify)
  from keepsD [OF discover_socket _ this, of "socketFile (mgr s)"] have sock: "socketFile (mgr s1) = socketFile (mgr s)" by simp
  from assms show ?thesis
    by (auto simp: dp_Start_def Let_def run_updates andthen_Ok [of "discoverHostDevices x"] disc
       andthen_Ok [of "try_else _ _ _"] reported_Ok deferring_Ok zoom_Ok call_Ok sock run_closed case_prod_unfold
       simp del: andthen_modify dest!: listen_mgr on_host_mgr printf_mgr)
qed

lemma dp_cleanup_run:
  "\<exists>r. dp_cleanup x s = (r, s\<lparr>host := snd (os_Remove (Join [DevicePluginPath x, socketFile (mgr s)]) (host s))\<rparr>) \<and> \<not> abnormal r"
  by (cases "os_Remove (Join [DevicePluginPath x, socketFile (mgr s)]) (host s)";
      cases "fst (os_Remove (Join [DevicePluginPath x, socketFile (mgr s)]) (host s))"; cases s)
    (auto simp: dp_cleanup_def try_else_def zoom_def call_def ret_def fail_def)

lemma ignored_run: "m s = (r, s1) \<Longrightarrow> \<not> abnormal r \<Longrightarrow> ignore m s = (Ok (), s1)"
  by (cases r) (auto simp: ignore_def try_else_def ret_def)

lemma dp_Stop_run:
  assumes "grpcServer (mgr s) = Some g"
  shows "ignore (dp_Stop x) s = (Ok (), s\<lparr>stdout := stdout s @ [(''Stopping Device Plugin gRPC server..'', [])],
    mgr := (mgr s)\<lparr>grpcServer := None\<rparr>,
    host := snd (os_Remove (Join [DevicePluginPath x, socketFile (mgr s)]) (dp_ServerStop x g (host s)))\<rparr>)"
proof -
  let ?s = "s\<lparr>stdout := stdout s @ [(''Stopping Device Plugin gRPC server..'', [])],
    mgr := (mgr s)\<lparr>grpcServer := None\<rparr>, host := dp_ServerStop x g (host s)\<rparr>"
  obtain r where "dp_cleanup x ?s = (r, ?s\<lparr>host := snd (os_Remove (Join [DevicePluginPath x, socketFile (mgr s)]) (dp_ServerStop x g (host s)))\<rparr>)"
    "\<not> abnormal r" using dp_cleanup_run [of x ?s] by auto
  moreover from this(1) assms have "dp_Stop x s = (r, ?s\<lparr>host := snd (os_Remove (Join [DevicePluginPath x, socketFile (mgr s)]) (dp_ServerStop x g (host s)))\<rparr>)"
    by (cases s) (simp add: dp_Stop_def stop_server_def printf_def andthen_def try_else_def modify_def gets_def)
  ultimately show ?thesis using ignored_run [of "dp_Stop x" s] by simp
qed


end
