(* ===== verification/PluginTypes.thy ===== *)
theory PluginTypes
  imports GoNet
begin

text \<open>
  \<open>ipu-plugin/pkg/types/types.go\<close> and \<open>ipu-plugin/pkg/utils/utils.go\<close>: the bridge types, the two
  interfaces the plugin's server calls (\<open>BridgeController\<close> and \<open>P4RTClient\<close>, as records of
  programs) with the contract each provider keeps (as locales), and the helper that runs an
  operating-system command.
\<close>

section \<open>Bridge types\<close>

type_synonym BridgeType = int

definition OvsBridge :: BridgeType where "OvsBridge = 0"
definition LinuxBridge :: BridgeType where "LinuxBridge = 1"

definition BridgeType_String :: "BridgeType \<Rightarrow> string" where
  "BridgeType_String b = (if b = OvsBridge then ''ovs''
     else if b = LinuxBridge then ''linux'' else ''unknown'')"

section \<open>The interfaces of the plugin's server\<close>

record 'w BridgeController =
  EnsureBridgeExists :: "('w, unit) prog"
  AddPort :: "string \<Rightarrow> ('w, unit) prog"
  DeletePort :: "string \<Rightarrow> ('w, unit) prog"

record 'w P4RTClient =
  AddRules :: "byte list \<Rightarrow> int \<Rightarrow> ('w, unit) prog"
  DeleteRules :: "byte list \<Rightarrow> int \<Rightarrow> ('w, unit) prog"

text \<open>
  What the server relies on. A bridge controller reports every failure as an error value. A P4
  client reports nothing at all: whatever happens to the single rules, \<open>AddRules\<close> and
  \<open>DeleteRules\<close> return, provided the address has a second octet or no usable size. Both leave
  alone every part of the world that the primitives they call leave alone: \<open>stable\<close> is that
  class of predicates.
\<close>

definition mac_usable :: "byte list \<Rightarrow> bool" where
  "mac_usable mac \<longleftrightarrow> length mac \<noteq> 1"

locale bridge_controller =
  fixes ctl :: "'w BridgeController"
    and stable :: "('w \<Rightarrow> bool) \<Rightarrow> bool"
  assumes ensure_total: "total (EnsureBridgeExists ctl)"
    and add_total: "total (AddPort ctl p)"
    and del_total: "total (DeletePort ctl p)"
    and ensure_keeps: "stable P \<Longrightarrow> keeps P (EnsureBridgeExists ctl)"
    and add_keeps: "stable P \<Longrightarrow> keeps P (AddPort ctl p)"
    and del_keeps: "stable P \<Longrightarrow> keeps P (DeletePort ctl p)"

locale p4rt_client =
  fixes cli :: "'w P4RTClient"
    and stable :: "('w \<Rightarrow> bool) \<Rightarrow> bool"
  assumes rules_add_ok: "mac_usable mac \<Longrightarrow> fst (AddRules cli mac vlan w) = Ok ()"
    and rules_del_ok: "mac_usable mac \<Longrightarrow> fst (DeleteRules cli mac vlan w) = Ok ()"
    and rules_add_keeps: "stable P \<Longrightarrow> keeps P (AddRules cli mac vlan)"
    and rules_del_keeps: "stable P \<Longrightarrow> keeps P (DeleteRules cli mac vlan)"

section \<open>Running commands\<close>

text \<open>
  \<open>exec.Command(bin, params...).Run()\<close>: the command and its arguments go to the operating
  system; a third argument carries the environment where the source sets one.
\<close>

type_synonym 'w runner = "string \<Rightarrow> string list \<Rightarrow> ('w, unit) ext"

definition ExecOsCommand :: "'w runner \<Rightarrow> string \<Rightarrow> string list \<Rightarrow> ('w, unit) prog" where
  "ExecOsCommand execCommand cmdBin params =
     check (call (execCommand cmdBin params)) (\<lambda>err. err) (\<lambda>_. ret ())"

lemma ExecOsCommand_total [total_intros]: "total (ExecOsCommand run b ps)"
  by (simp add: ExecOsCommand_def total_intros)

lemma ExecOsCommand_keeps [keeps_intros]: "keeps_ext P (run b ps) \<Longrightarrow> keeps P (ExecOsCommand run b ps)"
  by (simp add: ExecOsCommand_def keeps_intros)

end
