(* ===== verification/BridgeControllers.thy ===== *)
theory BridgeControllers
  imports PluginTypes Netlink
begin

text \<open>
  \<open>ipu-plugin/pkg/ipuplugin/linuxbridge.go\<close>, \<open>ovsbridge.go\<close> and the choice between them in
  \<open>ipuplugin/cmd/rootcmd.go\<close>: the two providers of the \<open>BridgeController\<close> interface. The netlink
  functions are the package variables of the source (\<open>linkByNameFn\<close> and so on), which its unit
  tests replace too; here they are the record \<open>netlink_fns\<close>. A link is what the code reads of a
  \<open>netlink.Link\<close>: its attributes, the string \<open>Type()\<close> returns and the dynamic type behind a type
  assertion.
\<close>

section \<open>netlink\<close>

datatype dyn_type = DynVlan | DynBridge | DynOther

record link = link_attrs +
  Type :: string
  dyn :: dyn_type
  VlanId :: int

record 'w netlink_fns =
  linkByNameFn :: "string \<Rightarrow> ('w, link) ext"
  linkAddFn :: "link \<Rightarrow> ('w, unit) ext"
  linkDelFn :: "link \<Rightarrow> ('w, unit) ext"
  linkSetUpFn :: "link \<Rightarrow> ('w, unit) ext"
  linkSetDownFn :: "link \<Rightarrow> ('w, unit) ext"
  linkSetMasterFn :: "link \<Rightarrow> link \<Rightarrow> ('w, unit) ext"
  linkSetNoMasterFn :: "link \<Rightarrow> ('w, unit) ext"

text \<open>The zero values \<open>netlink.Vlan{}\<close> and \<open>netlink.Bridge{}\<close>.\<close>

definition zero_link :: link where
  "zero_link = \<lparr>Name = [], Index = 0, ParentIndex = 0, HardwareAddr = [], Type = [], dyn = DynOther, VlanId = 0\<rparr>"

definition new_Vlan :: link where "new_Vlan = zero_link\<lparr>Type := ''vlan'', dyn := DynVlan\<rparr>"
definition new_Bridge :: link where "new_Bridge = zero_link\<lparr>Type := ''bridge'', dyn := DynBridge\<rparr>"

section \<open>The Linux bridge\<close>

record linuxBridge =
  brName :: string

definition linuxBridge_createBridge :: "'w netlink_fns \<Rightarrow> linuxBridge \<Rightarrow> ('w, unit) prog" where
  "linuxBridge_createBridge nl b =
    (let br = new_Bridge\<lparr>Name := brName b\<rparr> in
     check (call (linkAddFn nl br)) (\<lambda>err. Errorf ''error creating bridge %s: %s'' [S (brName b), E err]) (\<lambda>_.
     check (call (linkSetUpFn nl br)) (\<lambda>err. Errorf ''error bringing bridge %s up: %s'' [S (brName b), E err]) (\<lambda>_.
     ret ())))"

definition linuxBridge_EnsureBridgeExists :: "'w netlink_fns \<Rightarrow> linuxBridge \<Rightarrow> ('w, unit) prog" where
  "linuxBridge_EnsureBridgeExists nl b =
    (if brName b = [] then fail (Errorf ''bridge name is empty'' [])
     else try_else (call (linkByNameFn nl (brName b)))
       (\<lambda>err. linuxBridge_createBridge nl b)
       (\<lambda>br. if Type br = ''bridge'' then ret ()
             else fail (Errorf ''a link is found with name %s but link type is not bridge'' [S (brName b)])))"

definition linuxBridge_AddPort :: "'w netlink_fns \<Rightarrow> linuxBridge \<Rightarrow> string \<Rightarrow> ('w, unit) prog" where
  "linuxBridge_AddPort nl b portName =
     check (call (linkByNameFn nl portName)) (\<lambda>err. Errorf ''unable to find vlan interface: %s, because: %w'' [S portName, E err]) (\<lambda>link.
     if dyn link \<noteq> DynVlan then fail (Errorf ''interface %s type is not vlan type'' [S portName])
     else
     check (call (linkByNameFn nl (brName b))) (\<lambda>err. Errorf ''unable to find bridge %s: %w'' [S (brName b), E err]) (\<lambda>br.
     check (call (linkSetMasterFn nl link br)) (\<lambda>err. Errorf ''error adding vlan interface %s to bridge %s: %s'' [S portName, S (brName b), E err]) (\<lambda>_.
     check (call (linkSetUpFn nl link)) (\<lambda>err. Errorf ''error bringing interface %s up: %s'' [S portName, E err]) (\<lambda>_.
     ret ()))))"

definition linuxBridge_DeletePort :: "'w netlink_fns \<Rightarrow> linuxBridge \<Rightarrow> string \<Rightarrow> ('w, unit) prog" where
  "linuxBridge_DeletePort nl b portName =
     check (call (linkByNameFn nl portName)) (\<lambda>err. Errorf ''unable to find vlan interface: %s, because: %w'' [S portName, E err]) (\<lambda>link.
     if dyn link \<noteq> DynVlan then fail (Errorf ''interface %s type is not vlan type'' [S portName])
     else
     check (call (linkSetNoMasterFn nl link)) (\<lambda>err. Errorf ''error removing vlan interface %s from bridge %s: %s'' [S portName, S (brName b), E err]) (\<lambda>_.
     check (call (linkSetDownFn nl link)) (\<lambda>err. Errorf ''error bringing interface %s down: %s'' [S portName, E err]) (\<lambda>_.
     ret ())))"

definition NewLinuxBridgeController :: "'w netlink_fns \<Rightarrow> string \<Rightarrow> 'w BridgeController" where
  "NewLinuxBridgeController nl bridge =
    (let b = \<lparr>brName = bridge\<rparr> in
     \<lparr>EnsureBridgeExists = linuxBridge_EnsureBridgeExists nl b,
      AddPort = linuxBridge_AddPort nl b, DeletePort = linuxBridge_DeletePort nl b\<rparr>)"

section \<open>The OVS bridge\<close>

record ovsBridge =
  ovs_brName :: string
  ovsCliDir :: string

definition ovsBridge_EnsureBridgeExists :: "'w runner \<Rightarrow> ovsBridge \<Rightarrow> ('w, unit) prog" where
  "ovsBridge_EnsureBridgeExists exec b =
    (let createBrParams = [''--may-exist'', ''add-br'', ovs_brName b] in
     check (ExecOsCommand exec (ovsCliDir b @ ''/ovs-vsctl'') createBrParams)
       (\<lambda>err. Errorf ''error creating ovs bridge %s with ovs-vsctl command %s'' [S (ovs_brName b), E err])
       (\<lambda>_. ret ()))"

definition ovsBridge_AddPort :: "'w runner \<Rightarrow> ovsBridge \<Rightarrow> string \<Rightarrow> ('w, unit) prog" where
  "ovsBridge_AddPort exec b portName =
     check (call (exec (ovsCliDir b @ ''/ovs-vsctl'') [''add-port'', ovs_brName b, portName]))
       (\<lambda>err. Errorf ''unable to add port to the bridge: %w'' [E err]) (\<lambda>_. ret ())"

definition ovsBridge_DeletePort :: "'w runner \<Rightarrow> ovsBridge \<Rightarrow> string \<Rightarrow> ('w, unit) prog" where
  "ovsBridge_DeletePort exec b portName =
     check (call (exec (ovsCliDir b @ ''/ovs-vsctl'') [''del-port'', ovs_brName b, portName]))
       (\<lambda>err. Errorf ''unable to delete port from the bridge: %w'' [E err]) (\<lambda>_. ret ())"

definition NewOvsBridgeController :: "'w runner \<Rightarrow> string \<Rightarrow> string \<Rightarrow> 'w BridgeController" where
  "NewOvsBridgeController exec bridge cliDir =
    (let b = \<lparr>ovs_brName = bridge, ovsCliDir = cliDir\<rparr> in
     \<lparr>EnsureBridgeExists = ovsBridge_EnsureBridgeExists exec b,
      AddPort = ovsBridge_AddPort exec b, DeletePort = ovsBridge_DeletePort exec b\<rparr>)"

section \<open>The choice of the root command\<close>

definition getBridgeController :: "'w netlink_fns \<Rightarrow> 'w runner \<Rightarrow> string \<Rightarrow> string \<Rightarrow> string \<Rightarrow> 'w BridgeController \<times> BridgeType" where
  "getBridgeController nl exec bridge bridgeType cliDir =
    (if bridgeType = ''ovs'' then (NewOvsBridgeController exec bridge cliDir, OvsBridge)
     else if bridgeType = ''linux'' then (NewLinuxBridgeController nl bridge, LinuxBridge)
     else (NewLinuxBridgeController nl bridge, LinuxBridge))"

section \<open>Both keep the contract\<close>

definition netlink_stable :: "'w netlink_fns \<Rightarrow> ('w \<Rightarrow> bool) \<Rightarrow> bool" where
  "netlink_stable nl P \<longleftrightarrow>
     (\<forall>n. keeps_ext P (linkByNameFn nl n)) \<and> (\<forall>l. keeps_ext P (linkAddFn nl l)) \<and>
     (\<forall>l. keeps_ext P (linkDelFn nl l)) \<and> (\<forall>l. keeps_ext P (linkSetUpFn nl l)) \<and>
     (\<forall>l. keeps_ext P (linkSetDownFn nl l)) \<and> (\<forall>l m. keeps_ext P (linkSetMasterFn nl l m)) \<and>
     (\<forall>l. keeps_ext P (linkSetNoMasterFn nl l))"

definition exec_stable :: "'w runner \<Rightarrow> ('w \<Rightarrow> bool) \<Rightarrow> bool" where
  "exec_stable exec P \<longleftrightarrow> (\<forall>b ps. keeps_ext P (exec b ps))"

lemma linux_total [total_intros]:
  "total (linuxBridge_EnsureBridgeExists nl b)" "total (linuxBridge_AddPort nl b p)"
  "total (linuxBridge_DeletePort nl b p)"
  by (auto simp: linuxBridge_EnsureBridgeExists_def linuxBridge_createBridge_def
      linuxBridge_AddPort_def linuxBridge_DeletePort_def Let_def intro!: total_intros)

lemma linux_keeps [keeps_intros]:
  "netlink_stable nl P \<Longrightarrow> keeps P (linuxBridge_EnsureBridgeExists nl b)"
  "netlink_stable nl P \<Longrightarrow> keeps P (linuxBridge_AddPort nl b p)"
  "netlink_stable nl P \<Longrightarrow> keeps P (linuxBridge_DeletePort nl b p)"
  by (auto simp: linuxBridge_EnsureBridgeExists_def linuxBridge_createBridge_def netlink_stable_def
      linuxBridge_AddPort_def linuxBridge_DeletePort_def Let_def intro!: keeps_intros)

lemma ovs_total [total_intros]:
  "total (ovsBridge_EnsureBridgeExists ex b)" "total (ovsBridge_AddPort ex b p)"
  "total (ovsBridge_DeletePort ex b p)"
  by (auto simp: ovsBridge_EnsureBridgeExists_def ovsBridge_AddPort_def ovsBridge_DeletePort_def Let_def
      intro!: total_intros)

lemma ovs_keeps [keeps_intros]:
  "exec_stable ex P \<Longrightarrow> keeps P (ovsBridge_EnsureBridgeExists ex b)"
  "exec_stable ex P \<Longrightarrow> keeps P (ovsBridge_AddPort ex b p)"
  "exec_stable ex P \<Longrightarrow> keeps P (ovsBridge_DeletePort ex b p)"
  by (auto simp: ovsBridge_EnsureBridgeExists_def ovsBridge_AddPort_def ovsBridge_DeletePort_def
      exec_stable_def Let_def intro!: keeps_intros)

interpretation linux_ctl: bridge_controller "NewLinuxBridgeController nl bridge" "netlink_stable nl"
  for nl :: "'w netlink_fns" and bridge
  by unfold_locales (simp_all add: NewLinuxBridgeController_def Let_def linux_total linux_keeps)

interpretation ovs_ctl: bridge_controller "NewOvsBridgeController ex bridge dir" "exec_stable ex"
  for ex :: "'w runner" and bridge dir
  by unfold_locales (simp_all add: NewOvsBridgeController_def Let_def ovs_total ovs_keeps)

definition bridge_stable :: "'w netlink_fns \<Rightarrow> 'w runner \<Rightarrow> ('w \<Rightarrow> bool) \<Rightarrow> bool" where
  "bridge_stable nl ex P \<longleftrightarrow> netlink_stable nl P \<and> exec_stable ex P"

interpretation chosen_ctl: bridge_controller "fst (getBridgeController nl ex bridge btype dir)" "bridge_stable nl ex"
  for nl :: "'w netlink_fns" and ex bridge btype dir
  by unfold_locales
     (auto simp: getBridgeController_def bridge_stable_def
        linux_ctl.ensure_total linux_ctl.add_total linux_ctl.del_total
        linux_ctl.ensure_keeps linux_ctl.add_keeps linux_ctl.del_keeps
        ovs_ctl.ensure_total ovs_ctl.add_total ovs_ctl.del_total
        ovs_ctl.ensure_keeps ovs_ctl.add_keeps ovs_ctl.del_keeps)

end
