(* ===== verification/P4rtClient.thy ===== *)
theory P4rtClient
  imports PluginTypes
begin

text \<open>
  \<open>ipu-plugin/pkg/p4rtclient/p4rtclient.go\<close>: the FXP rules of a bridge port. A rule is the
  argument list of one \<open>p4rt-ctl\<close> call, strings exactly as \<open>fmt.Sprintf\<close> builds them. The
  \<open>p4rt-ctl\<close> binary is outside the repository: it is the argument \<open>p4rtCtlCommand\<close>, which takes
  the binary, the parameters and the environment.
\<close>

section \<open>The client and its helpers\<close>

definition vsiToVportOffset :: int where "vsiToVportOffset = 16"

definition pbPythonEnvVar :: string where
  "pbPythonEnvVar = ''PROTOCOL_BUFFERS_PYTHON_IMPLEMENTATION=python''"

record p4rtclient =
  p4RtBin :: string
  portMuxVsi :: int
  p4br :: string
  bridgeType :: BridgeType

type_synonym fxpRuleParams = "string list"

definition getVportForVsi :: "int \<Rightarrow> int" where
  "getVportForVsi vsi = vsi + vsiToVportOffset"

definition getMacIntValueFromBytes :: "byte list \<Rightarrow> 64 word" where
  "getMacIntValueFromBytes macAddr =
     (let macStr = filter (\<lambda>c. c \<noteq> CHR '':'') (MacString macAddr) in fst (ParseUint16 macStr))"

section \<open>Rule sets\<close>

definition getAddRuleSets :: "p4rtclient \<Rightarrow> byte list \<Rightarrow> int \<Rightarrow> fxpRuleParams list res" where
  "getAddRuleSets p macAddr vlan =
    (if length macAddr < 1 \<or> length macAddr > 6 then Ok []
     else case index macAddr 1 of
       Err e \<Rightarrow> Err e | Panic m \<Rightarrow> Panic m | Exit m \<Rightarrow> Exit m
     | Ok octet \<Rightarrow>
       (let vfVsi = int (unat octet);
            vfVport = getVportForVsi vfVsi;
            portMuxVport = getVportForVsi (portMuxVsi p);
            ruleSets = [
              [''add-entry'', p4br p, ''linux_networking_control.handle_tx_from_host_to_ovs_and_ovs_to_wire_table'',
               ''vmeta.common.vsi='' @ Itoa vfVsi @ '',user_meta.cmeta.bit32_zeros=0,action=linux_networking_control.add_vlan_and_send_to_port('' @ Itoa vlan @ '','' @ Itoa portMuxVport @ '')''],
              [''add-entry'', p4br p, ''linux_networking_control.handle_tx_from_host_to_ovs_and_ovs_to_wire_table'',
               ''vmeta.common.vsi='' @ Itoa vfVsi @ '',user_meta.cmeta.bit32_zeros=0,action=linux_networking_control.add_vlan_and_send_to_port('' @ Itoa vlan @ '','' @ Itoa portMuxVport @ '')''],
              [''add-entry'', p4br p, ''linux_networking_control.handle_rx_loopback_from_host_to_ovs_table'',
               ''vmeta.common.vsi='' @ Itoa vfVsi @ '',user_meta.cmeta.bit32_zeros=0,action=linux_networking_control.set_dest('' @ Itoa portMuxVport @ '')''],
              [''add-entry'', p4br p, ''linux_networking_control.vlan_push_mod_table'',
               ''vmeta.common.mod_blob_ptr='' @ Itoa vlan @ '',action=linux_networking_control.vlan_push(1,0,'' @ Itoa vlan @ '')''],
              [''add-entry'', p4br p, ''linux_networking_control.handle_tx_from_ovs_to_host_table'',
               ''vmeta.common.vsi='' @ Itoa (portMuxVsi p) @ '',hdrs.dot1q_tag[vmeta.common.depth].hdr.vid='' @ Itoa vlan @ '',action=linux_networking_control.remove_vlan_and_send_to_port('' @ Itoa vlan @ '','' @ Itoa vfVport @ '')''],
              [''add-entry'', p4br p, ''linux_networking_control.handle_rx_loopback_from_ovs_to_host_table'',
               ''vmeta.misc_internal.vm_to_vm_or_port_to_port[27:17]='' @ Itoa vfVsi @ '',user_meta.cmeta.bit32_zeros=0,action=linux_networking_control.set_dest('' @ Itoa vfVport @ '')''],
              [''add-entry'', p4br p, ''linux_networking_control.vlan_pop_mod_table'',
               ''vmeta.common.mod_blob_ptr='' @ Itoa vlan @ '',action=linux_networking_control.vlan_pop'']]
        in if bridgeType p = LinuxBridge then
             (let macToIntValue = getMacIntValueFromBytes macAddr in
              Ok (ruleSets @ [
                [''add-entry'', p4br p, ''linux_networking_control.l2_fwd_tx_table'',
                 ''dst_mac=0x'' @ fmt_x macToIntValue @ '',user_meta.pmeta.tun_flag1_d0=0x00,action=linux_networking_control.l2_fwd('' @ Itoa vfVport @ '')''],
                [''add-entry'', p4br p, ''linux_networking_control.sem_bypass'',
                 ''dst_mac=0x'' @ fmt_x macToIntValue @ '',action=linux_networking_control.set_dest('' @ Itoa vfVport @ '')'']]))
           else Ok ruleSets))"

definition getDelRuleSets :: "p4rtclient \<Rightarrow> byte list \<Rightarrow> int \<Rightarrow> fxpRuleParams list res" where
  "getDelRuleSets p macAddr vlan =
    (if length macAddr < 1 \<or> length macAddr > 6 then Ok []
     else case index macAddr 1 of
       Err e \<Rightarrow> Err e | Panic m \<Rightarrow> Panic m | Exit m \<Rightarrow> Exit m
     | Ok octet \<Rightarrow>
       (let vfVsi = int (unat octet);
            ruleSets = [
              [''del-entry'', p4br p, ''linux_networking_control.handle_tx_from_host_to_ovs_and_ovs_to_wire_table'',
               ''vmeta.common.vsi='' @ Itoa vfVsi @ '',user_meta.cmeta.bit32_zeros=0''],
              [''del-entry'', p4br p, ''linux_networking_control.handle_rx_loopback_from_host_to_ovs_table'',
               ''vmeta.common.vsi='' @ Itoa vfVsi @ '',user_meta.cmeta.bit32_zeros=0''],
              [''del-entry'', p4br p, ''linux_networking_control.vlan_push_mod_table'',
               ''vmeta.common.mod_blob_ptr='' @ Itoa vlan],
              [''del-entry'', p4br p, ''linux_networking_control.handle_tx_from_ovs_to_host_table'',
               ''vmeta.common.vsi='' @ Itoa (portMuxVsi p) @ '',hdrs.dot1q_tag[vmeta.common.depth].hdr.vid='' @ Itoa vlan],
              [''del-entry'', p4br p, ''linux_networking_control.handle_rx_loopback_from_ovs_to_host_table'',
               ''vmeta.misc_internal.vm_to_vm_or_port_to_port[27:17]='' @ Itoa vfVsi @ '',user_meta.cmeta.bit32_zeros=0''],
              [''del-entry'', p4br p, ''linux_networking_control.vlan_pop_mod_table'',
               ''vmeta.common.mod_blob_ptr='' @ Itoa vlan]]
        in if bridgeType p = LinuxBridge then
             (let macToIntValue = getMacIntValueFromBytes macAddr in
              Ok (ruleSets @ [
                [''del-entry'', p4br p, ''linux_networking_control.l2_fwd_tx_table'',
                 ''dst_mac=0x'' @ fmt_x macToIntValue @ '',user_meta.pmeta.tun_flag1_d0=0x00''],
                [''del-entry'', p4br p, ''linux_networking_control.sem_bypass'',
                 ''dst_mac=0x'' @ fmt_x macToIntValue]]))
           else Ok ruleSets))"

section \<open>Running the rules\<close>

type_synonym 'w ctl_runner = "string \<Rightarrow> string list \<Rightarrow> string list \<Rightarrow> ('w, unit) ext"

definition runP4rtCtlCommand :: "'w ctl_runner \<Rightarrow> string list \<Rightarrow> p4rtclient \<Rightarrow> fxpRuleParams \<Rightarrow> ('w, unit) prog" where
  "runP4rtCtlCommand p4rtCtlCommand environ p params =
     check (call (p4rtCtlCommand (p4RtBin p) params (environ @ [pbPythonEnvVar]))) (\<lambda>err. err) (\<lambda>_. ret ())"

text \<open>The loop of \<open>AddRules\<close> and \<open>DeleteRules\<close>: an error of a single rule is logged and dropped.\<close>

definition runRules :: "'w ctl_runner \<Rightarrow> string list \<Rightarrow> p4rtclient \<Rightarrow> fxpRuleParams list \<Rightarrow> ('w, unit) prog" where
  "runRules ctl environ p ruleSets = for_each ruleSets (\<lambda>r. ignore (runP4rtCtlCommand ctl environ p r))"

definition p4rtclient_AddRules :: "'w ctl_runner \<Rightarrow> string list \<Rightarrow> p4rtclient \<Rightarrow> byte list \<Rightarrow> int \<Rightarrow> ('w, unit) prog" where
  "p4rtclient_AddRules ctl environ p macAddr vlan =
     andthen (of_res (getAddRuleSets p macAddr vlan)) (\<lambda>ruleSets. runRules ctl environ p ruleSets)"

definition p4rtclient_DeleteRules :: "'w ctl_runner \<Rightarrow> string list \<Rightarrow> p4rtclient \<Rightarrow> byte list \<Rightarrow> int \<Rightarrow> ('w, unit) prog" where
  "p4rtclient_DeleteRules ctl environ p macAddr vlan =
     andthen (of_res (getDelRuleSets p macAddr vlan)) (\<lambda>ruleSets. runRules ctl environ p ruleSets)"

definition NewP4RtClient :: "'w ctl_runner \<Rightarrow> string list \<Rightarrow> string \<Rightarrow> int \<Rightarrow> string \<Rightarrow> BridgeType \<Rightarrow> 'w P4RTClient" where
  "NewP4RtClient ctl environ bin muxVsi p4BridgeName brType =
    (let p = \<lparr>p4RtBin = bin, portMuxVsi = muxVsi, p4br = p4BridgeName, bridgeType = brType\<rparr> in
     \<lparr>AddRules = p4rtclient_AddRules ctl environ p, DeleteRules = p4rtclient_DeleteRules ctl environ p\<rparr>)"

section \<open>The contract of the client\<close>

lemma runP4rtCtlCommand_total [total_intros]: "total (runP4rtCtlCommand ctl env p r)"
  by (simp add: runP4rtCtlCommand_def total_intros)

lemma runP4rtCtlCommand_keeps [keeps_intros]:
  "(\<And>b ps e. keeps_ext P (ctl b ps e)) \<Longrightarrow> keeps P (runP4rtCtlCommand ctl env p r)"
  by (simp add: runP4rtCtlCommand_def keeps_intros)

lemma ignore_total_Ok: "total m \<Longrightarrow> fst (ignore m w) = Ok ()"
  unfolding ignore_def try_else_def ret_def
  by (auto split: prod.splits res.splits dest: totalD)

lemma runRules_Ok: "fst (runRules ctl env p rs w) = Ok ()"
proof (induction rs arbitrary: w)
  case Nil
  then show ?case by (simp add: runRules_def ret_def)
next
  case (Cons r rs)
  obtain x w' where ig: "ignore (runP4rtCtlCommand ctl env p r) w = (x, w')"
    by fastforce
  with ignore_total_Ok [OF runP4rtCtlCommand_total, of ctl env p r w]
  have "ignore (runP4rtCtlCommand ctl env p r) w = (Ok (), w')" by simp
  with Cons show ?case by (simp add: runRules_def andthen_def try_else_def)
qed

lemma runRules_keeps [keeps_intros]:
  "(\<And>b ps e. keeps_ext P (ctl b ps e)) \<Longrightarrow> keeps P (runRules ctl env p rs)"
  by (simp add: runRules_def keeps_intros)

lemma getAddRuleSets_Ok: "mac_usable mac \<Longrightarrow> \<exists>rs. getAddRuleSets p mac vlan = Ok rs"
  by (cases mac) (auto simp: getAddRuleSets_def mac_usable_def index_def Let_def)

lemma getDelRuleSets_Ok: "mac_usable mac \<Longrightarrow> \<exists>rs. getDelRuleSets p mac vlan = Ok rs"
  by (cases mac) (auto simp: getDelRuleSets_def mac_usable_def index_def Let_def)

lemma AddRules_Ok: "mac_usable mac \<Longrightarrow> fst (p4rtclient_AddRules ctl env p mac vlan w) = Ok ()"
  using getAddRuleSets_Ok [of mac p vlan]
  by (auto simp: p4rtclient_AddRules_def andthen_def try_else_def of_res_def runRules_Ok)

lemma DeleteRules_Ok: "mac_usable mac \<Longrightarrow> fst (p4rtclient_DeleteRules ctl env p mac vlan w) = Ok ()"
  using getDelRuleSets_Ok [of mac p vlan]
  by (auto simp: p4rtclient_DeleteRules_def andthen_def try_else_def of_res_def runRules_Ok)

definition p4_stable :: "'w ctl_runner \<Rightarrow> ('w \<Rightarrow> bool) \<Rightarrow> bool" where
  "p4_stable ctl P \<longleftrightarrow> (\<forall>b ps e. keeps_ext P (ctl b ps e))"

lemma AddRules_keeps [keeps_intros]:
  "p4_stable ctl P \<Longrightarrow> keeps P (p4rtclient_AddRules ctl env p mac vlan)"
  by (auto simp: p4rtclient_AddRules_def p4_stable_def intro!: keeps_intros)

lemma DeleteRules_keeps [keeps_intros]:
  "p4_stable ctl P \<Longrightarrow> keeps P (p4rtclient_DeleteRules ctl env p mac vlan)"
  by (auto simp: p4rtclient_DeleteRules_def p4_stable_def intro!: keeps_intros)

interpretation p4cli: p4rt_client "NewP4RtClient ctl environ bin muxVsi br brType" "p4_stable ctl"
  for ctl :: "'w ctl_runner" and environ bin muxVsi br brType
  by unfold_locales
     (simp_all add: NewP4RtClient_def Let_def AddRules_Ok DeleteRules_Ok AddRules_keeps DeleteRules_keeps)

section \<open>What the rules match\<close>

text \<open>
  A rule is identified by its bridge, its table and its match fields: the parameter up to the
  action. \<open>rule_key\<close> reads them off an argument list of \<open>p4rt-ctl\<close>.
\<close>

fun until_action :: "string \<Rightarrow> string" where
  "until_action [] = []"
| "until_action (c # cs) = (if take 8 (c # cs) = '',action='' then [] else c # until_action cs)"

definition rule_key :: "fxpRuleParams \<Rightarrow> string \<times> string \<times> string" where
  "rule_key r = (r ! 1, r ! 2, until_action (r ! 3))"

lemma until_action_plain: "CHR '','' \<notin> set xs \<Longrightarrow> until_action (xs @ ys) = xs @ until_action ys"
  by (induction xs) auto

lemma until_action_plain_end: "CHR '','' \<notin> set xs \<Longrightarrow> until_action xs = xs"
  using until_action_plain [of xs "[]"] by simp

lemma comma_not_in_Itoa: "CHR '','' \<notin> set (Itoa i)"
  by (auto dest: set_Itoa)

lemma comma_not_in_fmt_x: "CHR '','' \<notin> set (fmt_x w)"
  by (auto simp: fmt_x_def dest!: set_digits [rotated] arg_cong [of _ _ "of_char :: char \<Rightarrow> nat"]
      simp: of_digit_char split: if_splits)

lemmas until_action_number [simp] =
  until_action_plain [OF comma_not_in_Itoa] until_action_plain_end [OF comma_not_in_Itoa]
  until_action_plain [OF comma_not_in_fmt_x] until_action_plain_end [OF comma_not_in_fmt_x]

text \<open>
  Every rule that \<open>AddRules\<close> installs is matched by exactly one rule of \<open>DeleteRules\<close> and the
  other way round; the first rule is installed twice.
\<close>

lemma rule_keys_del_add:
  "getAddRuleSets p mac vlan = Ok adds \<Longrightarrow> getDelRuleSets p mac vlan = Ok dels \<Longrightarrow>
   map rule_key dels = remdups (map rule_key adds)"
  by (auto simp: getAddRuleSets_def getDelRuleSets_def index_def Let_def rule_key_def split: if_splits)

lemma rule_verbs:
  "getAddRuleSets p mac vlan = Ok adds \<Longrightarrow> r \<in> set adds \<Longrightarrow> r ! 0 = ''add-entry''"
  "getDelRuleSets p mac vlan = Ok dels \<Longrightarrow> r \<in> set dels \<Longrightarrow> r ! 0 = ''del-entry''"
  by (auto simp: getAddRuleSets_def getDelRuleSets_def index_def Let_def split: if_splits)

section \<open>The number of a hardware address\<close>

lemma filter_colon_hex2: "filter (\<lambda>c. c \<noteq> CHR '':'') (hex2 b) = hex2 b"
proof -
  have "CHR '':'' \<noteq> digit_char d" if "d < 16" for d
    using that of_digit_char [of d]
    by (auto dest!: arg_cong [of _ _ "of_char :: char \<Rightarrow> nat"] split: if_splits)
  moreover have "\<exists>d < 16. c = digit_char d" if "c \<in> set (hex2 b)" for c
    using set_hex2 [OF that] .
  ultimately show ?thesis by (auto simp: filter_id_conv)
qed

lemma filter_colon_MacString: "filter (\<lambda>c. c \<noteq> CHR '':'') (MacString hw) = concat (map hex2 hw)"
  unfolding MacString_def
  by (induction hw rule: induct_list012) (simp_all add: filter_colon_hex2)

text \<open>The value of a byte list read big-endian, the reference for the detour through text.\<close>

definition be_value :: "byte list \<Rightarrow> nat" where
  "be_value bs = foldl (\<lambda>a b. a * 256 + unat b) 0 bs"

lemma parse_digits_hex2:
  "parse_digits 16 acc (hex2 b @ s) = parse_digits 16 (acc * 256 + unat b) s"
proof -
  define q r where "q = unat b div 16" and "r = unat b mod 16"
  have "unat b = q * 16 + r" by (simp add: q_def r_def)
  moreover have "q < 16" "r < 16" using unat_byte_less [of b] by (simp_all add: q_def r_def)
  moreover have "hex2 b = [digit_char q, digit_char r]" by (simp add: hex2_def q_def r_def)
  ultimately show ?thesis by (simp add: algebra_simps)
qed

lemma parse_digits_MacString:
  "parse_digits 16 acc (concat (map hex2 hw)) = Some (foldl (\<lambda>a b. a * 256 + unat b) acc hw)"
  by (induction hw arbitrary: acc) (simp_all add: parse_digits_hex2)

lemma foldl_value:
  "foldl (\<lambda>a b. a * 256 + unat (b :: byte)) acc bs = acc * 256 ^ length bs + foldl (\<lambda>a b. a * 256 + unat b) 0 bs"
proof (induction bs arbitrary: acc)
  case (Cons b bs)
  show ?case
    using Cons.IH [of "acc * 256 + unat b"] Cons.IH [of "unat b"] by (simp add: algebra_simps)
qed simp

lemma be_value_Cons: "be_value (b # bs) = unat b * 256 ^ length bs + be_value bs"
  using foldl_value [of "unat b" bs] by (simp add: be_value_def)

lemma be_value_less: "be_value bs < 256 ^ length bs"
proof (induction bs)
  case (Cons b bs)
  have "unat b * 256 ^ length bs \<le> 255 * 256 ^ length bs"
    using unat_byte_less [of b] by (intro mult_right_mono) simp_all
  with Cons have "unat b * 256 ^ length bs + be_value bs < 256 * 256 ^ length bs" by linarith
  then show ?case by (simp add: be_value_Cons)
qed (simp add: be_value_def)

lemma be_value_inject:
  "length xs = length ys \<Longrightarrow> be_value xs = be_value ys \<longleftrightarrow> xs = ys"
proof (induction xs ys rule: list_induct2)
  case (Cons x xs y ys)
  let ?n = "256 ^ length ys :: nat"
  have "(unat x * ?n + be_value xs) div ?n = unat x" "(unat y * ?n + be_value ys) div ?n = unat y"
    using be_value_less [of xs] be_value_less [of ys] Cons.hyps by simp_all
  then have "unat x * ?n + be_value xs = unat y * ?n + be_value ys \<Longrightarrow> unat x = unat y" by metis
  then show ?case
    using Cons by (auto simp: be_value_Cons word_eq_iff_unsigned [where ?'a = nat])
qed simp

lemma getMacIntValue_eq:
  assumes "length mac \<le> 8"
  shows "getMacIntValueFromBytes mac = of_nat (be_value mac)"
proof (cases "mac = []")
  case True
  then show ?thesis by (simp add: getMacIntValueFromBytes_def MacString_def ParseUint16_def be_value_def)
next
  case False
  have "be_value mac < 256 ^ length mac" by (rule be_value_less)
  also have "\<dots> \<le> 256 ^ 8" by (rule power_increasing) (use assms in simp_all)
  finally have "be_value mac < 2 ^ 64" by simp
  moreover from False have "concat (map hex2 mac) \<noteq> []" by (cases mac) (simp_all add: hex2_def)
  ultimately show ?thesis
    by (simp del: concat_eq_Nil_conv add: getMacIntValueFromBytes_def Let_def filter_colon_MacString ParseUint16_def
        parse_digits_MacString be_value_def)
qed

section \<open>Effect on a switch\<close>

text \<open>
  The switch is the world; \<open>entries\<close> is its view of the installed keys. The two laws are what
  \<open>p4rt-ctl\<close> documents: \<open>add-entry\<close> installs its entry or leaves the tables alone (an entry that
  is already there is refused), \<open>del-entry\<close> removes its entry and no other.
\<close>

definition switch_laws :: "'w ctl_runner \<Rightarrow> ('w \<Rightarrow> (string \<times> string \<times> string) set) \<Rightarrow> bool" where
  "switch_laws ctl entries \<longleftrightarrow>
    (\<forall>b r e w. r ! 0 = ''add-entry'' \<longrightarrow>
       entries (snd (ctl b r e w)) \<in> {entries w, insert (rule_key r) (entries w)}) \<and>
    (\<forall>b r e w. r ! 0 = ''del-entry'' \<longrightarrow>
       entries (snd (ctl b r e w)) = entries w - {rule_key r})"

lemma snd_run_rule: "snd (ignore (runP4rtCtlCommand ctl env p r) w) = snd (ctl (p4RtBin p) r (env @ [pbPythonEnvVar]) w)"
  by (simp add: ignore_def runP4rtCtlCommand_def check_def try_else_def call_def ret_def fail_def
      split: prod.split sum.split)

lemma snd_runRules_Cons:
  "snd (runRules ctl env p (r # rs) w) =
   snd (runRules ctl env p rs (snd (ctl (p4RtBin p) r (env @ [pbPythonEnvVar]) w)))"
proof -
  have "ignore (runP4rtCtlCommand ctl env p r) w = (Ok (), snd (ignore (runP4rtCtlCommand ctl env p r) w))"
    using ignore_total_Ok [OF runP4rtCtlCommand_total, of ctl env p r w] by (metis prod.collapse)
  then show ?thesis
    by (simp add: runRules_def andthen_def try_else_def snd_run_rule)
qed

lemma runRules_add:
  assumes "switch_laws ctl entries" "\<forall>r \<in> set rs. r ! 0 = ''add-entry''"
  shows "entries w \<subseteq> entries (snd (runRules ctl env p rs w)) \<and>
         entries (snd (runRules ctl env p rs w)) \<subseteq> entries w \<union> rule_key ` set rs"
  using assms(2)
proof (induction rs arbitrary: w)
  case Nil
  then show ?case by (simp add: runRules_def ret_def)
next
  case (Cons r rs)
  let ?w = "snd (ctl (p4RtBin p) r (env @ [pbPythonEnvVar]) w)"
  have "entries ?w \<in> {entries w, insert (rule_key r) (entries w)}"
    using assms(1) Cons.prems by (simp add: switch_laws_def)
  with Cons.IH [of ?w] Cons.prems show ?case by (auto simp: snd_runRules_Cons)
qed

lemma runRules_del:
  assumes "switch_laws ctl entries" "\<forall>r \<in> set rs. r ! 0 = ''del-entry''"
  shows "entries (snd (runRules ctl env p rs w)) = entries w - rule_key ` set rs"
  using assms(2)
proof (induction rs arbitrary: w)
  case Nil
  then show ?case by (simp add: runRules_def ret_def)
next
  case (Cons r rs)
  let ?w = "snd (ctl (p4RtBin p) r (env @ [pbPythonEnvVar]) w)"
  have "entries ?w = entries w - {rule_key r}"
    using assms(1) Cons.prems by (simp add: switch_laws_def)
  with Cons.IH [of ?w] Cons.prems show ?case by (auto simp: snd_runRules_Cons)
qed

section \<open>Properties\<close>

text \<open>C10. \<open>DeleteRules\<close> removes exactly what \<open>AddRules\<close> installs: for every address with a second
  octet the match keys of the deletion rules are the match keys of the installation rules, in the
  same order and without the duplicate.\<close>

theorem p4_rules_symmetric:
  assumes "mac_usable mac"
  shows "\<exists>adds dels. getAddRuleSets p mac vlan = Ok adds \<and> getDelRuleSets p mac vlan = Ok dels \<and>
           map rule_key dels = remdups (map rule_key adds)"
  using assms getAddRuleSets_Ok getDelRuleSets_Ok rule_keys_del_add by metis

lemma p4_rules_symmetric_witness:
  "mac_usable [0, 8, 0, 0, 3, 20] \<and> (\<exists>adds dels.
     getAddRuleSets \<lparr>p4RtBin = ''p4rt-ctl'', portMuxVsi = 10, p4br = ''br0'', bridgeType = LinuxBridge\<rparr>
       [0, 8, 0, 0, 3, 20] 5 = Ok adds \<and>
     getDelRuleSets \<lparr>p4RtBin = ''p4rt-ctl'', portMuxVsi = 10, p4br = ''br0'', bridgeType = LinuxBridge\<rparr>
       [0, 8, 0, 0, 3, 20] 5 = Ok dels \<and> map rule_key dels = remdups (map rule_key adds))"
proof -
  have h: "mac_usable [0, 8, 0, 0, 3, 20]" by (simp add: mac_usable_def)
  show ?thesis using h p4_rules_symmetric [OF h] by blast
qed


text \<open>A switch that keeps its keys as a set, for the witness.\<close>

definition set_switch :: "(string \<times> string \<times> string) set ctl_runner" where
  "set_switch b r e w = (if r ! 0 = ''add-entry'' then
       (if rule_key r \<in> w then (Inl (Ext ''ALREADY_EXISTS''), w) else (Inr (), insert (rule_key r) w))
     else if rule_key r \<in> w then (Inr (), w - {rule_key r}) else (Inl (Ext ''NOT_FOUND''), w))"

lemma set_switch_laws: "switch_laws set_switch (\<lambda>w. w)"
  by (auto simp: switch_laws_def set_switch_def)


text \<open>The keys of a port as a function of the four numbers they are built from.\<close>

definition port_keys :: "p4rtclient \<Rightarrow> int \<Rightarrow> int \<Rightarrow> 64 word \<Rightarrow> (string \<times> string \<times> string) list" where
  "port_keys p vsi vlan mv =
    [(p4br p, ''linux_networking_control.handle_tx_from_host_to_ovs_and_ovs_to_wire_table'',
        ''vmeta.common.vsi='' @ Itoa vsi @ '',user_meta.cmeta.bit32_zeros=0''),
     (p4br p, ''linux_networking_control.handle_rx_loopback_from_host_to_ovs_table'',
        ''vmeta.common.vsi='' @ Itoa vsi @ '',user_meta.cmeta.bit32_zeros=0''),
     (p4br p, ''linux_networking_control.vlan_push_mod_table'', ''vmeta.common.mod_blob_ptr='' @ Itoa vlan),
     (p4br p, ''linux_networking_control.handle_tx_from_ovs_to_host_table'',
        ''vmeta.common.vsi='' @ Itoa (portMuxVsi p) @ '',hdrs.dot1q_tag[vmeta.common.depth].hdr.vid='' @ Itoa vlan),
     (p4br p, ''linux_networking_control.handle_rx_loopback_from_ovs_to_host_table'',
        ''vmeta.misc_internal.vm_to_vm_or_port_to_port[27:17]='' @ Itoa vsi @ '',user_meta.cmeta.bit32_zeros=0''),
     (p4br p, ''linux_networking_control.vlan_pop_mod_table'', ''vmeta.common.mod_blob_ptr='' @ Itoa vlan)] @
    (if bridgeType p = LinuxBridge then
      [(p4br p, ''linux_networking_control.l2_fwd_tx_table'',
         ''dst_mac=0x'' @ fmt_x mv @ '',user_meta.pmeta.tun_flag1_d0=0x00''),
       (p4br p, ''linux_networking_control.sem_bypass'', ''dst_mac=0x'' @ fmt_x mv)] else [])"

lemma del_keys_eq:
  assumes "length mac = 6" "getDelRuleSets p mac vlan = Ok dels"
  shows "map rule_key dels = port_keys p (int (unat (mac ! 1))) vlan (getMacIntValueFromBytes mac)"
  using assms by (auto simp: getDelRuleSets_def index_def Let_def rule_key_def port_keys_def split: if_splits)

lemma port_keys_disjoint:
  assumes "vsi \<noteq> vsi'" "vlan \<noteq> vlan'" "mv \<noteq> mv'"
  shows "set (port_keys p vsi vlan mv) \<inter> set (port_keys p vsi' vlan' mv') = {}"
  using assms by (cases "bridgeType p = LinuxBridge") (simp_all add: port_keys_def)

text \<open>C13. Ports do not disturb each other: the deletion rules of a port whose VSI (second octet) and
  VLAN differ from another port's match none of the other port's entries.\<close>

theorem p4_rules_isolated:
  assumes size: "length mac = 6" "length mac' = 6"
    and vsi: "mac ! 1 \<noteq> mac' ! 1" and vlan: "vlan \<noteq> vlan'"
    and dels: "getDelRuleSets p mac vlan = Ok dels" and adds: "getAddRuleSets p mac' vlan' = Ok adds"
  shows "rule_key ` set dels \<inter> rule_key ` set adds = {}"
proof -
  have "be_value mac \<noteq> be_value mac'" using size vsi by (metis be_value_inject)
  moreover have "be_value mac < 2 ^ 64" "be_value mac' < 2 ^ 64"
    using be_value_less [of mac] be_value_less [of mac'] size by simp_all
  ultimately have mv: "getMacIntValueFromBytes mac \<noteq> getMacIntValueFromBytes mac'"
    using size by (simp add: getMacIntValue_eq word_of_nat_eq_iff take_bit_nat_eq_self)
  have vs: "int (unat (mac ! 1)) \<noteq> int (unat (mac' ! 1))"
    using vsi by (simp add: word_eq_iff_unsigned [where ?'a = int])
  obtain dels' where dels': "getDelRuleSets p mac' vlan' = Ok dels'"
    using getDelRuleSets_Ok [of mac' p vlan'] size by (auto simp: mac_usable_def)
  have "rule_key ` set adds = rule_key ` set dels'"
    using rule_keys_del_add [OF adds dels'] by (metis list.set_map set_remdups)
  with port_keys_disjoint [OF vs vlan mv, of p] show ?thesis
    using del_keys_eq [OF size(1) dels] del_keys_eq [OF size(2) dels'] by (metis list.set_map)
qed

lemma p4_rules_isolated_witness:
  "\<exists>dels adds. getDelRuleSets \<lparr>p4RtBin = ''p4rt-ctl'', portMuxVsi = 10, p4br = ''br0'', bridgeType = LinuxBridge\<rparr>
       [0, 8, 0, 0, 3, 20] 5 = Ok dels \<and>
     getAddRuleSets \<lparr>p4RtBin = ''p4rt-ctl'', portMuxVsi = 10, p4br = ''br0'', bridgeType = LinuxBridge\<rparr>
       [0, 9, 0, 0, 3, 20] 6 = Ok adds \<and> rule_key ` set dels \<inter> rule_key ` set adds = {}"
proof -
  let ?p = "\<lparr>p4RtBin = ''p4rt-ctl'', portMuxVsi = 10, p4br = ''br0'', bridgeType = LinuxBridge\<rparr>"
  let ?m = "[0, 8, 0, 0, 3, 20] :: byte list"
  let ?m' = "[0, 9, 0, 0, 3, 20] :: byte list"
  obtain dels adds where sets: "getDelRuleSets ?p ?m 5 = Ok dels" "getAddRuleSets ?p ?m' 6 = Ok adds"
    using getDelRuleSets_Ok [of ?m ?p 5] getAddRuleSets_Ok [of ?m' ?p 6] by (auto simp: mac_usable_def)
  have "length ?m = 6" "length ?m' = 6" "?m ! 1 \<noteq> ?m' ! 1" "(5::int) \<noteq> 6" by simp_all
  from p4_rules_isolated [OF this sets] sets show ?thesis by blast
qed

text \<open>The number that the L2 rules carry is the big-endian value of the address bytes, although the
  code goes through text: render with colons, drop the colons, parse base 16. It fits 48 bits for
  the addresses that pass the size check.\<close>

theorem p4_mac_value:
  assumes "length mac \<le> 6"
  shows "getMacIntValueFromBytes mac = of_nat (be_value mac) \<and>
         unat (getMacIntValueFromBytes mac) = be_value mac \<and> be_value mac < 2 ^ 48"
proof -
  have "be_value mac < 256 ^ length mac" by (rule be_value_less)
  also have "\<dots> \<le> 256 ^ 6" by (rule power_increasing) (use assms in simp_all)
  finally have "be_value mac < 2 ^ 48" by simp
  with assms show ?thesis
    by (simp add: getMacIntValue_eq unat_of_nat take_bit_nat_eq_self)
qed

lemma p4_mac_value_witness:
  "length [0, 8, 0, 0, 3, 20 :: byte] \<le> 6 \<and>
   unat (getMacIntValueFromBytes [0, 8, 0, 0, 3, 20]) = be_value [0, 8, 0, 0, 3, 20]"
proof -
  have h: "length [0, 8, 0, 0, 3, 20 :: byte] \<le> 6" by simp
  from h p4_mac_value [OF h] show ?thesis by blast
qed

end
