(* ===== verification/BridgePorts.thy ===== *)
theory BridgePorts
  imports BridgeControllers P4rtClient
begin

text \<open>
  \<open>ipu-plugin/pkg/ipuplugin/bridgeport.go\<close>: the bridge-port service of the plugin. The server's
  mutable part is its map \<open>Ports\<close> and the world its collaborators act on (netlink, the bridge, the
  P4 switch); the handlers are programs on that pair. The protobuf messages are records; a nil
  message pointer is \<open>None\<close>. \<open>proto.Clone\<close> copies a message, which is the identity on values.
\<close>

section \<open>Messages and state\<close>

datatype BPOperStatus = BP_OPER_STATUS_UNSPECIFIED | BP_OPER_STATUS_UP | BP_OPER_STATUS_DOWN

record BridgePortSpec =
  Ptype :: int
  MacAddress :: "byte list"
  LogicalBridges :: "string list"

record BridgePort =
  PortName :: string
  Spec :: "BridgePortSpec option"
  Status :: "BPOperStatus option"

record 'w server =
  servingAddr :: string
  servingPort :: int
  servingProto :: string
  bridgeName :: string
  uplinkInterface :: string
  p4cpInstall :: string
  bridgeCtlr :: "'w BridgeController"
  p4RtClient :: "'w P4RTClient"
  mode :: string
  daemonHostIp :: string
  daemonIpuIp :: string
  daemonPort :: int

record 'w srv_state =
  Ports :: "string \<rightharpoonup> BridgePort"
  env :: 'w

definition NewIpuPlugin :: "int \<Rightarrow> 'w BridgeController \<Rightarrow> 'w P4RTClient \<Rightarrow> string \<Rightarrow> string \<Rightarrow> string \<Rightarrow> string \<Rightarrow>
    string \<Rightarrow> string \<Rightarrow> string \<Rightarrow> string \<Rightarrow> int \<Rightarrow> 'w server \<times> (string \<rightharpoonup> BridgePort)" where
  "NewIpuPlugin port brCtlr p4Client addr proto bridge intf p4cp md hostIp ipuIp dport =
     (\<lparr>servingAddr = addr, servingPort = port, servingProto = proto, bridgeName = bridge,
       uplinkInterface = intf, p4cpInstall = p4cp, bridgeCtlr = brCtlr, p4RtClient = p4Client,
       mode = md, daemonHostIp = hostIp, daemonIpuIp = ipuIp, daemonPort = dport\<rparr>, Map.empty)"

abbreviation on_env :: "('w, 'a) prog \<Rightarrow> ('w srv_state, 'a) prog" where
  "on_env \<equiv> zoom env env_update"

definition nil_deref :: string where
  "nil_deref = ''invalid memory address or nil pointer dereference''"

section \<open>VLAN interfaces\<close>

text \<open>\<open>getFirstVlanID\<close> maps a parse error to 0; \<open>bridges[0]\<close> panics on an empty list.\<close>

definition getFirstVlanID :: "string list \<Rightarrow> int res" where
  "getFirstVlanID bridges = (case index bridges 0 of
     Ok b \<Rightarrow> (case Atoi b of Inl err \<Rightarrow> Ok 0 | Inr vlanId \<Rightarrow> Ok vlanId)
   | Err e \<Rightarrow> Err e | Panic m \<Rightarrow> Panic m | Exit m \<Rightarrow> Exit m)"

definition isBridgePortPresent :: "(string \<rightharpoonup> BridgePort) \<Rightarrow> string \<Rightarrow> bool" where
  "isBridgePortPresent ports brPortName \<longleftrightarrow> ports brPortName \<noteq> None"

definition createVlanInterface :: "'w netlink_fns \<Rightarrow> link \<Rightarrow> string \<Rightarrow> int \<Rightarrow> ('w, unit) prog" where
  "createVlanInterface nl upLink vlanIntfName vlanId =
     try_else (call (linkByNameFn nl vlanIntfName))
       (\<lambda>err. let vlan = new_Vlan\<lparr>ParentIndex := Index upLink, Name := vlanIntfName, VlanId := vlanId\<rparr> in
          check (call (linkAddFn nl vlan)) (\<lambda>err. Errorf ''error creating vlan interface %s: %s'' [S vlanIntfName, E err])
          (\<lambda>_. ret ()))
       (\<lambda>link. if dyn link \<noteq> DynVlan
          then fail (Errorf ''an interface %s is found but not a VLAN device'' [S vlanIntfName])
          else ret ())"

definition createAndSetUpVlan :: "'w netlink_fns \<Rightarrow> string \<Rightarrow> string \<Rightarrow> string list \<Rightarrow> ('w, string) prog" where
  "createAndSetUpVlan nl uplink vlanName bridges =
     check (call (linkByNameFn nl uplink))
       (\<lambda>err. Errorf ''unable to find uplink interface: %s, because: %w'' [S uplink, E err]) (\<lambda>upLink.
     andthen (of_res (index bridges 0)) (\<lambda>bridge0.
     check (of_res (of_sum (Atoi bridge0)))
       (\<lambda>err. Errorf ''unable to parse vlan ID: %s, because: %w'' [S bridge0, E err]) (\<lambda>vlanId.
     let vlanIntfName = vlanName @ ''_vlan'' @ Itoa vlanId in
     andthen (createVlanInterface nl upLink vlanIntfName vlanId) (\<lambda>_.
     ret vlanIntfName))))"

definition removeVlanInterface :: "'w netlink_fns \<Rightarrow> string \<Rightarrow> ('w, unit) prog" where
  "removeVlanInterface nl vlanIntfName =
     try_else (call (linkByNameFn nl vlanIntfName)) (\<lambda>err. ret ()) (\<lambda>link.
     check (call (linkDelFn nl link)) (\<lambda>err. Errorf ''error removing vlan interface %s: %s'' [S vlanIntfName, E err])
     (\<lambda>_. ret ()))"

section \<open>The handlers\<close>

definition CreateBridgePort :: "'w netlink_fns \<Rightarrow> 'w server \<Rightarrow> BridgePort option \<Rightarrow> ('w srv_state, BridgePort) prog" where
  "CreateBridgePort nl s inp = (case inp of None \<Rightarrow> panic nil_deref | Some bp \<Rightarrow>
    (case Spec bp of None \<Rightarrow> panic nil_deref | Some spec \<Rightarrow>
     (let macAddrSize = length (MacAddress spec) in
      if macAddrSize < 1 \<or> macAddrSize > 6 then fail (Errorf ''invalid mac address provided'' [])
      else andthen (of_res (index (MacAddress spec) 1)) (\<lambda>octet.
       let vfVsi = int (unat octet) in
       if length (LogicalBridges spec) < 1 then fail (Errorf ''vlan id is not provided'' [])
       else andthen (of_res (getFirstVlanID (LogicalBridges spec))) (\<lambda>vlan.
        if vlan < 2 \<or> vlan > 4094 then fail (Errorf ''invalid vlan %d, vlan must be within 2-4094 range'' [I vlan])
        else if vfVsi < 1 then fail (Errorf ''invalid VSI:%d in given mac address, the value in 2nd octed must be > 0'' [I vfVsi])
        else andthen (gets Ports) (\<lambda>ports.
         if isBridgePortPresent ports (PortName bp) then ret (the (ports (PortName bp)))
         else
           check (on_env (createAndSetUpVlan nl (uplinkInterface s) (PortName bp) (LogicalBridges spec)))
             (\<lambda>err. Errorf ''unable to create bridge port: %v'' [E err]) (\<lambda>vlanIntfName.
           check (on_env (AddPort (bridgeCtlr s) vlanIntfName))
             (\<lambda>err. Errorf ''failed to add port to bridge: %v'' [E err]) (\<lambda>_.
           andthen (on_env (AddRules (p4RtClient s) (MacAddress spec) vlan)) (\<lambda>_.
           let resp = bp\<lparr>Status := Some BP_OPER_STATUS_UP\<rparr> in
           andthen (modify (Ports_update (\<lambda>m. m(PortName bp \<mapsto> resp)))) (\<lambda>_.
           ret resp)))))))))) "

definition DeleteBridgePort :: "'w netlink_fns \<Rightarrow> 'w server \<Rightarrow> string \<Rightarrow> ('w srv_state, unit) prog" where
  "DeleteBridgePort nl s name = andthen (gets Ports) (\<lambda>ports.
     case ports name of None \<Rightarrow> ret () | Some portInfo \<Rightarrow>
     (case Spec portInfo of None \<Rightarrow> panic nil_deref | Some spec \<Rightarrow>
      andthen (of_res (getFirstVlanID (LogicalBridges spec))) (\<lambda>vlan.
      let vlanIntfName = name @ ''_vlan'' @ Itoa vlan in
      check (on_env (DeletePort (bridgeCtlr s) vlanIntfName))
        (\<lambda>err. Errorf ''failed to delete port from bridge: %v'' [E err]) (\<lambda>_.
      check (on_env (removeVlanInterface nl vlanIntfName))
        (\<lambda>err. Errorf ''failed to remove interface from host: %v'' [E err]) (\<lambda>_.
      andthen (on_env (DeleteRules (p4RtClient s) (MacAddress spec) vlan)) (\<lambda>_.
      modify (Ports_update (\<lambda>m. m(name := None)))))))))"

definition UpdateBridgePort :: "('w srv_state, BridgePort) prog" where
  "UpdateBridgePort = ret \<lparr>PortName = [], Spec = None, Status = None\<rparr>"

definition GetBridgePort :: "string \<Rightarrow> ('w srv_state, BridgePort) prog" where
  "GetBridgePort name = ret \<lparr>PortName = name,
     Spec = Some \<lparr>Ptype = 0, MacAddress = [], LogicalBridges = []\<rparr>, Status = None\<rparr>"

definition ListBridgePorts :: "('w srv_state, BridgePort list) prog" where
  "ListBridgePorts = ret []"

section \<open>Well-formed requests and ports\<close>

definition valid_request :: "BridgePort \<Rightarrow> BridgePortSpec \<Rightarrow> int \<Rightarrow> bool" where
  "valid_request bp spec vlan \<longleftrightarrow> Spec bp = Some spec \<and>
     2 \<le> length (MacAddress spec) \<and> length (MacAddress spec) \<le> 6 \<and> MacAddress spec ! 1 \<noteq> 0 \<and>
     LogicalBridges spec \<noteq> [] \<and> Atoi (hd (LogicalBridges spec)) = Inr vlan \<and> 2 \<le> vlan \<and> vlan \<le> 4094"

definition port_ok :: "string \<Rightarrow> BridgePort \<Rightarrow> bool" where
  "port_ok n p \<longleftrightarrow> PortName p = n \<and> Status p = Some BP_OPER_STATUS_UP \<and>
     (\<exists>spec vlan. valid_request p spec vlan)"

definition ports_wf :: "(string \<rightharpoonup> BridgePort) \<Rightarrow> bool" where
  "ports_wf ports \<longleftrightarrow> (\<forall>n p. ports n = Some p \<longrightarrow> port_ok n p)"

definition vlan_intf :: "string \<Rightarrow> int \<Rightarrow> string" where
  "vlan_intf name vlan = name @ ''_vlan'' @ Itoa vlan"

text \<open>The part of \<open>CreateBridgePort\<close> after its checks.\<close>

definition create_body :: "'w netlink_fns \<Rightarrow> 'w server \<Rightarrow> BridgePort \<Rightarrow> BridgePortSpec \<Rightarrow> int \<Rightarrow> ('w srv_state, BridgePort) prog" where
  "create_body nl s bp spec vlan =
     check (on_env (createAndSetUpVlan nl (uplinkInterface s) (PortName bp) (LogicalBridges spec)))
       (\<lambda>err. Errorf ''unable to create bridge port: %v'' [E err]) (\<lambda>vlanIntfName.
     check (on_env (AddPort (bridgeCtlr s) vlanIntfName))
       (\<lambda>err. Errorf ''failed to add port to bridge: %v'' [E err]) (\<lambda>_.
     andthen (on_env (AddRules (p4RtClient s) (MacAddress spec) vlan)) (\<lambda>_.
     let resp = bp\<lparr>Status := Some BP_OPER_STATUS_UP\<rparr> in
     andthen (modify (Ports_update (\<lambda>m. m(PortName bp \<mapsto> resp)))) (\<lambda>_.
     ret resp))))"

lemma index_0: "xs \<noteq> [] \<Longrightarrow> index xs 0 = Ok (hd xs)"
  by (simp add: index_def hd_conv_nth)

lemma index_1: "2 \<le> length xs \<Longrightarrow> index xs 1 = Ok (xs ! 1)"
  by (simp add: index_def)

lemma getFirstVlanID_valid: "bs \<noteq> [] \<Longrightarrow> Atoi (hd bs) = Inr v \<Longrightarrow> getFirstVlanID bs = Ok v"
  by (simp add: getFirstVlanID_def index_0)

lemma octet_pos: "(b :: byte) \<noteq> 0 \<Longrightarrow> \<not> int (unat b) < 1"
proof -
  assume "b \<noteq> 0"
  then have "unat b \<noteq> 0" by (simp add: unsigned_eq_0_iff)
  then have "1 \<le> int (unat b)" by linarith
  then show ?thesis by linarith
qed

lemma create_valid:
  assumes "valid_request bp spec vlan"
  shows "CreateBridgePort nl s (Some bp) st =
    (if isBridgePortPresent (Ports st) (PortName bp) then (Ok (the (Ports st (PortName bp))), st)
     else create_body nl s bp spec vlan st)"
proof -
  from assms have facts: "Spec bp = Some spec" "2 \<le> length (MacAddress spec)" "length (MacAddress spec) \<le> 6"
    "MacAddress spec ! 1 \<noteq> 0" "LogicalBridges spec \<noteq> []" "getFirstVlanID (LogicalBridges spec) = Ok vlan"
    "2 \<le> vlan" "vlan \<le> 4094"
    by (auto simp: valid_request_def getFirstVlanID_valid)
  then show ?thesis
    using index_1 [OF facts(2)] octet_pos [OF facts(4)]
    by (auto simp: CreateBridgePort_def create_body_def Let_def)
qed

text \<open>A request that fails a check has no effect at all.\<close>

lemma create_invalid:
  assumes "\<nexists>spec vlan. valid_request bp spec vlan"
  shows "\<exists>r. CreateBridgePort nl s (Some bp) st = (r, st) \<and> \<not> is_Ok r \<and> (\<forall>p. r \<noteq> Exit p) \<and>
    (abnormal r \<longleftrightarrow> Spec bp = None \<or> (\<exists>spec. Spec bp = Some spec \<and> length (MacAddress spec) = 1))"
proof (cases "Spec bp")
  case None
  then show ?thesis by (simp add: CreateBridgePort_def)
next
  case (Some spec)
  show ?thesis
  proof (cases "2 \<le> length (MacAddress spec) \<and> length (MacAddress spec) \<le> 6")
    case False
    then have "MacAddress spec = [] \<or> length (MacAddress spec) = 1 \<or> 6 < length (MacAddress spec)"
      by (cases "MacAddress spec" rule: remdups_adj.cases) auto
    with Some show ?thesis
      by (auto simp: CreateBridgePort_def Let_def index_def)
  next
    case True
    then have i: "index (MacAddress spec) 1 = Ok (MacAddress spec ! 1)" by (simp add: index_1)
    show ?thesis
    proof (cases "LogicalBridges spec = []")
      case True
      with Some i \<open>2 \<le> _ \<and> _\<close> show ?thesis by (auto simp: CreateBridgePort_def Let_def)
    next
      case False
      then obtain v where v: "getFirstVlanID (LogicalBridges spec) = Ok v"
        and z: "Atoi (hd (LogicalBridges spec)) = Inr v \<or> v = 0"
        by (cases "Atoi (hd (LogicalBridges spec))") (auto simp: getFirstVlanID_def index_0)
      have "v < 2 \<or> v > 4094 \<or> MacAddress spec ! 1 = 0"
        using assms Some True False z by (fastforce simp: valid_request_def)
      with Some i v True False show ?thesis
        by (auto simp: CreateBridgePort_def Let_def)
    qed
  qed
qed

section \<open>Effect of the handlers on the port map\<close>

lemma create_body_cases:
  assumes "create_body nl s bp spec vlan st = (r, st')"
  shows "(r = Ok (bp\<lparr>Status := Some BP_OPER_STATUS_UP\<rparr>) \<and>
          Ports st' = (Ports st)(PortName bp \<mapsto> bp\<lparr>Status := Some BP_OPER_STATUS_UP\<rparr>)) \<or>
         (\<not> is_Ok r \<and> Ports st' = Ports st)"
proof -
  have "wp (create_body nl s bp spec vlan) (\<lambda>r st'.
      (r = Ok (bp\<lparr>Status := Some BP_OPER_STATUS_UP\<rparr>) \<and>
       Ports st' = (Ports st)(PortName bp \<mapsto> bp\<lparr>Status := Some BP_OPER_STATUS_UP\<rparr>)) \<or>
      (\<not> is_Ok r \<and> Ports st' = Ports st)) st"
    unfolding create_body_def
    by (auto simp: wp_rules Let_def intro!: wpI split: res.split)
  then show ?thesis using assms by (rule wpD)
qed

lemma create_cases:
  assumes "CreateBridgePort nl s inp st = (r, st')"
  obtains (present) bp spec vlan p where "inp = Some bp" "valid_request bp spec vlan"
      "Ports st (PortName bp) = Some p" "r = Ok p" "st' = st"
    | (created) bp spec vlan where "inp = Some bp" "valid_request bp spec vlan"
      "Ports st (PortName bp) = None" "create_body nl s bp spec vlan st = (r, st')"
      "r = Ok (bp\<lparr>Status := Some BP_OPER_STATUS_UP\<rparr>)"
      "Ports st' = (Ports st)(PortName bp \<mapsto> bp\<lparr>Status := Some BP_OPER_STATUS_UP\<rparr>)"
    | (failed) "\<not> is_Ok r" "Ports st' = Ports st"
proof (cases inp)
  case None
  with assms failed show thesis by (auto simp: CreateBridgePort_def)
next
  case (Some bp)
  show thesis
  proof (cases "\<exists>spec vlan. valid_request bp spec vlan")
    case False
    with create_invalid [of bp nl s st] assms Some failed show thesis by fastforce
  next
    case True
    then obtain spec vlan where v: "valid_request bp spec vlan" by blast
    show thesis
    proof (cases "Ports st (PortName bp)")
      case (Some p)
      with present [OF \<open>inp = Some bp\<close> v] create_valid [OF v, of nl s st] assms \<open>inp = Some bp\<close>
      show thesis by (simp add: isBridgePortPresent_def)
    next
      case None
      with create_valid [OF v, of nl s st] assms \<open>inp = Some bp\<close>
      have body: "create_body nl s bp spec vlan st = (r, st')" by (simp add: isBridgePortPresent_def)
      with create_body_cases [OF body] created [OF \<open>inp = Some bp\<close> v None] failed show thesis by blast
    qed
  qed
qed

lemma delete_cases:
  assumes "DeleteBridgePort nl s name st = (r, st')"
  shows "(Ports st name = None \<and> r = Ok () \<and> st' = st) \<or>
         (Ports st name \<noteq> None \<and> r = Ok () \<and> Ports st' = (Ports st)(name := None)) \<or>
         (\<not> is_Ok r \<and> Ports st' = Ports st)"
proof -
  have "wp (DeleteBridgePort nl s name) (\<lambda>r st'.
      (Ports st name = None \<and> r = Ok () \<and> st' = st) \<or>
      (Ports st name \<noteq> None \<and> r = Ok () \<and> Ports st' = (Ports st)(name := None)) \<or>
      (\<not> is_Ok r \<and> Ports st' = Ports st)) st"
    unfolding DeleteBridgePort_def
    by (auto simp: wp_rules Let_def intro!: wpI split: res.split option.split)
  then show ?thesis using assms by (rule wpD)
qed

lemma ports_wf_upd: "ports_wf ports \<Longrightarrow> port_ok n p \<Longrightarrow> ports_wf (ports(n \<mapsto> p))"
  by (auto simp: ports_wf_def)

lemma ports_wf_del: "ports_wf ports \<Longrightarrow> ports_wf (ports(n := None))"
  by (auto simp: ports_wf_def)

lemma port_ok_created:
  "valid_request bp spec vlan \<Longrightarrow> port_ok (PortName bp) (bp\<lparr>Status := Some BP_OPER_STATUS_UP\<rparr>)"
  by (auto simp: port_ok_def valid_request_def)

lemma create_ports_wf:
  "CreateBridgePort nl s inp st = (r, st') \<Longrightarrow> ports_wf (Ports st) \<Longrightarrow> ports_wf (Ports st')"
  by (erule create_cases) (auto simp: ports_wf_upd port_ok_created)

lemma delete_ports_wf:
  "DeleteBridgePort nl s name st = (r, st') \<Longrightarrow> ports_wf (Ports st) \<Longrightarrow> ports_wf (Ports st')"
  by (drule delete_cases) (auto simp: ports_wf_del)

text \<open>The collaborator calls behind a successful run.\<close>

lemmas run_unfold = check_def andthen_def try_else_def zoom_def

lemma createAndSetUpVlan_name:
  assumes "createAndSetUpVlan nl up n bs w = (Ok i, w')" "bs \<noteq> []" "Atoi (hd bs) = Inr v"
  shows "i = vlan_intf n v"
proof -
  have "wp (createAndSetUpVlan nl up n bs) (\<lambda>r _. \<forall>i. r = Ok i \<longrightarrow> i = vlan_intf n v) w"
    using assms(2,3) unfolding createAndSetUpVlan_def
    by (auto simp: index_0 vlan_intf_def Let_def wp_rules intro!: wpI split: res.split sum.split prod.split)
  from wpD [OF this assms(1)] show ?thesis by simp
qed

lemma create_body_Ok:
  assumes "create_body nl s bp spec vlan st = (Ok p, st')"
  shows "\<exists>i w1 w2. createAndSetUpVlan nl (uplinkInterface s) (PortName bp) (LogicalBridges spec) (env st) = (Ok i, w1) \<and>
     AddPort (bridgeCtlr s) i w1 = (Ok (), w2) \<and>
     AddRules (p4RtClient s) (MacAddress spec) vlan w2 = (Ok (), env st')"
  using assms unfolding create_body_def run_unfold Let_def
  by (auto split: prod.splits res.splits)

lemma delete_Ok:
  assumes "DeleteBridgePort nl s n st = (Ok (), st')" "Ports st n = Some p" "valid_request p spec vlan"
  shows "\<exists>w1 w2. DeletePort (bridgeCtlr s) (vlan_intf n vlan) (env st) = (Ok (), w1) \<and>
     removeVlanInterface nl (vlan_intf n vlan) w1 = (Ok (), w2) \<and>
     DeleteRules (p4RtClient s) (MacAddress spec) vlan w2 = (Ok (), env st')"
  using assms getFirstVlanID_valid [of "LogicalBridges spec" vlan]
  by (auto simp: DeleteBridgePort_def valid_request_def run_unfold Let_def vlan_intf_def split: prod.splits res.splits)

section \<open>The service as a state machine\<close>

datatype request =
    CreateReq "BridgePort option"
  | DeleteReq string
  | UpdateReq
  | GetReq string
  | ListReq

datatype response =
    PortResp BridgePort
  | EmptyResp
  | ListResp "BridgePort list"

fun handle :: "'w netlink_fns \<Rightarrow> 'w server \<Rightarrow> request \<Rightarrow> ('w srv_state, response) prog" where
  "handle nl s (CreateReq bp) = andthen (CreateBridgePort nl s bp) (\<lambda>p. ret (PortResp p))"
| "handle nl s (DeleteReq n) = andthen (DeleteBridgePort nl s n) (\<lambda>_. ret EmptyResp)"
| "handle nl s UpdateReq = andthen UpdateBridgePort (\<lambda>p. ret (PortResp p))"
| "handle nl s (GetReq n) = andthen (GetBridgePort n) (\<lambda>p. ret (PortResp p))"
| "handle nl s ListReq = andthen ListBridgePorts (\<lambda>ps. ret (ListResp ps))"

text \<open>
  Between two requests the rest of the system may change the world in any way. A handler that
  panics takes the process down, so no state follows it.
\<close>

inductive reachable :: "'w netlink_fns \<Rightarrow> 'w server \<Rightarrow> 'w srv_state \<Rightarrow> bool"
  for nl :: "'w netlink_fns" and s :: "'w server" where
  start: "reachable nl s \<lparr>Ports = Map.empty, env = w\<rparr>"
| request: "reachable nl s st \<Longrightarrow> handle nl s req st = (r, st') \<Longrightarrow> \<not> abnormal r \<Longrightarrow> reachable nl s st'"
| world: "reachable nl s st \<Longrightarrow> reachable nl s (st\<lparr>env := w\<rparr>)"

lemma andthen_ret_state:
  "andthen m (\<lambda>x. ret (f x)) w = (r, w') \<Longrightarrow> \<exists>r0. m w = (r0, w')"
  by (auto simp: andthen_def try_else_def split: prod.splits res.splits)

lemma handle_ports_wf:
  "handle nl s req st = (r, st') \<Longrightarrow> ports_wf (Ports st) \<Longrightarrow> ports_wf (Ports st')"
  by (cases req)
     (auto simp: UpdateBridgePort_def GetBridgePort_def ListBridgePorts_def
       dest!: andthen_ret_state intro: create_ports_wf delete_ports_wf)

lemma reachable_ports_wf: "reachable nl s st \<Longrightarrow> ports_wf (Ports st)"
  by (induction rule: reachable.induct) (simp_all add: ports_wf_def [of Map.empty] handle_ports_wf)

section \<open>What the server gets from its collaborators\<close>

text \<open>
  The server is a client of both interfaces. From their contracts: the only panics of the service
  are those of its own checks, and every predicate of the world that netlink, the bridge and the P4
  runner leave alone survives every request.
\<close>

locale port_server =
  ctl: bridge_controller "bridgeCtlr s" bstable + cli: p4rt_client "p4RtClient s" pstable
  for s :: "'w server" and bstable pstable +
  fixes nl :: "'w netlink_fns"
begin

lemma createAndSetUpVlan_total:
  "bs \<noteq> [] \<Longrightarrow> total (createAndSetUpVlan nl up n bs)"
  unfolding createAndSetUpVlan_def createVlanInterface_def
  by (auto simp: index_0 Let_def intro!: total_intros)

lemma removeVlanInterface_total: "total (removeVlanInterface nl n)"
  by (auto simp: removeVlanInterface_def intro!: total_intros)

lemma rules_total:
  "mac_usable mac \<Longrightarrow> total (AddRules (p4RtClient s) mac vlan)"
  "mac_usable mac \<Longrightarrow> total (DeleteRules (p4RtClient s) mac vlan)"
  by (simp_all add: total_def cli.rules_add_ok cli.rules_del_ok)

lemma create_body_total: "valid_request bp spec vlan \<Longrightarrow> total (create_body nl s bp spec vlan)"
  unfolding create_body_def valid_request_def
  by (auto simp: Let_def mac_usable_def intro!: total_intros createAndSetUpVlan_total ctl.add_total rules_total)

lemma create_abnormal_iff:
  "abnormal (fst (CreateBridgePort nl s inp st)) \<longleftrightarrow>
     (case inp of None \<Rightarrow> True | Some bp \<Rightarrow>
       (case Spec bp of None \<Rightarrow> True | Some spec \<Rightarrow> length (MacAddress spec) = 1))"
proof (cases inp)
  case None
  then show ?thesis by (simp add: CreateBridgePort_def)
next
  case (Some bp)
  show ?thesis
  proof (cases "\<exists>spec vlan. valid_request bp spec vlan")
    case True
    then obtain spec vlan where v: "valid_request bp spec vlan" by blast
    then have "Spec bp = Some spec" "length (MacAddress spec) \<noteq> 1" by (auto simp: valid_request_def)
    moreover have "\<not> abnormal (fst (create_body nl s bp spec vlan st))"
      using create_body_total [OF v] by (simp add: total_def)
    ultimately show ?thesis using Some create_valid [OF v, of nl s st] by simp
  next
    case False
    from create_invalid [OF this, of nl s st] Some show ?thesis by (auto split: option.splits)
  qed
qed

lemma delete_not_abnormal:
  assumes "ports_wf (Ports st)"
  shows "\<not> abnormal (fst (DeleteBridgePort nl s name st))"
proof (cases "Ports st name")
  case None
  then show ?thesis by (simp add: DeleteBridgePort_def)
next
  case (Some p)
  with assms obtain spec vlan where v: "valid_request p spec vlan"
    unfolding ports_wf_def port_ok_def by blast
  then have facts: "Spec p = Some spec" "getFirstVlanID (LogicalBridges spec) = Ok vlan"
    "mac_usable (MacAddress spec)"
    by (auto simp: valid_request_def getFirstVlanID_valid mac_usable_def)
  have "total (check (on_env (DeletePort (bridgeCtlr s) i)) f (\<lambda>_.
      check (on_env (removeVlanInterface nl i)) g (\<lambda>_.
      andthen (on_env (DeleteRules (p4RtClient s) (MacAddress spec) vlan)) (\<lambda>_.
      modify (Ports_update (\<lambda>m. m(name := None)))))))" for i f g
    using facts(3) by (auto intro!: total_intros ctl.del_total removeVlanInterface_total rules_total)
  with Some facts show ?thesis
    by (simp add: DeleteBridgePort_def Let_def total_def)
qed

lemma handle_keeps_world:
  assumes "netlink_stable nl P" "bstable P" "pstable P"
  shows "keeps (\<lambda>st. P (env st)) (handle nl s req)"
proof -
  have zoom_keeps: "keeps (\<lambda>st. P (env st)) (on_env m)" if "keeps P m" for m :: "('w, 'b) prog"
    using that by (auto simp: keeps_def zoom_def split: prod.split)
  have nl: "keeps P (createAndSetUpVlan nl u n bs)" "keeps P (removeVlanInterface nl n)" for u n bs
    using assms(1) by (auto simp: createAndSetUpVlan_def createVlanInterface_def removeVlanInterface_def
        netlink_stable_def Let_def intro!: keeps_intros)
  have "keeps (\<lambda>st. P (env st)) (CreateBridgePort nl s inp)" for inp
    unfolding CreateBridgePort_def
    by (auto simp: Let_def split: option.split
        intro!: keeps_intros zoom_keeps nl ctl.add_keeps cli.rules_add_keeps assms)
  moreover have "keeps (\<lambda>st. P (env st)) (DeleteBridgePort nl s n)" for n
    unfolding DeleteBridgePort_def
    by (auto simp: Let_def split: option.split
        intro!: keeps_intros zoom_keeps nl ctl.del_keeps cli.rules_del_keeps assms)
  ultimately show ?thesis
    by (cases req) (auto simp: UpdateBridgePort_def GetBridgePort_def ListBridgePorts_def intro!: keeps_intros)
qed

end

end
