(* ===== verification/IpuPlugin.thy ===== *)
theory IpuPlugin
  imports BridgePorts
begin

text \<open>
  \<open>ipu-plugin/ipuplugin/cmd/rootcmd.go\<close>: how the root command builds the plugin's server from its
  configuration, and what the bridge-port service of that server guarantees. \<open>viper\<close> (flags,
  environment and configuration file) is outside the repository: its \<open>GetString\<close> and \<open>GetInt\<close> are
  arguments.
\<close>

section \<open>Configuration\<close>

datatype flag_value = FlagString string | FlagInt int

text \<open>The flags \<open>init\<close> declares with their defaults, in the order of the source, and the ones it binds.\<close>

definition persistentFlags :: "(string \<times> flag_value) list" where
  "persistentFlags =
    [(''config'', FlagString []),
     (''logDir'', FlagString ''/var/log/ipuplugin''),
     (''port'', FlagInt 50152),
     (''servingAddr'', FlagString ''/var/run/vendor-plugin.sock''),
     (''servingProto'', FlagString ''unix''),
     (''interface'', FlagString []),
     (''bridge'', FlagString ''br-tenant''),
     (''ovsCliDir'', FlagString ''/opt/p4/p4-cp-nws/bin''),
     (''bridgeType'', FlagString ''linux''),
     (''p4rtbin'', FlagString ''/opt/p4/p4-cp-nws/bin/p4rt-ctl''),
     (''portMuxVsi'', FlagInt 10),
     (''verbosity'', FlagString ''info''),
     (''mode'', FlagString []),
     (''daemonHostIp'', FlagString ''192.168.1.1''),
     (''daemonIpuIp'', FlagString ''192.168.1.2''),
     (''daemonPort'', FlagInt 50151)]"

definition flagList :: "string list" where
  "flagList = [''logDir'', ''port'', ''servingAddr'', ''servingProto'', ''interface'', ''bridge'',
     ''ovsCliDir'', ''bridgeType'', ''p4rtbin'', ''portMuxVsi'', ''verbosity'', ''mode'',
     ''daemonHostIp'', ''daemonIpuIp'', ''daemonPort'']"

definition defaultP4BridgeName :: string where "defaultP4BridgeName = ''br0''"

definition validateConfigs :: "string \<Rightarrow> unit res" where
  "validateConfigs md = (if md \<noteq> ''host'' \<and> md \<noteq> ''ipu''
     then Err (Errorf ''invalid mode specified: %s'' [S md]) else Ok ())"

text \<open>The body of \<open>rootCmd.Run\<close> up to \<open>mgr.Run()\<close>.\<close>

definition rootCmd_plugin :: "'w netlink_fns \<Rightarrow> 'w runner \<Rightarrow> 'w ctl_runner \<Rightarrow> string list \<Rightarrow>
    (string \<Rightarrow> string) \<Rightarrow> (string \<Rightarrow> int) \<Rightarrow> 'w server \<times> (string \<rightharpoonup> BridgePort)" where
  "rootCmd_plugin nl exec ctl environ GetString GetInt =
    (let servingAddr = GetString ''servingAddr'';
         servingProto = GetString ''servingProto'';
         port = GetInt ''port'';
         bridge = GetString ''bridge'';
         intf = GetString ''interface'';
         ovsCliDir = GetString ''ovsCliDir'';
         bridgeType = GetString ''bridgeType'';
         p4rtbin = GetString ''p4rtbin'';
         portMuxVsi = GetInt ''portMuxVsi'';
         mode = GetString ''mode'';
         daemonHostIp = GetString ''daemonHostIp'';
         daemonIpuIp = GetString ''daemonIpuIp'';
         daemonPort = GetInt ''daemonPort'' in
     case getBridgeController nl exec bridge bridgeType ovsCliDir of (brCtlr, brType) \<Rightarrow>
       (let p4Client = NewP4RtClient ctl environ p4rtbin portMuxVsi defaultP4BridgeName brType in
        NewIpuPlugin port brCtlr p4Client servingAddr servingProto bridge intf ovsCliDir
          mode daemonHostIp daemonIpuIp daemonPort))"

section \<open>The plugin's server keeps the contracts\<close>

lemma rootCmd_plugin_fields:
  "bridgeCtlr (fst (rootCmd_plugin nl ex ctl environ gs gi)) =
     fst (getBridgeController nl ex (gs ''bridge'') (gs ''bridgeType'') (gs ''ovsCliDir''))"
  "p4RtClient (fst (rootCmd_plugin nl ex ctl environ gs gi)) =
     NewP4RtClient ctl environ (gs ''p4rtbin'') (gi ''portMuxVsi'') ''br0''
       (snd (getBridgeController nl ex (gs ''bridge'') (gs ''bridgeType'') (gs ''ovsCliDir'')))"
  "snd (rootCmd_plugin nl ex ctl environ gs gi) = Map.empty"
  by (simp_all add: rootCmd_plugin_def NewIpuPlugin_def Let_def defaultP4BridgeName_def split: prod.split)

interpretation plugin: port_server "fst (rootCmd_plugin nl ex ctl environ gs gi)"
    "bridge_stable nl ex" "p4_stable ctl" nl
  for nl :: "'w netlink_fns" and ex ctl environ gs gi
proof -
  show "port_server (fst (rootCmd_plugin nl ex ctl environ gs gi)) (bridge_stable nl ex) (p4_stable ctl)"
    unfolding port_server_def rootCmd_plugin_fields
    using chosen_ctl.bridge_controller_axioms p4cli.p4rt_client_axioms by blast
qed

section \<open>Properties of the bridge-port service\<close>

text \<open>C1. What \<open>CreateBridgePort\<close> does, on every branch and for any collaborators. A request that is
  not valid (address of 2 to 6 bytes with a non-zero second octet, a first logical bridge that is a
  number from 2 to 4094) fails without touching the map or the world; a valid request for a known
  name returns the stored port and touches nothing; otherwise the map changes only when the result
  is a port, and then only at that name, to the request with its status set to UP.\<close>

theorem create_bridge_port_contract:
  assumes run: "CreateBridgePort nl s (Some bp) st = (r, st')"
  shows "(if \<nexists>spec vlan. valid_request bp spec vlan then \<not> is_Ok r \<and> st' = st
          else case Ports st (PortName bp) of
            Some p \<Rightarrow> r = Ok p \<and> st' = st
          | None \<Rightarrow> (\<not> is_Ok r \<and> Ports st' = Ports st) \<or>
              (r = Ok (bp\<lparr>Status := Some BP_OPER_STATUS_UP\<rparr>) \<and>
               Ports st' = (Ports st)(PortName bp \<mapsto> bp\<lparr>Status := Some BP_OPER_STATUS_UP\<rparr>)))"
proof (cases "\<exists>spec vlan. valid_request bp spec vlan")
  case False
  with create_invalid [OF False, of nl s st] run show ?thesis by auto
next
  case True
  then obtain spec vlan where v: "valid_request bp spec vlan" by blast
  show ?thesis
    using True run create_valid [OF v, of nl s st] create_body_cases [of nl s bp spec vlan st r st']
    by (auto simp: isBridgePortPresent_def split: option.splits)
qed

text \<open>In every state the service can reach, each entry of the port map is stored under its own
  name, has status UP, and satisfies every check of \<open>CreateBridgePort\<close>: two to six address bytes,
  a non-zero VSI octet, and a first logical bridge that parses to a VLAN from 2 to 4094.\<close>

theorem reachable_ports_valid:
  assumes "reachable nl s st" "Ports st n = Some p"
  shows "PortName p = n \<and> Status p = Some BP_OPER_STATUS_UP \<and>
    (\<exists>spec vlan. Spec p = Some spec \<and> 2 \<le> length (MacAddress spec) \<and> length (MacAddress spec) \<le> 6 \<and>
       MacAddress spec ! 1 \<noteq> 0 \<and> getFirstVlanID (LogicalBridges spec) = Ok vlan \<and> 2 \<le> vlan \<and> vlan \<le> 4094)"
proof -
  from reachable_ports_wf [OF assms(1)] assms(2) have "port_ok n p" by (simp add: ports_wf_def)
  then show ?thesis by (auto simp: port_ok_def valid_request_def getFirstVlanID_valid)
qed

text \<open>C11. Whatever the plugin's configuration and whatever netlink, the bridge and the P4 runner answer,
  \<open>CreateBridgePort\<close> brings the process down exactly when the message has no bridge port, the bridge
  port has no spec, or the address has one byte: the size check lets one byte through and the code
  then reads the second.\<close>

theorem plugin_create_panics_iff:
  "abnormal (fst (CreateBridgePort nl (fst (rootCmd_plugin nl ex ctl environ gs gi)) inp st)) \<longleftrightarrow>
     (case inp of None \<Rightarrow> True | Some bp \<Rightarrow>
       (case Spec bp of None \<Rightarrow> True | Some spec \<Rightarrow> length (MacAddress spec) = 1))"
  by (rule plugin.create_abnormal_iff)

text \<open>\<open>DeleteBridgePort\<close> never panics in a reachable state of the plugin, for any name.\<close>

theorem plugin_delete_never_panics:
  assumes "reachable nl (fst (rootCmd_plugin nl ex ctl environ gs gi)) st"
  shows "\<not> abnormal (fst (DeleteBridgePort nl (fst (rootCmd_plugin nl ex ctl environ gs gi)) name st))"
  by (rule plugin.delete_not_abnormal [OF reachable_ports_wf [OF assms]])

text \<open>C2. \<open>DeleteBridgePort\<close> undoes \<open>CreateBridgePort\<close>: if a new port was created, and later, with the
  map unchanged but the world changed in any way, it is deleted, the map is back where it was, and
  the calls to the collaborators mirror each other: the interface taken off the bridge and removed
  is the one that was created and added, and the rules deleted carry the address and the VLAN of
  the rules installed, however the VLAN was spelled in the request (\<open>"05"\<close>, \<open>"+5"\<close>).\<close>

theorem create_delete_undo:
  assumes absent: "Ports st (PortName bp) = None"
    and create: "CreateBridgePort nl s (Some bp) st = (Ok p, st1)"
    and delete: "DeleteBridgePort nl s (PortName bp) (st1\<lparr>env := w\<rparr>) = (Ok (), st2)"
  shows "Ports st2 = Ports st \<and>
    (\<exists>spec vlan intf w1 w2 w3 w4. Spec bp = Some spec \<and> intf = vlan_intf (PortName bp) vlan \<and>
       createAndSetUpVlan nl (uplinkInterface s) (PortName bp) (LogicalBridges spec) (env st) = (Ok intf, w1) \<and>
       AddPort (bridgeCtlr s) intf w1 = (Ok (), w2) \<and>
       AddRules (p4RtClient s) (MacAddress spec) vlan w2 = (Ok (), env st1) \<and>
       DeletePort (bridgeCtlr s) intf w = (Ok (), w3) \<and>
       removeVlanInterface nl intf w3 = (Ok (), w4) \<and>
       DeleteRules (p4RtClient s) (MacAddress spec) vlan w4 = (Ok (), env st2))"
  using create
proof (cases rule: create_cases)
  case (created bp' spec vlan)
  let ?p = "bp\<lparr>Status := Some BP_OPER_STATUS_UP\<rparr>"
  from created have bp: "valid_request bp spec vlan" "Spec bp = Some spec"
    and ports: "Ports st1 = (Ports st)(PortName bp \<mapsto> ?p)"
    and body: "create_body nl s bp spec vlan st = (Ok p, st1)"
    by (auto simp: valid_request_def)
  then have p: "valid_request ?p spec vlan" by (simp add: valid_request_def)
  have "Ports (st1\<lparr>env := w\<rparr>) (PortName bp) = Some ?p" by (simp add: ports)
  from delete_Ok [OF delete this p] obtain w3 w4 where
    del: "DeletePort (bridgeCtlr s) (vlan_intf (PortName bp) vlan) w = (Ok (), w3)"
      "removeVlanInterface nl (vlan_intf (PortName bp) vlan) w3 = (Ok (), w4)"
      "DeleteRules (p4RtClient s) (MacAddress spec) vlan w4 = (Ok (), env st2)" by auto
  from create_body_Ok [OF body] obtain i w1 w2 where
    add: "createAndSetUpVlan nl (uplinkInterface s) (PortName bp) (LogicalBridges spec) (env st) = (Ok i, w1)"
      "AddPort (bridgeCtlr s) i w1 = (Ok (), w2)"
      "AddRules (p4RtClient s) (MacAddress spec) vlan w2 = (Ok (), env st1)" by blast
  have "i = vlan_intf (PortName bp) vlan"
    using createAndSetUpVlan_name [OF add(1)] bp(1) by (simp add: valid_request_def)
  moreover have "Ports st2 = Ports st"
    using delete_cases [OF delete] ports absent by (auto simp: fun_upd_idem)
  ultimately show ?thesis using bp(2) add del by blast
qed (use absent in auto)

end
