(* ===== verification/Lifecycle.thy ===== *)
theory Lifecycle
  imports BridgePorts GoOS
begin

text \<open>
  \<open>ipu-plugin/pkg/ipuplugin/lifecycleservice.go\<close>: the \<open>Init\<close> call of the plugin, which finds the
  physical function that carries the channel between the host and the IPU and gives it its
  address. The two handler interfaces are records of calls; netlink stays a parameter, the file
  handler reads \<open>/sys\<close> in the file tree of \<open>GoOS\<close>.
\<close>

section \<open>Service, handlers and constants\<close>

record LifeCycleServiceServer =
  lc_daemonHostIp :: string
  lc_daemonIpuIp :: string
  lc_daemonPort :: int
  lc_mode :: string

definition hostVportId :: string where "hostVportId = ''03''"
definition accVportId :: string where "accVportId = ''02''"
definition deviceId :: string where "deviceId = ''0x1452''"
definition vendorId :: string where "vendorId = ''0x8086''"

definition NewLifeCycleService :: "string \<Rightarrow> string \<Rightarrow> int \<Rightarrow> string \<Rightarrow> LifeCycleServiceServer" where
  "NewLifeCycleService hostIp ipuIp port md =
     \<lparr>lc_daemonHostIp = hostIp, lc_daemonIpuIp = ipuIp, lc_daemonPort = port, lc_mode = md\<rparr>"

text \<open>\<open>netlink.Addr\<close> with its \<open>net.IPNet\<close>, and \<open>net.CIDRMask\<close>.\<close>

record nl_addr =
  IP :: "byte list"
  Mask :: "byte list"

definition CIDRMask :: "nat \<Rightarrow> nat \<Rightarrow> byte list" where
  "CIDRMask ones bits = map (\<lambda>i. of_nat (256 - 256 div 2 ^ min 8 (ones - 8 * i))) [0..<bits div 8]"

definition FAMILY_V4 :: int where "FAMILY_V4 = 2"

record 'w NetworkHandler =
  AddrAdd :: "link \<Rightarrow> nl_addr \<Rightarrow> ('w, unit) ext"
  AddrList :: "link \<Rightarrow> int \<Rightarrow> ('w, nl_addr list) ext"
  LinkList :: "('w, link list) ext"

record 'w FileSystemHandler =
  GetDevice :: "string \<Rightarrow> ('w, string) ext"
  GetVendor :: "string \<Rightarrow> ('w, string) ext"

definition FileSystemHandlerImpl :: "'z os_scheme FileSystemHandler" where
  "FileSystemHandlerImpl =
     \<lparr>GetDevice = \<lambda>iface. os_ReadFile (''/sys/class/net/'' @ iface @ ''/device/device''),
      GetVendor = \<lambda>iface. os_ReadFile (''/sys/class/net/'' @ iface @ ''/device/vendor'')\<rparr>"

text \<open>The two package variables; \<open>initHandlers\<close> fills the ones no test has set. The implementation
  of \<open>NetworkHandler\<close> forwards to netlink.\<close>

record 'w handlers =
  fileSystemHandler :: "'w FileSystemHandler option"
  networkHandler :: "'w NetworkHandler option"

definition initHandlers :: "'z os_scheme NetworkHandler \<Rightarrow> 'z os_scheme handlers \<Rightarrow>
    'z os_scheme FileSystemHandler \<times> 'z os_scheme NetworkHandler" where
  "initHandlers netlink h =
     ((case fileSystemHandler h of None \<Rightarrow> FileSystemHandlerImpl | Some fs \<Rightarrow> fs),
      (case networkHandler h of None \<Rightarrow> netlink | Some net \<Rightarrow> net))"

section \<open>Finding the physical function\<close>

definition isPF :: "'w FileSystemHandler \<Rightarrow> string \<Rightarrow> ('w, bool) prog" where
  "isPF fs iface =
     check (call (GetDevice fs iface))
       (\<lambda>err. Errorf ''cannot identify device with code: %s; error %v '' [S deviceId, E err]) (\<lambda>device.
     check (call (GetVendor fs iface))
       (\<lambda>err. Errorf ''cannot identify vendor device with code: %s; error %v '' [S vendorId, E err]) (\<lambda>vendor.
     ret (TrimSpace device = deviceId \<and> TrimSpace vendor = vendorId)))"

text \<open>\<open>list, _ := AddrList(\<dots>)\<close>: on an error the list is empty.\<close>

definition AddrList_or_nil :: "'w NetworkHandler \<Rightarrow> link \<Rightarrow> ('w, nl_addr list) prog" where
  "AddrList_or_nil net l = try_else (call (AddrList net l FAMILY_V4)) (\<lambda>_. ret []) ret"

fun getCommPf_loop :: "'w NetworkHandler \<Rightarrow> string \<Rightarrow> link list \<Rightarrow> ('w, link option) prog" where
  "getCommPf_loop net md [] = ret None"
| "getCommPf_loop net md (l # ls) =
    (let octets = strings_Split (CHR '':'') (MacString (HardwareAddr l)) in
     andthen (of_res (index octets 3)) (\<lambda>octet.
     if md = ''ipu'' then
       (if octet = accVportId then
          andthen (AddrList_or_nil net l) (\<lambda>list.
          if length list = 0 then ret (Some l) else getCommPf_loop net md ls)
        else getCommPf_loop net md ls)
     else if octet = hostVportId then ret (Some l)
     else getCommPf_loop net md ls))"

definition getCommPf :: "'w NetworkHandler \<Rightarrow> string \<Rightarrow> link list \<Rightarrow> ('w, link) prog" where
  "getCommPf net md linkList = andthen (getCommPf_loop net md linkList) (\<lambda>pf. case pf of
       None \<Rightarrow> fail (Errorf ''unable to identify any PFs. Check that the idpf driver is available'' [])
     | Some l \<Rightarrow> ret l)"

fun filter_PFs :: "'w FileSystemHandler \<Rightarrow> link list \<Rightarrow> ('w, link list) prog" where
  "filter_PFs fs [] = ret []"
| "filter_PFs fs (l # ls) =
    check (isPF fs (Name l)) (\<lambda>err. Errorf ''unable to check if PF: %v'' [E err]) (\<lambda>result.
    andthen (filter_PFs fs ls) (\<lambda>pfs. ret (if result then l # pfs else pfs)))"

definition getFilteredPFs :: "'w FileSystemHandler \<Rightarrow> 'w NetworkHandler \<Rightarrow> link list \<Rightarrow> ('w, link list) prog" where
  "getFilteredPFs fs net pfList =
     check (call (LinkList net)) (\<lambda>err. Errorf ''unable to retrieve link list: %v'' [E err]) (\<lambda>linkList.
     if length linkList = 0 then fail (Errorf ''unable to retrieve link list: %v'' [NilErr])
     else andthen (filter_PFs fs linkList) (\<lambda>pfs. ret (pfList @ pfs)))"

section \<open>Setting the address\<close>

definition setIP :: "'w NetworkHandler \<Rightarrow> link \<Rightarrow> string \<Rightarrow> ('w, unit) prog" where
  "setIP net link ip =
     check (call (AddrList net link FAMILY_V4))
       (\<lambda>err. Errorf ''unable to get the ip address of link: %v'' [E err]) (\<lambda>list.
     if length list = 0 then
       (case ParseIP ip of
          None \<Rightarrow> fail (Errorf ''not a valid IPv4 address: %v'' [NilErr])
        | Some ipAddr \<Rightarrow>
          if To4 ipAddr = None then fail (Errorf ''not a valid IPv4 address: %v'' [NilErr])
          else check (call (AddrAdd net link \<lparr>IP = ipAddr, Mask = CIDRMask 24 32\<rparr>))
                 (\<lambda>err. Errorf ''unable to add address: %v'' [E err]) (\<lambda>_. ret ()))
     else fail (Errorf ''address already set. Unset ip address for interface %s and run again'' [S (Name link)]))"

text \<open>\<open>status.Error(codes.Internal, err.Error())\<close>\<close>

definition status_Internal :: "error \<Rightarrow> error" where
  "status_Internal err = Errorf ''rpc error: code = Internal desc = %s'' [E err]"

definition configureChannel :: "'z os_scheme NetworkHandler \<Rightarrow> 'z os_scheme handlers \<Rightarrow> string \<Rightarrow> string \<Rightarrow> string \<Rightarrow>
    ('z os_scheme, unit) prog" where
  "configureChannel netlink h md hostIp ipuIp =
     (case initHandlers netlink h of (fs, net) \<Rightarrow>
      check (getFilteredPFs fs net []) status_Internal (\<lambda>pfList.
      check (getCommPf net md pfList) status_Internal (\<lambda>pf.
      let ip = (if md = ''ipu'' then hostIp else ipuIp) in
      check (setIP net pf ip) status_Internal (\<lambda>_. ret ()))))"

record IpPort =
  Ip :: string
  Port :: "32 word"

definition LifeCycle_Init :: "'z os_scheme NetworkHandler \<Rightarrow> 'z os_scheme handlers \<Rightarrow> LifeCycleServiceServer \<Rightarrow> bool \<Rightarrow>
    ('z os_scheme, IpPort) prog" where
  "LifeCycle_Init netlink h s DpuMode =
     (if (DpuMode \<and> lc_mode s \<noteq> ''ipu'') \<or> (\<not> DpuMode \<and> lc_mode s \<noteq> ''host'')
      then fail (status_Internal (Errorf ''Ipu plugin running in %s mode'' [S (lc_mode s)]))
      else check (configureChannel netlink h (lc_mode s) (lc_daemonHostIp s) (lc_daemonIpuIp s)) status_Internal (\<lambda>_.
        ret \<lparr>Ip = lc_daemonIpuIp s, Port = of_int (lc_daemonPort s)\<rparr>))"

section \<open>What the readers see\<close>

text \<open>A file handler that only reads. Inside the locale a device's files are a function of the
  world, and so is the list of physical functions.\<close>

definition readable :: "'w FileSystemHandler \<Rightarrow> 'w \<Rightarrow> link \<Rightarrow> bool" where
  "readable fs w l \<longleftrightarrow> \<not> isl (fst (GetDevice fs (Name l) w)) \<and> \<not> isl (fst (GetVendor fs (Name l) w))"

definition is_pf :: "'w FileSystemHandler \<Rightarrow> 'w \<Rightarrow> link \<Rightarrow> bool" where
  "is_pf fs w l \<longleftrightarrow> TrimSpace (projr (fst (GetDevice fs (Name l) w))) = deviceId \<and>
     TrimSpace (projr (fst (GetVendor fs (Name l) w))) = vendorId"

locale fs_view =
  fixes fs :: "'w FileSystemHandler"
  assumes device_reads: "snd (GetDevice fs i w) = w"
    and vendor_reads: "snd (GetVendor fs i w) = w"
begin

lemma isPF_run:
  "isPF fs (Name l) w = (if readable fs w l then (Ok (is_pf fs w l), w) else (fst (isPF fs (Name l) w), w))"
  "\<not> readable fs w l \<Longrightarrow> \<exists>e. fst (isPF fs (Name l) w) = Err e"
  using device_reads [of "Name l" w] vendor_reads [of "Name l" w]
  by (cases "GetDevice fs (Name l) w"; cases "fst (GetDevice fs (Name l) w)";
      cases "GetVendor fs (Name l) w"; cases "fst (GetVendor fs (Name l) w)";
      auto simp: isPF_def readable_def is_pf_def check_def try_else_def call_def ret_def fail_def)+

lemma filter_PFs_run:
  "(\<forall>l \<in> set ls. readable fs w l) \<Longrightarrow> filter_PFs fs ls w = (Ok (filter (is_pf fs w) ls), w)"
  "\<not> (\<forall>l \<in> set ls. readable fs w l) \<Longrightarrow> \<exists>e. filter_PFs fs ls w = (Err e, w)"
proof (induction ls)
  case (Cons l ls)
  note run = isPF_run [where l = l and w = w]
  { case 1 with Cons.IH(1) run show ?case by (simp add: check_def try_else_def andthen_def ret_def) }
  { case 2
    show ?case
    proof (cases "readable fs w l")
      case True
      with 2 Cons.IH(2) obtain e where "filter_PFs fs ls w = (Err e, w)" by auto
      with True run(1) show ?thesis by (simp add: check_def try_else_def andthen_def fail_def)
    next
      case False
      with run(2) obtain e where "fst (isPF fs (Name l) w) = Err e" by blast
      with False run(1) show ?thesis by (simp add: check_def try_else_def fail_def)
    qed }
qed (simp_all add: ret_def)

end

interpretation sysfs: fs_view "FileSystemHandlerImpl :: 'z os_scheme FileSystemHandler"
  by unfold_locales (simp_all add: FileSystemHandlerImpl_def)

text \<open>The fourth byte of an address is the fourth octet of its rendering.\<close>

lemma octet_index:
  "index (strings_Split (CHR '':'') (MacString hw)) 3 =
     (if 4 \<le> length hw then Ok (hex2 (hw ! 3)) else Panic ''index out of range'')"
proof (cases "hw = []")
  case False
  then show ?thesis by (auto simp: Split_MacString index_def)
qed (simp add: MacString_def index_def)

lemma vport_octets: "hex2 b = hostVportId \<longleftrightarrow> b = 3" "hex2 b = accVportId \<longleftrightarrow> b = 2"
proof -
  have "hex2 3 = hostVportId" "hex2 2 = accVportId"
    by (simp_all add: hex2_def hostVportId_def accVportId_def digit_char_def char_of_eq_iff)
  then show "hex2 b = hostVportId \<longleftrightarrow> b = 3" "hex2 b = accVportId \<longleftrightarrow> b = 2"
    using hex2_inject [of b] by metis+
qed

text \<open>netlink's queries do not change anything.\<close>

definition net_reads :: "'w NetworkHandler \<Rightarrow> bool" where
  "net_reads net \<longleftrightarrow> (\<forall>w. snd (LinkList net w) = w) \<and> (\<forall>l f w. snd (AddrList net l f w) = w)"

definition v4_addrs :: "'w NetworkHandler \<Rightarrow> 'w \<Rightarrow> link \<Rightarrow> nl_addr list" where
  "v4_addrs net w l = (case fst (AddrList net l FAMILY_V4 w) of Inl _ \<Rightarrow> [] | Inr as \<Rightarrow> as)"

definition comm_candidate :: "'w NetworkHandler \<Rightarrow> string \<Rightarrow> 'w \<Rightarrow> link \<Rightarrow> bool" where
  "comm_candidate net md w l \<longleftrightarrow> (if md = ''ipu'' then HardwareAddr l ! 3 = 2 \<and> v4_addrs net w l = []
     else HardwareAddr l ! 3 = 3)"

lemma net_readsD: "net_reads net \<Longrightarrow> snd (LinkList net w) = w" "net_reads net \<Longrightarrow> snd (AddrList net l f w) = w"
  by (simp_all add: net_reads_def)

lemma AddrList_or_nil_run: "net_reads net \<Longrightarrow> AddrList_or_nil net l w = (Ok (v4_addrs net w l), w)"
  using net_readsD(2) [of net l FAMILY_V4 w]
  by (cases "AddrList net l FAMILY_V4 w"; cases "fst (AddrList net l FAMILY_V4 w)")
     (auto simp: AddrList_or_nil_def v4_addrs_def try_else_def call_def ret_def)

text \<open>The loop stops at the first candidate, or panics at the first short address before it.\<close>

lemma getCommPf_loop_run:
  assumes "net_reads net"
  shows "getCommPf_loop net md ls w =
    (case find (\<lambda>l. length (HardwareAddr l) < 4 \<or> comm_candidate net md w l) ls of
       None \<Rightarrow> (Ok None, w)
     | Some l \<Rightarrow> if length (HardwareAddr l) < 4 then (Panic ''index out of range'', w) else (Ok (Some l), w))"
proof (induction ls)
  case Nil
  show ?case by (simp add: ret_def)
next
  case (Cons l ls)
  then show ?case
    using AddrList_or_nil_run [OF assms, of l w]
    by (cases "md = ''ipu''")
       (auto simp: octet_index vport_octets comm_candidate_def Let_def andthen_def try_else_def
         ret_def panic_def not_le)
qed

section \<open>What \<open>Init\<close> does\<close>

text \<open>The search of \<open>getCommPf\<close> and the run of \<open>setIP\<close> when the queries do not change anything.\<close>

definition comm_search :: "'w NetworkHandler \<Rightarrow> string \<Rightarrow> 'w \<Rightarrow> link list \<Rightarrow> link option" where
  "comm_search net md w ls = find (\<lambda>l. length (HardwareAddr l) < 4 \<or> comm_candidate net md w l) ls"

definition channel_ip :: "LifeCycleServiceServer \<Rightarrow> string" where
  "channel_ip s = (if lc_mode s = ''ipu'' then lc_daemonHostIp s else lc_daemonIpuIp s)"

definition default_handlers :: "'z os_scheme handlers" where
  "default_handlers = \<lparr>fileSystemHandler = None, networkHandler = None\<rparr>"

lemma getCommPf_run:
  assumes "net_reads net"
  shows "getCommPf net md ls w = (case comm_search net md w ls of
      None \<Rightarrow> (Err (Errorf ''unable to identify any PFs. Check that the idpf driver is available'' []), w)
    | Some l \<Rightarrow> if length (HardwareAddr l) < 4 then (Panic ''index out of range'', w) else (Ok l, w))"
  unfolding getCommPf_def comm_search_def andthen_def try_else_def getCommPf_loop_run [OF assms]
  by (simp add: ret_def fail_def split: option.split)

lemma getFilteredPFs_run:
  assumes "net_reads net"
  shows "(\<exists>links. fst (LinkList net w) = Inr links \<and> links \<noteq> [] \<and> (\<forall>l \<in> set links. readable FileSystemHandlerImpl w l) \<and>
      getFilteredPFs FileSystemHandlerImpl net [] w = (Ok (filter (is_pf FileSystemHandlerImpl w) links), w)) \<or>
    (\<not> (\<exists>links. fst (LinkList net w) = Inr links \<and> links \<noteq> [] \<and> (\<forall>l \<in> set links. readable FileSystemHandlerImpl w l)) \<and>
      (\<exists>e. getFilteredPFs FileSystemHandlerImpl net [] w = (Err e, w)))"
proof (cases "fst (LinkList net w)")
  case (Inl e)
  then have "LinkList net w = (Inl e, w)" using net_readsD(1) [OF assms, of w] by (metis prod.collapse)
  then show ?thesis by (simp add: getFilteredPFs_def check_def try_else_def call_def fail_def)
next
  case (Inr links)
  then have links: "LinkList net w = (Inr links, w)" using net_readsD(1) [OF assms, of w] by (metis prod.collapse)
  show ?thesis
    using sysfs.filter_PFs_run [of links w] links
    by (cases "\<forall>l \<in> set links. readable FileSystemHandlerImpl w l")
       (auto simp: getFilteredPFs_def check_def andthen_def try_else_def call_def fail_def ret_def)
qed

lemma setIP_cases:
  assumes "net_reads net" "setIP net pf ip w = (r, w')"
  shows "(r = Ok () \<and> fst (AddrList net pf FAMILY_V4 w) = Inr [] \<and> (\<exists>a. ParseIP ip = Some a \<and> To4 a \<noteq> None \<and>
            AddrAdd net pf \<lparr>IP = a, Mask = CIDRMask 24 32\<rparr> w = (Inr (), w'))) \<or>
         (\<exists>e. r = Err e) \<and> (w' = w \<or> (\<exists>a e. AddrAdd net pf a w = (Inl e, w')))"
proof (cases "fst (AddrList net pf FAMILY_V4 w)")
  case (Inl e)
  then have "AddrList net pf FAMILY_V4 w = (Inl e, w)"
    using net_readsD(2) [OF assms(1), of pf FAMILY_V4 w] by (metis prod.collapse)
  with assms(2) show ?thesis by (auto simp: setIP_def check_def try_else_def call_def fail_def)
next
  case (Inr as)
  then have as: "AddrList net pf FAMILY_V4 w = (Inr as, w)"
    using net_readsD(2) [OF assms(1), of pf FAMILY_V4 w] by (metis prod.collapse)
  show ?thesis
  proof (cases "as = [] \<and> (\<exists>a. ParseIP ip = Some a \<and> To4 a \<noteq> None)")
    case False
    with as assms(2) show ?thesis
      by (auto simp: setIP_def check_def try_else_def call_def fail_def split: option.splits if_splits)
  next
    case True
    then obtain a where a: "ParseIP ip = Some a" "To4 a \<noteq> None" by blast
    with True as assms(2) Inr show ?thesis
      by (cases "AddrAdd net pf \<lparr>IP = a, Mask = CIDRMask 24 32\<rparr> w")
         (auto simp: setIP_def check_def try_else_def call_def fail_def ret_def split: sum.splits)
  qed
qed

lemma setIP_Ok:
  assumes "net_reads net" "fst (AddrList net pf FAMILY_V4 w) = Inr []" "ParseIP ip = Some a" "To4 a \<noteq> None"
    "AddrAdd net pf \<lparr>IP = a, Mask = CIDRMask 24 32\<rparr> w = (Inr (), w')"
  shows "setIP net pf ip w = (Ok (), w')"
proof -
  have "AddrList net pf FAMILY_V4 w = (Inr [], w)"
    using net_readsD(2) [OF assms(1), of pf FAMILY_V4 w] assms(2) by (metis prod.collapse)
  with assms show ?thesis by (simp add: setIP_def check_def try_else_def call_def ret_def)
qed

text \<open>The links and the physical function \<open>Init\<close> works on.\<close>

definition init_target :: "'z os_scheme NetworkHandler \<Rightarrow> LifeCycleServiceServer \<Rightarrow> 'z os_scheme \<Rightarrow> link option option" where
  "init_target net s w = (case fst (LinkList net w) of Inl _ \<Rightarrow> None | Inr links \<Rightarrow>
     if links = [] \<or> \<not> (\<forall>l \<in> set links. readable FileSystemHandlerImpl w l) then None
     else Some (comm_search net (lc_mode s) w (filter (is_pf FileSystemHandlerImpl w) links)))"

lemma init_target_links:
  "init_target net s w = Some (Some pf) \<longleftrightarrow> (\<exists>links. fst (LinkList net w) = Inr links \<and>
     (\<forall>l \<in> set links. readable FileSystemHandlerImpl w l) \<and>
     comm_search net (lc_mode s) w (filter (is_pf FileSystemHandlerImpl w) links) = Some pf)"
proof -
  have "comm_search net (lc_mode s) w [] = None" by (simp add: comm_search_def)
  then show ?thesis by (auto simp: init_target_def split: sum.splits)
qed

definition mode_ok :: "LifeCycleServiceServer \<Rightarrow> bool \<Rightarrow> bool" where
  "mode_ok s dpu \<longleftrightarrow> lc_mode s = (if dpu then ''ipu'' else ''host'')"

lemma configureChannel_run:
  assumes "net_reads net"
  shows "(\<nexists>pf. init_target net s w = Some (Some pf)) \<Longrightarrow>
      \<exists>e. configureChannel net default_handlers (lc_mode s) (lc_daemonHostIp s) (lc_daemonIpuIp s) w = (Err e, w)"
    and "init_target net s w = Some (Some pf) \<Longrightarrow>
      configureChannel net default_handlers (lc_mode s) (lc_daemonHostIp s) (lc_daemonIpuIp s) w =
        (if length (HardwareAddr pf) < 4 then (Panic ''index out of range'', w)
         else check (setIP net pf (channel_ip s)) status_Internal (\<lambda>_. ret ()) w)"
proof -
  note unf = configureChannel_def initHandlers_def default_handlers_def channel_ip_def
  from getFilteredPFs_run [OF assms, of w]
  have "((\<nexists>pf. init_target net s w = Some (Some pf)) \<longrightarrow>
      (\<exists>e. configureChannel net default_handlers (lc_mode s) (lc_daemonHostIp s) (lc_daemonIpuIp s) w = (Err e, w))) \<and>
    (init_target net s w = Some (Some pf) \<longrightarrow>
      configureChannel net default_handlers (lc_mode s) (lc_daemonHostIp s) (lc_daemonIpuIp s) w =
        (if length (HardwareAddr pf) < 4 then (Panic ''index out of range'', w)
         else check (setIP net pf (channel_ip s)) status_Internal (\<lambda>_. ret ()) w))"
  proof (elim disjE conjE exE)
    fix links
    let ?pfs = "filter (is_pf FileSystemHandlerImpl w) links"
    assume l: "fst (LinkList net w) = Inr links" "links \<noteq> []" "\<forall>l \<in> set links. readable FileSystemHandlerImpl w l"
      and run: "getFilteredPFs FileSystemHandlerImpl net [] w = (Ok ?pfs, w)"
    have target: "init_target net s w = Some (comm_search net (lc_mode s) w ?pfs)"
      using l by (simp add: init_target_def)
    have after: "configureChannel net default_handlers (lc_mode s) (lc_daemonHostIp s) (lc_daemonIpuIp s) w =
        check (getCommPf net (lc_mode s) ?pfs) status_Internal (\<lambda>pf.
          check (setIP net pf (channel_ip s)) status_Internal (\<lambda>_. ret ())) w"
      using run by (simp add: unf check_def [of "getFilteredPFs FileSystemHandlerImpl net []"] try_else_def)
    show ?thesis unfolding after target
      using getCommPf_run [OF assms, of "lc_mode s" ?pfs w]
      by (cases "comm_search net (lc_mode s) w ?pfs")
         (auto simp: check_def [of "getCommPf net (lc_mode s) ?pfs"] try_else_def fail_def)
  next
    fix e
    assume none: "\<not> (\<exists>links. fst (LinkList net w) = Inr links \<and> links \<noteq> [] \<and> (\<forall>l \<in> set links. readable FileSystemHandlerImpl w l))"
      and run: "getFilteredPFs FileSystemHandlerImpl net [] w = (Err e, w)"
    from none have "init_target net s w = None" by (auto simp: init_target_def split: sum.split)
    with run show ?thesis by (simp add: unf check_def [of "getFilteredPFs FileSystemHandlerImpl net []"] try_else_def fail_def)
  qed
  then show "(\<nexists>pf. init_target net s w = Some (Some pf)) \<Longrightarrow>
      \<exists>e. configureChannel net default_handlers (lc_mode s) (lc_daemonHostIp s) (lc_daemonIpuIp s) w = (Err e, w)"
    and "init_target net s w = Some (Some pf) \<Longrightarrow>
      configureChannel net default_handlers (lc_mode s) (lc_daemonHostIp s) (lc_daemonIpuIp s) w =
        (if length (HardwareAddr pf) < 4 then (Panic ''index out of range'', w)
         else check (setIP net pf (channel_ip s)) status_Internal (\<lambda>_. ret ()) w)" by blast+
qed

text \<open>Every run of \<open>Init\<close> ends in one of four ways.\<close>

lemma Init_cases:
  assumes reads: "net_reads net" and run: "LifeCycle_Init net default_handlers s dpu w = (r, w')"
  obtains (refused) e where "\<not> mode_ok s dpu \<or> (\<nexists>pf. init_target net s w = Some (Some pf))" "r = Err e" "w' = w"
  | (short) pf where "mode_ok s dpu" "init_target net s w = Some (Some pf)" "length (HardwareAddr pf) < 4"
      "r = Panic ''index out of range''" "w' = w"
  | (set) pf where "mode_ok s dpu" "init_target net s w = Some (Some pf)" "4 \<le> length (HardwareAddr pf)"
      "setIP net pf (channel_ip s) w = (Ok (), w')" "r = Ok \<lparr>Ip = lc_daemonIpuIp s, Port = of_int (lc_daemonPort s)\<rparr>"
  | (failed) pf e e' where "mode_ok s dpu" "init_target net s w = Some (Some pf)" "4 \<le> length (HardwareAddr pf)"
      "setIP net pf (channel_ip s) w = (Err e, w')" "r = Err e'"
proof (cases "mode_ok s dpu")
  case False
  then have "\<exists>e. r = Err e \<and> w' = w" using run
    by (auto simp: LifeCycle_Init_def mode_ok_def fail_def split: if_splits)
  with False refused show ?thesis by blast
next
  case True
  then have step: "LifeCycle_Init net default_handlers s dpu w =
      check (configureChannel net default_handlers (lc_mode s) (lc_daemonHostIp s) (lc_daemonIpuIp s)) status_Internal
        (\<lambda>_. ret \<lparr>Ip = lc_daemonIpuIp s, Port = of_int (lc_daemonPort s)\<rparr>) w"
    by (simp add: LifeCycle_Init_def mode_ok_def split: if_splits)
  show ?thesis
  proof (cases "\<exists>pf. init_target net s w = Some (Some pf)")
    case False
    with configureChannel_run(1) [OF reads False] run step have "\<exists>e. r = Err e \<and> w' = w"
      by (auto simp: check_def try_else_def fail_def)
    with False refused show ?thesis by blast
  next
    case True
    then obtain pf where pf: "init_target net s w = Some (Some pf)" by blast
    note chan = configureChannel_run(2) [OF reads pf]
    show ?thesis
    proof (cases "length (HardwareAddr pf) < 4")
      case True
      with chan run step have "r = Panic ''index out of range'' \<and> w' = w" by (simp add: check_def try_else_def)
      with short \<open>mode_ok s dpu\<close> pf True show ?thesis by blast
    next
      case False
      obtain r1 w1 where ip: "setIP net pf (channel_ip s) w = (r1, w1)" by fastforce
      with setIP_cases [OF reads ip] have "r1 = Ok () \<or> (\<exists>e. r1 = Err e)" by blast
      with ip chan run step False \<open>mode_ok s dpu\<close> pf show ?thesis
        by (auto simp: check_def try_else_def fail_def ret_def intro: set failed)
    qed
  qed
qed

section \<open>Properties of \<open>Init\<close>\<close>

text \<open>C36. When \<open>Init\<close> succeeds, exactly: the requested mode is the plugin's; the device and vendor
  files of every link of the host can be read (one link without them, such as the loopback, makes
  the call fail); the first physical function (0x8086/0x1452) that has a short address or the right
  fourth octet (03 on a host; 02 and no IPv4 address on an IPU) has four octets or more and no IPv4
  address; the address configured for the mode is IPv4; and the one change to the world is the
  addition of that address with a /24 mask to that function. In \<open>ipu\<close> mode the address is
  \<open>daemonHostIp\<close>, in \<open>host\<close> mode \<open>daemonIpuIp\<close>; the response always names \<open>daemonIpuIp\<close> and the
  daemon port.\<close>

theorem init_success_iff:
  assumes "net_reads net"
  shows "LifeCycle_Init net default_handlers s dpu w = (Ok resp, w') \<longleftrightarrow>
    lc_mode s = (if dpu then ''ipu'' else ''host'') \<and>
    resp = \<lparr>Ip = lc_daemonIpuIp s, Port = of_int (lc_daemonPort s)\<rparr> \<and>
    (\<exists>links pf ip. fst (LinkList net w) = Inr links \<and>
       (\<forall>l \<in> set links. readable FileSystemHandlerImpl w l) \<and>
       find (\<lambda>l. length (HardwareAddr l) < 4 \<or> comm_candidate net (lc_mode s) w l)
         (filter (is_pf FileSystemHandlerImpl w) links) = Some pf \<and>
       4 \<le> length (HardwareAddr pf) \<and> fst (AddrList net pf FAMILY_V4 w) = Inr [] \<and>
       ParseIP (if dpu then lc_daemonHostIp s else lc_daemonIpuIp s) = Some ip \<and> To4 ip \<noteq> None \<and>
       AddrAdd net pf \<lparr>IP = ip, Mask = [255, 255, 255, 0]\<rparr> w = (Inr (), w'))" (is "?run \<longleftrightarrow> ?spec")
proof -
  have mask: "CIDRMask 24 32 = [255, 255, 255, 0]" by (simp add: CIDRMask_def upt_rec)
  have ip: "mode_ok s dpu \<Longrightarrow> channel_ip s = (if dpu then lc_daemonHostIp s else lc_daemonIpuIp s)"
    by (simp add: mode_ok_def channel_ip_def)
  note target = init_target_links [of net s w, unfolded comm_search_def]
  show ?thesis
  proof
    assume ?run
    with assms show ?spec
    proof (cases rule: Init_cases)
      case (set pf)
      with setIP_cases [OF assms set(4)] show ?thesis
        unfolding mask using target [of pf] ip by (auto simp: mode_ok_def)
    qed auto
  next
    assume ?spec
    then obtain pf ipa where t: "init_target net s w = Some (Some pf)" "4 \<le> length (HardwareAddr pf)"
      and m: "mode_ok s dpu" and resp: "resp = \<lparr>Ip = lc_daemonIpuIp s, Port = of_int (lc_daemonPort s)\<rparr>"
      and a: "fst (AddrList net pf FAMILY_V4 w) = Inr []" "ParseIP (channel_ip s) = Some ipa" "To4 ipa \<noteq> None"
        "AddrAdd net pf \<lparr>IP = ipa, Mask = CIDRMask 24 32\<rparr> w = (Inr (), w')"
      unfolding mask target by (cases dpu) (auto simp: mode_ok_def channel_ip_def)
    obtain r1 w1 where run: "LifeCycle_Init net default_handlers s dpu w = (r1, w1)" by fastforce
    with assms show ?run
      by (cases rule: Init_cases) (use run t m resp setIP_Ok [OF assms a] in auto)
  qed
qed

text \<open>An \<open>Init\<close> that does not succeed leaves the world as it was, unless netlink itself refused to
  add the address.\<close>

theorem init_failure_no_effect:
  assumes "net_reads net" "LifeCycle_Init net default_handlers s dpu w = (r, w')" "\<not> is_Ok r"
  shows "w' = w \<or> (\<exists>pf a e. AddrAdd net pf a w = (Inl e, w'))"
  using assms(1,2)
  by (cases rule: Init_cases) (use assms(3) setIP_cases [OF assms(1)] in \<open>auto, blast\<close>)

text \<open>C37. \<open>Init\<close> brings the plugin down exactly when the search for the physical function meets, before
  any candidate, one whose hardware address has fewer than four bytes.\<close>

theorem init_panics_iff:
  assumes "net_reads net"
  shows "abnormal (fst (LifeCycle_Init net default_handlers s dpu w)) \<longleftrightarrow>
    lc_mode s = (if dpu then ''ipu'' else ''host'') \<and>
    (\<exists>links pf. fst (LinkList net w) = Inr links \<and>
       (\<forall>l \<in> set links. readable FileSystemHandlerImpl w l) \<and>
       find (\<lambda>l. length (HardwareAddr l) < 4 \<or> comm_candidate net (lc_mode s) w l)
         (filter (is_pf FileSystemHandlerImpl w) links) = Some pf \<and> length (HardwareAddr pf) < 4)"
proof -
  note target = init_target_links [of net s w, unfolded comm_search_def]
  obtain r w' where run: "LifeCycle_Init net default_handlers s dpu w = (r, w')" by fastforce
  with assms have "abnormal r \<longleftrightarrow> mode_ok s dpu \<and>
      (\<exists>pf. init_target net s w = Some (Some pf) \<and> length (HardwareAddr pf) < 4)"
    by (cases rule: Init_cases) auto
  with run show ?thesis by (auto simp: target mode_ok_def)
qed

section \<open>Witnesses\<close>

text \<open>A host with one physical function, \<open>ens1\<close>, on an idle netlink that records the added addresses.\<close>

record host_world = os +
  assigned :: "nl_addr list"

definition demo_pf :: "byte list \<Rightarrow> link" where
  "demo_pf mac = zero_link\<lparr>Name := ''p'', HardwareAddr := mac\<rparr>"

definition demo_link_net :: "byte list \<Rightarrow> host_world NetworkHandler" where
  "demo_link_net mac = \<lparr>AddrAdd = \<lambda>l a w. (Inr (), assigned_update (\<lambda>as. a # as) w),
     AddrList = \<lambda>l f w. (Inr (assigned w), w),
     LinkList = \<lambda>w. (Inr [demo_pf mac], w)\<rparr>"

definition demo_pf_files :: "(string list \<times> node) list" where
  "demo_pf_files =
    [([''sys''], Dir), ([''sys'', ''class''], Dir), ([''sys'', ''class'', ''net''], Dir),
     ([''sys'', ''class'', ''net'', ''p''], Dir), ([''sys'', ''class'', ''net'', ''p'', ''device''], Dir),
     ([''sys'', ''class'', ''net'', ''p'', ''device'', ''device''], File ''0x1452''),
     ([''sys'', ''class'', ''net'', ''p'', ''device'', ''vendor''], File ''0x8086'')]"

definition demo_host :: host_world where
  "demo_host = \<lparr>nodes = demo_pf_files, cwd = [], fault = \<lambda>_ _. None, assigned = []\<rparr>"

definition demo_service :: LifeCycleServiceServer where
  "demo_service = NewLifeCycleService ''192.168.1.1'' ''192.168.1.2'' 50151 ''host''"

lemma demo_net_reads: "net_reads (demo_link_net mac)"
  by (simp add: net_reads_def demo_link_net_def)

lemma demo_device_files:
  "GetDevice FileSystemHandlerImpl ''p'' demo_host = (Inr ''0x1452'', demo_host)"
  "GetVendor FileSystemHandlerImpl ''p'' demo_host = (Inr ''0x8086'', demo_host)"
  by (simp_all add: FileSystemHandlerImpl_def os_ReadFile_def find_node_def resolve_def is_abs_def
      components_def lookup_def demo_host_def demo_pf_files_def max_links_def)

lemma demo_pf_found:
  "readable FileSystemHandlerImpl demo_host (demo_pf mac)" "is_pf FileSystemHandlerImpl demo_host (demo_pf mac)"
  by (simp_all add: readable_def is_pf_def demo_pf_def demo_device_files deviceId_def vendorId_def
      TrimSpace_def is_space_def)

lemma demo_ip: "\<exists>a. ParseIP ''192.168.1.2'' = Some a \<and> To4 a \<noteq> None"
  by (simp add: ParseIP_def ipv4_fields_def ipv4_field_def char_digit_def v4InV6Prefix_def To4_def)

lemma demo_find:
  "find (\<lambda>l. length (HardwareAddr l) < 4 \<or> comm_candidate net md w l)
     (filter (is_pf FileSystemHandlerImpl demo_host) [demo_pf mac]) =
   (if length mac < 4 \<or> comm_candidate net md w (demo_pf mac) then Some (demo_pf mac) else None)"
  by (simp add: demo_pf_found) (simp add: demo_pf_def)

theorem init_success_iff_witness:
  "net_reads (demo_link_net [0, 0, 0, 3]) \<and>
   (\<exists>w'. LifeCycle_Init (demo_link_net [0, 0, 0, 3]) default_handlers demo_service False demo_host =
     (Ok \<lparr>Ip = ''192.168.1.2'', Port = 50151\<rparr>, w') \<and> length (assigned w') = 1)"
proof -
  from demo_ip obtain a where a: "ParseIP ''192.168.1.2'' = Some a" "To4 a \<noteq> None" by blast
  let ?w' = "demo_host\<lparr>assigned := [\<lparr>IP = a, Mask = [255, 255, 255, 0]\<rparr>]\<rparr>"
  have "LifeCycle_Init (demo_link_net [0, 0, 0, 3]) default_handlers demo_service False demo_host =
      (Ok \<lparr>Ip = ''192.168.1.2'', Port = 50151\<rparr>, ?w')"
  proof (subst init_success_iff [OF demo_net_reads], intro conjI exI)
    show "find (\<lambda>l. length (HardwareAddr l) < 4 \<or> comm_candidate (demo_link_net [0, 0, 0, 3]) (lc_mode demo_service) demo_host l)
         (filter (is_pf FileSystemHandlerImpl demo_host) [demo_pf [0, 0, 0, 3]]) = Some (demo_pf [0, 0, 0, 3])"
      unfolding demo_find by (simp add: comm_candidate_def demo_service_def NewLifeCycleService_def demo_pf_def)
    show "ParseIP (if False then lc_daemonHostIp demo_service else lc_daemonIpuIp demo_service) = Some a"
      using a by (simp add: demo_service_def NewLifeCycleService_def)
  qed (use a in \<open>simp_all add: demo_service_def NewLifeCycleService_def demo_link_net_def demo_pf_found\<close>,
       simp_all add: demo_pf_def demo_host_def)
  then show ?thesis using demo_net_reads by (intro conjI exI [of _ ?w']) simp_all
qed

theorem init_failure_no_effect_witness:
  "\<exists>r w'. LifeCycle_Init (demo_link_net [0, 0, 0, 3]) default_handlers demo_service True demo_host = (r, w') \<and>
     \<not> is_Ok r \<and> (w' = demo_host \<or> (\<exists>pf a e. AddrAdd (demo_link_net [0, 0, 0, 3]) pf a demo_host = (Inl e, w')))"
proof -
  have run: "LifeCycle_Init (demo_link_net [0, 0, 0, 3]) default_handlers demo_service True demo_host =
      (Err (status_Internal (Errorf ''Ipu plugin running in %s mode'' [S ''host''])), demo_host)"
    by (simp add: LifeCycle_Init_def demo_service_def NewLifeCycleService_def)
  with init_failure_no_effect [OF demo_net_reads run] show ?thesis by fastforce
qed

theorem init_panics_iff_witness:
  "net_reads (demo_link_net [0]) \<and>
   abnormal (fst (LifeCycle_Init (demo_link_net [0]) default_handlers demo_service False demo_host))"
proof (intro conjI demo_net_reads, subst init_panics_iff [OF demo_net_reads], intro conjI exI)
  show "find (\<lambda>l. length (HardwareAddr l) < 4 \<or> comm_candidate (demo_link_net [0]) (lc_mode demo_service) demo_host l)
       (filter (is_pf FileSystemHandlerImpl demo_host) [demo_pf [0]]) = Some (demo_pf [0])"
    unfolding demo_find by simp
qed (simp_all add: demo_service_def NewLifeCycleService_def demo_link_net_def demo_pf_found,
     simp add: demo_pf_def)

end
