(* ===== verification/PluginRun.thy ===== *)
theory PluginRun
  imports IpuPlugin Lifecycle
begin

text \<open>
  \<open>ipu-plugin/pkg/ipuplugin/ipuplugin.go\<close> and the rest of \<open>ipuplugin/cmd/rootcmd.go\<close>: the plugin's
  process from its flags to its end. What happens while the process serves is an explicit list of
  events: requests of the two services, a failure of the gRPC server, a signal. Requests are handled
  one after the other here; \<open>ConcurrentPorts\<close> lets the handlers run at the same time. The network
  (\<open>net\<close>, gRPC), \<open>cobra\<close>, \<open>viper\<close> and \<open>logrus\<close> are arguments. Informational log lines are left out.
\<close>

section \<open>The process\<close>

record 'w run_ext =
  run_Listen :: "string \<Rightarrow> string \<Rightarrow> ('w, int) ext"
  run_Close :: "int \<Rightarrow> 'w \<Rightarrow> 'w"
  run_GracefulStop :: "'w \<Rightarrow> 'w"
  run_VerifiedFilePath :: "string \<Rightarrow> string \<Rightarrow> ('w, string) ext"
  run_ParseLevel :: "string \<Rightarrow> error + int"

record plugin_log =
  lg_writers :: "string list"
  lg_level :: int
  lg_caller :: bool

record 'w plugin_state =
  service :: "'w srv_state"
  listener :: "int option"
  plog :: plugin_log

abbreviation on_service :: "('w srv_state, 'a) prog \<Rightarrow> ('w plugin_state, 'a) prog" where
  "on_service \<equiv> zoom service service_update"

abbreviation on_host_env :: "('w, 'a) prog \<Rightarrow> ('w plugin_state, 'a) prog" where
  "on_host_env m \<equiv> on_service (on_env m)"

datatype run_event = Rpc request | InitRpc bool | ServeFails error | Signal

text \<open>\<open>log.Fatalf\<close> exits with status 1.\<close>

definition exit_status :: "int \<Rightarrow> string" where
  "exit_status n = ''exit status '' @ Itoa n"

definition Fatal :: "('w, 'a) prog" where
  "Fatal = exit_process (exit_status 1)"

section \<open>The server's socket\<close>

definition cleanUp :: "('z os_scheme) server \<Rightarrow> ('z os_scheme, unit) prog" where
  "cleanUp s = try_else (call (os_Remove (servingAddr s)))
     (\<lambda>err. if \<not> IsNotExist err then fail err else ret ()) ret"

definition getListener :: "'z os_scheme run_ext \<Rightarrow> 'z os_scheme server \<Rightarrow> ('z os_scheme, int) prog" where
  "getListener x s =
     (if servingProto s = ''unix'' then
        andthen (cleanUp s) (\<lambda>_.
        try_else (call (os_MkdirAll (Dir_of (servingAddr s)))) (\<lambda>err. Fatal) (\<lambda>_.
        try_else (call (run_Listen x (servingProto s) (servingAddr s))) (\<lambda>err. Fatal) ret))
      else if servingProto s = ''tcp'' then
        try_else (call (run_Listen x (servingProto s) (servingAddr s @ '':'' @ Itoa (servingPort s)))) (\<lambda>err. Fatal) ret
      else fail (Errorf ''unsupported serving protocol %s'' [S (servingProto s)]))"

section \<open>\<open>Run\<close> and \<open>Stop\<close>\<close>

definition plugin_Stop :: "'z os_scheme run_ext \<Rightarrow> 'z os_scheme server \<Rightarrow> ('z os_scheme plugin_state, unit) prog" where
  "plugin_Stop x s =
     andthen (on_host_env (modify (run_GracefulStop x))) (\<lambda>_.
     andthen (gets listener) (\<lambda>lis. case lis of None \<Rightarrow> ret ()
     | Some l \<Rightarrow> andthen (on_host_env (modify (run_Close x l))) (\<lambda>_. ignore (on_host_env (cleanUp s)))))"

text \<open>What the process does with the events; \<open>True\<close> says that it has stopped, \<open>False\<close> that it still serves.
  The result of a request goes to its client; a handler that panics takes the process down.\<close>

fun serve_events :: "'z os_scheme run_ext \<Rightarrow> 'z os_scheme netlink_fns \<Rightarrow> 'z os_scheme NetworkHandler \<Rightarrow> 'z os_scheme handlers \<Rightarrow>
    'z os_scheme server \<Rightarrow> LifeCycleServiceServer \<Rightarrow> run_event list \<Rightarrow> ('z os_scheme plugin_state, bool) prog" where
  "serve_events x nl net h s lc [] = ret False"
| "serve_events x nl net h s lc (Rpc rq # es) =
     andthen (ignore (on_service (handle nl s rq))) (\<lambda>_. serve_events x nl net h s lc es)"
| "serve_events x nl net h s lc (InitRpc dpu # es) =
     andthen (ignore (on_host_env (LifeCycle_Init net h lc dpu))) (\<lambda>_. serve_events x nl net h s lc es)"
| "serve_events x nl net h s lc (ServeFails err # es) = Fatal"
| "serve_events x nl net h s lc (Signal # es) = andthen (plugin_Stop x s) (\<lambda>_. ret True)"

definition plugin_Run :: "'z os_scheme run_ext \<Rightarrow> 'z os_scheme netlink_fns \<Rightarrow> 'z os_scheme NetworkHandler \<Rightarrow> 'z os_scheme handlers \<Rightarrow>
    'z os_scheme server \<Rightarrow> run_event list \<Rightarrow> ('z os_scheme plugin_state, bool) prog" where
  "plugin_Run x nl net h s es =
     check (on_host_env (getListener x s)) (\<lambda>err. Errorf ''unable to run IPU plugin'' []) (\<lambda>listen.
     try_else (on_host_env (EnsureBridgeExists (bridgeCtlr s))) (\<lambda>err. Fatal) (\<lambda>_.
     serve_events x nl net h s (NewLifeCycleService (daemonHostIp s) (daemonIpuIp s) (daemonPort s) (mode s)) es))"

section \<open>The root command\<close>

definition cliName :: string where "cliName = ''ipuplugin''"
definition DebugLevel :: int where "DebugLevel = 5"

text \<open>\<open>os.OpenFile\<close> with \<open>O_APPEND|O_CREATE|O_WRONLY\<close>.\<close>

definition os_OpenAppend :: "string \<Rightarrow> ('z os_scheme, unit) ext" where
  "os_OpenAppend p w = (case fault w ''open'' p of Some e \<Rightarrow> (Inl (PathError ''open'' p e), w) | None \<Rightarrow>
     (case resolve Create w p of Inl e \<Rightarrow> (Inl (PathError ''open'' p e), w)
      | Inr q \<Rightarrow> (case lookup w q of
          Some Dir \<Rightarrow> (Inl (PathError ''open'' p EISDIR), w)
        | Some Special \<Rightarrow> (Inl (PathError ''open'' p ENXIO), w)
        | Some _ \<Rightarrow> (Inr (), w)
        | None \<Rightarrow> (Inr (), put q (File []) w))))"

definition logInit :: "'z os_scheme run_ext \<Rightarrow> string \<Rightarrow> string \<Rightarrow> ('z os_scheme plugin_state, unit) prog" where
  "logInit x logDir logLevel =
     andthen (on_host_env (call (os_MkdirAll logDir))) (\<lambda>_.
     let logFilename = Join [logDir, cliName @ ''.log''] in
     andthen (on_host_env (call (run_VerifiedFilePath x logFilename logDir))) (\<lambda>verifiedFileName.
     andthen (on_host_env (call (os_OpenAppend verifiedFileName))) (\<lambda>_.
     andthen (modify (plog_update (lg_writers_update (\<lambda>_. [''stdout'', verifiedFileName])))) (\<lambda>_.
     andthen (of_res (of_sum (run_ParseLevel x logLevel))) (\<lambda>lgLvl.
     andthen (modify (plog_update (lg_level_update (\<lambda>_. lgLvl)))) (\<lambda>_.
     if lgLvl = DebugLevel then modify (plog_update (lg_caller_update (\<lambda>_. True))) else ret ()))))))"

definition exitWithError :: "error \<Rightarrow> int \<Rightarrow> ('w, 'a) prog" where
  "exitWithError err exitCode = exit_process (exit_status exitCode)"

definition rootCmd_Run :: "'z os_scheme run_ext \<Rightarrow> 'z os_scheme netlink_fns \<Rightarrow> 'z os_scheme runner \<Rightarrow> 'z os_scheme ctl_runner \<Rightarrow>
    string list \<Rightarrow> 'z os_scheme NetworkHandler \<Rightarrow> 'z os_scheme handlers \<Rightarrow> (string \<Rightarrow> string) \<Rightarrow> (string \<Rightarrow> int) \<Rightarrow> run_event list \<Rightarrow>
    ('z os_scheme plugin_state, bool) prog" where
  "rootCmd_Run x nl exec ctl environ net h GetString GetInt es =
     try_else (logInit x (GetString ''logDir'') (GetString ''verbosity'')) (\<lambda>err. exitWithError err 3) (\<lambda>_.
     case rootCmd_plugin nl exec ctl environ GetString GetInt of (s, ports) \<Rightarrow>
       andthen (on_service (modify (Ports_update (\<lambda>_. ports)))) (\<lambda>_.
       andthen (modify (listener_update (\<lambda>_. None))) (\<lambda>_.
       try_else (plugin_Run x nl net h s es) (\<lambda>err. exitWithError err 4) ret)))"

text \<open>\<open>parse\<close> is what \<open>cobra\<close> and \<open>viper\<close> make of the command line, the environment and the
  configuration file: an error, or the values and the variable \<open>config.mode\<close>.\<close>

definition plugin_Execute :: "'z os_scheme run_ext \<Rightarrow> 'z os_scheme netlink_fns \<Rightarrow> 'z os_scheme runner \<Rightarrow> 'z os_scheme ctl_runner \<Rightarrow>
    string list \<Rightarrow> 'z os_scheme NetworkHandler \<Rightarrow> 'z os_scheme handlers \<Rightarrow>
    error + ((string \<Rightarrow> string) \<times> (string \<Rightarrow> int) \<times> string) \<Rightarrow> run_event list \<Rightarrow> ('z os_scheme plugin_state, bool) prog" where
  "plugin_Execute x nl exec ctl environ net h parse es =
     try_else (of_res (of_sum parse)) (\<lambda>err. exitWithError err 1) (\<lambda>(GetString, GetInt, config_mode).
     try_else (of_res (validateConfigs config_mode)) (\<lambda>err. exitWithError err 1) (\<lambda>_.
     rootCmd_Run x nl exec ctl environ net h GetString GetInt es))"

section \<open>Outcomes\<close>

text \<open>The events whose handler can bring the process down.\<close>

fun deadly :: "run_event \<Rightarrow> bool" where
  "deadly (Rpc (CreateReq inp)) \<longleftrightarrow> (case inp of None \<Rightarrow> True | Some bp \<Rightarrow>
     (case Spec bp of None \<Rightarrow> True | Some spec \<Rightarrow> length (MacAddress spec) = 1))"
| "deadly (InitRpc _) \<longleftrightarrow> True"
| "deadly _ \<longleftrightarrow> False"

definition run_ok :: "run_event list \<Rightarrow> bool res \<Rightarrow> 'w plugin_state \<Rightarrow> bool" where
  "run_ok es r st \<longleftrightarrow> ports_wf (Ports (service st)) \<and> listener st = None \<and>
     (case r of Ok _ \<Rightarrow> True | Err _ \<Rightarrow> False
      | Exit m \<Rightarrow> m = exit_status 1 \<and> (\<exists>e. ServeFails e \<in> set es)
      | Panic m \<Rightarrow> \<exists>e \<in> set es. deadly e)"

text \<open>Programs that do not end the process themselves.\<close>

definition exitless :: "('w, 'a) prog \<Rightarrow> bool" where
  "exitless m \<longleftrightarrow> (\<forall>w. wp m (\<lambda>r _. \<forall>p. r \<noteq> Exit p) w)"

lemma total_exitless: "total m \<Longrightarrow> exitless m"
  by (fastforce simp: total_def exitless_def wp_iff abnormal_iff)

lemma exitless_basic [intro]:
  "exitless (ret a)" "exitless (fail e)" "exitless (panic p)" "exitless (gets f)" "exitless (modify g)"
  "exitless (of_res (of_sum q))" "exitless (of_res (index xs i))" "exitless (of_res (getFirstVlanID bs))"
  by (cases q; simp add: exitless_def wp_rules index_def getFirstVlanID_def split: sum.split)+

lemma exitless_call [intro]: "exitless (call c)"
  by (auto simp: exitless_def wp_rules split: prod.split sum.split)

lemma exitless_seq [intro]:
  "exitless m \<Longrightarrow> (\<And>e. exitless (h e)) \<Longrightarrow> (\<And>a. exitless (k a)) \<Longrightarrow> exitless (try_else m h k)"
  "exitless m \<Longrightarrow> (\<And>a. exitless (k a)) \<Longrightarrow> exitless (check m f k)"
  "exitless m \<Longrightarrow> (\<And>a. exitless (k a)) \<Longrightarrow> exitless (andthen m k)"
  "exitless m \<Longrightarrow> exitless (zoom get upd m)"
  by (auto simp: exitless_def wp_rules elim!: wp_mono split: res.split)

lemma exitless_if [intro]: "exitless m \<Longrightarrow> exitless n \<Longrightarrow> exitless (if b then m else n)"
  by simp

lemma exitless_option [intro]:
  "exitless m \<Longrightarrow> (\<And>a. exitless (f a)) \<Longrightarrow> exitless (case_option m f v)"
  by (cases v) simp_all

lemmas exitless_intros = exitless_basic exitless_call exitless_seq exitless_if exitless_option

lemma isPF_exitless: "exitless (isPF fs n)"
  by (auto simp: isPF_def Let_def)

lemma filter_PFs_exitless: "exitless (filter_PFs fs ls)"
  by (induction ls) (auto intro: isPF_exitless)

lemma getCommPf_exitless: "exitless (getCommPf_loop net md ls)"
  by (induction ls) (auto simp: AddrList_or_nil_def Let_def intro!: exitless_intros)

lemma Init_exitless: "exitless (LifeCycle_Init netlink h lc dpu)"
  by (auto simp: LifeCycle_Init_def configureChannel_def getFilteredPFs_def getCommPf_def setIP_def Let_def
      intro!: exitless_intros filter_PFs_exitless getCommPf_exitless split: prod.split)

context port_server
begin

lemma handle_abnormal:
  assumes "handle nl s rq st = (r, st')" "ports_wf (Ports st)" "abnormal r"
  shows "deadly (Rpc rq)"
proof (cases rq)
  case (CreateReq inp)
  with assms have "abnormal (fst (CreateBridgePort nl s inp st))"
    by (auto simp: andthen_def try_else_def fail_def split: prod.splits res.splits)
  then show ?thesis by (simp add: CreateReq create_abnormal_iff)
next
  case (DeleteReq n)
  then show ?thesis using assms delete_not_abnormal [OF assms(2), of n]
    by (auto simp: andthen_def try_else_def fail_def split: prod.splits res.splits)
qed (use assms in \<open>auto simp: UpdateBridgePort_def GetBridgePort_def ListBridgePorts_def\<close>)

lemma create_exitless: "exitless (CreateBridgePort nl s inp)"
proof -
  have "exitless (CreateBridgePort nl s (Some bp))" if "valid_request bp spec vlan" for bp spec vlan
    using total_exitless [OF create_body_total [OF that]]
    by (auto simp: exitless_def wp_iff create_valid [OF that])
  moreover have "exitless (CreateBridgePort nl s (Some bp))" if "\<nexists>spec vlan. valid_request bp spec vlan" for bp
    unfolding exitless_def wp_iff by (metis create_invalid [OF that] fst_conv)
  moreover have "exitless (CreateBridgePort nl s None)" by (simp add: CreateBridgePort_def exitless_basic)
  ultimately show ?thesis by (metis option.exhaust)
qed

lemma handle_outcome:
  assumes "ports_wf (Ports st)"
  shows "wp (handle nl s rq) (\<lambda>r st'. ports_wf (Ports st') \<and> (abnormal r \<longrightarrow> deadly (Rpc rq) \<and> (\<forall>p. r \<noteq> Exit p))) st"
proof (rule wpI)
  fix r st' assume run: "handle nl s rq st = (r, st')"
  have "r \<noteq> Exit p" for p
  proof (cases rq)
    case (CreateReq inp)
    have "exitless (handle nl s rq)" by (simp add: CreateReq create_exitless exitless_intros)
    with run show ?thesis by (simp add: exitless_def wp_iff) (metis fst_conv)
  next
    case (DeleteReq n)
    with run show ?thesis using delete_not_abnormal [OF assms, of n]
      by (auto simp: andthen_def try_else_def fail_def split: prod.splits res.splits)
  qed (use run in \<open>auto simp: UpdateBridgePort_def GetBridgePort_def ListBridgePorts_def\<close>)
  with run show "ports_wf (Ports st') \<and> (abnormal r \<longrightarrow> deadly (Rpc rq) \<and> (\<forall>p. r \<noteq> Exit p))"
    using handle_ports_wf [OF run assms] handle_abnormal [OF run assms] by blast
qed

end

abbreviation the_server where
  "the_server nl exec ctl environ gs gi \<equiv> fst (rootCmd_plugin nl exec ctl environ gs gi)"

lemma serve_events_ok:
  assumes "ports_wf (Ports (service st))" "listener st = None"
  shows "wp (serve_events x nl net h (the_server nl exec ctl environ gs gi) lc es) (run_ok es) st"
  using assms
proof (induction es arbitrary: st)
  case Nil
  then show ?case by (simp add: wp_rules run_ok_def)
next
  case (Cons e es)
  note IH = Cons.IH [THEN wp_mono]
  have mono: "run_ok es r st' \<Longrightarrow> run_ok (e # es) r st'" for r and st' :: "'a os_scheme plugin_state"
    by (auto simp: run_ok_def split: res.splits)
  show ?case
  proof (cases e)
    case (Rpc rq)
    show ?thesis
      unfolding Rpc serve_events.simps wp_andthen wp_ignore wp_zoom
      by (rule wp_mono [OF plugin.handle_outcome [OF Cons.prems(1)]])
        (use Cons.prems in \<open>auto simp: run_ok_def Rpc abnormal_iff intro!: IH mono [unfolded Rpc] split: res.split\<close>)
  next
    case (InitRpc dpu)
    show ?thesis
      unfolding InitRpc serve_events.simps wp_andthen wp_ignore wp_zoom
      by (rule wp_mono [OF Init_exitless [unfolded exitless_def, rule_format]])
        (use Cons.prems in \<open>auto simp: run_ok_def InitRpc intro!: IH mono [unfolded InitRpc] split: res.split\<close>)
  qed (use Cons.prems in \<open>auto simp: wp_rules run_ok_def Fatal_def plugin_Stop_def\<close>)
qed

text \<open>\<open>logInit\<close> touches the logger and the files only.\<close>

lemma logInit_outcome:
  "wp (logInit x d l) (\<lambda>r st'. (\<forall>p. r \<noteq> Exit p \<and> r \<noteq> Panic p)) st"
  unfolding logInit_def Let_def
  by (cases "run_ParseLevel x l")
    (auto simp: wp_rules simp del: andthen_modify andthen_known split: prod.split sum.split res.split)

lemma ensure_outcome:
  "wp (EnsureBridgeExists (bridgeCtlr (the_server nl exec ctl environ gs gi))) (\<lambda>r _. \<not> abnormal r) w"
  using plugin.ctl.ensure_total [of nl exec ctl environ gs gi] by (auto simp: total_wp)

lemma getListener_outcome:
  "wp (getListener x s) (\<lambda>r _. case r of Ok _ \<Rightarrow> servingProto s \<in> {''unix'', ''tcp''} | Err _ \<Rightarrow> servingProto s \<noteq> ''tcp''
     | Exit p \<Rightarrow> p = exit_status 1 | Panic _ \<Rightarrow> False) w"
  unfolding getListener_def cleanUp_def Fatal_def by (auto simp: wp_rules split: prod.split sum.split)

definition process_ok :: "string \<Rightarrow> run_event list \<Rightarrow> bool res \<Rightarrow> 'w plugin_state \<Rightarrow> bool" where
  "process_ok proto es r st \<longleftrightarrow> (case r of
     Ok _ \<Rightarrow> ports_wf (Ports (service st)) \<and> listener st = None \<and> proto \<in> {''unix'', ''tcp''}
   | Err _ \<Rightarrow> False | Exit m \<Rightarrow> m \<in> {exit_status 1, exit_status 3, exit_status 4} | Panic _ \<Rightarrow> \<exists>e \<in> set es. deadly e)"

lemma process_ok_exit [simp]:
  "process_ok p es (Exit (exit_status 1)) st" "process_ok p es (Exit (exit_status 3)) st"
  "process_ok p es (Exit (exit_status 4)) st" "\<not> process_ok p es (Err e) st"
  by (simp_all add: process_ok_def)

definition run_post :: "string \<Rightarrow> run_event list \<Rightarrow> bool res \<Rightarrow> 'w plugin_state \<Rightarrow> bool" where
  "run_post proto es r st \<longleftrightarrow> (case r of Err _ \<Rightarrow> True | _ \<Rightarrow> process_ok proto es r st)"

definition fresh :: "'w plugin_state \<Rightarrow> bool" where
  "fresh st \<longleftrightarrow> ports_wf (Ports (service st)) \<and> listener st = None"

lemma fresh_env [simp]: "fresh (st\<lparr>service := service st\<lparr>env := w\<rparr>\<rparr>) = fresh st"
  by (simp add: fresh_def)

lemma plugin_Run_outcome:
  assumes "fresh st"
  shows "wp (plugin_Run x nl net h (the_server nl exec ctl environ gs gi) es) (run_post (gs ''servingProto'') es) st"
proof -
  let ?s = "the_server nl exec ctl environ gs gi"
  let ?Q = "run_post (gs ''servingProto'') es"
  have proto: "servingProto ?s = gs ''servingProto''"
    by (simp add: rootCmd_plugin_def NewIpuPlugin_def Let_def split: prod.split)
  have fatal: "?Q (Exit (exit_status 1)) st'" for st' by (simp add: run_post_def)
  have bridge: "wp (try_else (on_host_env (EnsureBridgeExists (bridgeCtlr ?s))) (\<lambda>err. Fatal) (\<lambda>_. serve_events x nl net h ?s lc es)) ?Q st'"
    if p: "servingProto ?s \<in> {''unix'', ''tcp''}" and st': "fresh st'" for lc st'
  proof -
    have events: "wp (serve_events x nl net h ?s lc es) ?Q u" if "fresh u" for u
      by (rule wp_mono [OF serve_events_ok])
        (use that p in \<open>auto simp: fresh_def proto run_ok_def run_post_def process_ok_def split: res.splits\<close>)
    show ?thesis
      unfolding wp_try_else wp_zoom
      by (rule wp_mono [OF ensure_outcome]) (simp add: abnormal_iff Fatal_def wp_exit fatal events st' split: res.split)
  qed
  show ?thesis
    unfolding plugin_Run_def wp_check wp_zoom
  proof (rule wp_mono [OF getListener_outcome])
    fix r w'
    assume "case r of Ok _ \<Rightarrow> servingProto ?s \<in> {''unix'', ''tcp''} | Err _ \<Rightarrow> servingProto ?s \<noteq> ''tcp''
      | Exit p \<Rightarrow> p = exit_status 1 | Panic _ \<Rightarrow> False"
    then show "case r of Ok a \<Rightarrow> wp (try_else (on_host_env (EnsureBridgeExists (bridgeCtlr ?s))) (\<lambda>err. Fatal)
          (\<lambda>_. serve_events x nl net h ?s (NewLifeCycleService (daemonHostIp ?s) (daemonIpuIp ?s) (daemonPort ?s) (mode ?s)) es))
          ?Q (st\<lparr>service := service st\<lparr>env := w'\<rparr>\<rparr>)
      | Err e \<Rightarrow> ?Q (Err (Errorf ''unable to run IPU plugin'' [])) (st\<lparr>service := service st\<lparr>env := w'\<rparr>\<rparr>)
      | Panic p \<Rightarrow> ?Q (Panic p) (st\<lparr>service := service st\<lparr>env := w'\<rparr>\<rparr>)
      | Exit p \<Rightarrow> ?Q (Exit p) (st\<lparr>service := service st\<lparr>env := w'\<rparr>\<rparr>)"
      by (cases r) (simp_all only: res.case bridge fresh_env assms fatal, simp_all add: run_post_def)
  qed
qed

lemma plugin_Execute_outcome:
  assumes "parse = Inr (gs, gi, md)"
  shows "wp (plugin_Execute x nl exec ctl environ net h parse es)
    (\<lambda>r st'. process_ok (gs ''servingProto'') es r st' \<and> (is_Ok r \<longrightarrow> md \<in> {''host'', ''ipu''})) st"
proof (cases "md \<in> {''host'', ''ipu''}")
  case True
  obtain s where new: "rootCmd_plugin nl exec ctl environ gs gi = (s, Map.empty)"
    using rootCmd_plugin_fields(3) [of nl exec ctl environ gs gi] by (metis prod.collapse)
  have run: "wp (try_else (plugin_Run x nl net h s es) (\<lambda>err. exitWithError err 4) ret)
      (process_ok (gs ''servingProto'') es) st'" if "fresh st'" for st'
    unfolding wp_try_else
    by (rule wp_mono [OF plugin_Run_outcome [OF that, of x nl net h exec ctl environ gs gi es, unfolded new fst_conv]])
      (simp add: exitWithError_def wp_ret wp_exit run_post_def split: res.splits)
  have "wp (rootCmd_Run x nl exec ctl environ net h gs gi es) (process_ok (gs ''servingProto'') es) st"
    unfolding rootCmd_Run_def new prod.case wp_try_else [of "logInit _ _ _"]
    by (rule wp_mono [OF logInit_outcome])
      (auto simp: exitWithError_def wp_exit wp_andthen wp_zoom wp_modify fresh_def ports_wf_def
        simp del: andthen_modify andthen_known split: res.split intro!: run [unfolded exitWithError_def])
  then show ?thesis
    using True assms by (auto simp: plugin_Execute_def validateConfigs_def wp_rules elim: wp_mono)
next
  case False
  then show ?thesis
    using assms by (auto simp: plugin_Execute_def validateConfigs_def exitWithError_def wp_rules process_ok_def)
qed


end
