(* ===== verification/PluginConfig.thy ===== *)
theory PluginConfig
  imports PluginRun
begin

text \<open>
  \<open>ipu-plugin/ipuplugin/cmd/rootcmd.go\<close>, the configuration: the variable \<open>config\<close>, the function \<open>init\<close>
  that declares and binds the flags, \<open>initConfig\<close>, and the whole command from \<open>init\<close> to the end of the
  process. The libraries \<open>cobra\<close>, \<open>pflag\<close> and \<open>viper\<close> are arguments (\<open>cli_ext\<close>) on a state of their own;
  what the code relies on of their documentation is \<open>documented\<close>.
\<close>

section \<open>State\<close>

text \<open>The fields of the variable \<open>config\<close>.\<close>

record Config =
  config_cfgFile :: string
  config_port :: int
  config_servingAddr :: string
  config_servingProto :: string
  config_bridge :: string
  config_interfaceName :: string
  config_logDir :: string
  config_ovsCliDir :: string
  config_bridgeType :: string
  config_p4rtbin :: string
  config_portMuxVsi :: int
  config_verbosity :: string
  config_mode :: string
  config_daemonHostIp :: string
  config_daemonIpuIp :: string
  config_daemonPort :: int

definition zero_Config :: Config where
  "zero_Config = \<lparr>config_cfgFile = [], config_port = 0, config_servingAddr = [], config_servingProto = [],
     config_bridge = [], config_interfaceName = [], config_logDir = [], config_ovsCliDir = [], config_bridgeType = [],
     config_p4rtbin = [], config_portMuxVsi = 0, config_verbosity = [], config_mode = [], config_daemonHostIp = [],
     config_daemonIpuIp = [], config_daemonPort = 0\<rparr>"

text \<open>The variable each flag writes to: \<open>StringVar(&config.\<dots>, name, \<dots>)\<close>.\<close>

fun assign_flag :: "string \<times> flag_value \<Rightarrow> Config \<Rightarrow> Config" where
  "assign_flag (f, FlagString s) c =
    (if f = ''config'' then c\<lparr>config_cfgFile := s\<rparr>
     else if f = ''logDir'' then c\<lparr>config_logDir := s\<rparr>
     else if f = ''servingAddr'' then c\<lparr>config_servingAddr := s\<rparr>
     else if f = ''servingProto'' then c\<lparr>config_servingProto := s\<rparr>
     else if f = ''interface'' then c\<lparr>config_interfaceName := s\<rparr>
     else if f = ''bridge'' then c\<lparr>config_bridge := s\<rparr>
     else if f = ''ovsCliDir'' then c\<lparr>config_ovsCliDir := s\<rparr>
     else if f = ''bridgeType'' then c\<lparr>config_bridgeType := s\<rparr>
     else if f = ''p4rtbin'' then c\<lparr>config_p4rtbin := s\<rparr>
     else if f = ''verbosity'' then c\<lparr>config_verbosity := s\<rparr>
     else if f = ''mode'' then c\<lparr>config_mode := s\<rparr>
     else if f = ''daemonHostIp'' then c\<lparr>config_daemonHostIp := s\<rparr>
     else if f = ''daemonIpuIp'' then c\<lparr>config_daemonIpuIp := s\<rparr>
     else c)"
| "assign_flag (f, FlagInt i) c =
    (if f = ''port'' then c\<lparr>config_port := i\<rparr>
     else if f = ''portMuxVsi'' then c\<lparr>config_portMuxVsi := i\<rparr>
     else if f = ''daemonPort'' then c\<lparr>config_daemonPort := i\<rparr>
     else c)"

text \<open>
  The libraries. \<open>view\<close> is what their documentation speaks of: the flags that are declared, with their defaults, those marked
  as required, the keys bound to a flag, and the values given on the command line.
\<close>

record flag_view =
  declared :: "string \<rightharpoonup> flag_value"
  required :: "string set"
  bound :: "string set"
  given :: "string \<rightharpoonup> flag_value"

record 'v cli_ext =
  cli_view :: "'v \<Rightarrow> flag_view"
  StringVar :: "string \<Rightarrow> string \<Rightarrow> 'v \<Rightarrow> 'v"
  IntVar :: "string \<Rightarrow> int \<Rightarrow> 'v \<Rightarrow> 'v"
  MarkPersistentFlagRequired :: "string \<Rightarrow> ('v, unit) ext"
  Lookup :: "'v \<Rightarrow> string \<Rightarrow> string option"
  BindPFlag :: "string \<Rightarrow> string option \<Rightarrow> ('v, unit) ext"
  ParseFlags :: "('v, (string \<times> flag_value) list) ext"
  SetConfigFile :: "string \<Rightarrow> 'v \<Rightarrow> 'v"
  AddConfigPath :: "string \<Rightarrow> 'v \<Rightarrow> 'v"
  SetConfigType :: "string \<Rightarrow> 'v \<Rightarrow> 'v"
  SetConfigName :: "string \<Rightarrow> 'v \<Rightarrow> 'v"
  AutomaticEnv :: "'v \<Rightarrow> 'v"
  ReadInConfig :: "('v, unit) ext"
  ValidateRequiredFlags :: "'v \<Rightarrow> error + unit"
  cli_GetString :: "'v \<Rightarrow> string \<Rightarrow> string"
  cli_GetInt :: "'v \<Rightarrow> string \<Rightarrow> int"

record ('v, 'w) cli_state =
  cfg :: Config
  cli :: 'v
  host :: 'w

abbreviation on_cli :: "('v, 'a) prog \<Rightarrow> (('v, 'w) cli_state, 'a) prog" where
  "on_cli \<equiv> zoom cli cli_update"

section \<open>\<open>init\<close> and \<open>initConfig\<close>\<close>

fun declare_flag :: "'v cli_ext \<Rightarrow> string \<times> flag_value \<Rightarrow> 'v \<Rightarrow> 'v" where
  "declare_flag x (f, FlagString s) = StringVar x f s"
| "declare_flag x (f, FlagInt i) = IntVar x f i"

definition bind_flag :: "'v cli_ext \<Rightarrow> string \<Rightarrow> (('v, 'w) cli_state, unit) prog" where
  "bind_flag x f = andthen (on_cli (gets (\<lambda>v. Lookup x v f))) (\<lambda>flag.
     try_else (on_cli (call (BindPFlag x f flag))) (\<lambda>err. exit_process (exit_status 1)) ret)"

text \<open>Declaring a flag sets its variable to the default.\<close>

definition init_flags :: "'v cli_ext \<Rightarrow> (('v, 'w) cli_state, unit) prog" where
  "init_flags x =
     andthen (for_each persistentFlags (\<lambda>fl. andthen (on_cli (modify (declare_flag x fl))) (\<lambda>_. modify (cfg_update (assign_flag fl))))) (\<lambda>_.
     try_else (on_cli (call (MarkPersistentFlagRequired x ''mode''))) (\<lambda>err. exitWithError err 1) (\<lambda>_.
     for_each flagList (bind_flag x)))"

definition configFilePath :: string where "configFilePath = ''/etc/ipu/''"

definition initConfig :: "'v cli_ext \<Rightarrow> (('v, 'w) cli_state, unit) prog" where
  "initConfig x =
     andthen (gets cfg) (\<lambda>config.
     andthen (if config_cfgFile config \<noteq> [] then on_cli (modify (SetConfigFile x (config_cfgFile config)))
       else andthen (on_cli (modify (AddConfigPath x configFilePath))) (\<lambda>_.
            andthen (on_cli (modify (SetConfigType x ''yaml''))) (\<lambda>_.
            on_cli (modify (SetConfigName x ''ipuplugin.yaml''))))) (\<lambda>_.
     andthen (on_cli (modify (AutomaticEnv x))) (\<lambda>_.
     ignore (on_cli (call (ReadInConfig x))))))"

section \<open>The command\<close>

text \<open>What \<open>cobra\<close> does before \<open>PreRunE\<close>: it parses the flags, runs \<open>initConfig\<close> and looks for the required flags.\<close>

definition parse_args :: "'v cli_ext \<Rightarrow> (('v, 'w) cli_state, unit) prog" where
  "parse_args x =
     andthen (on_cli (call (ParseFlags x))) (\<lambda>l.
     andthen (modify (cfg_update (fold assign_flag l))) (\<lambda>_.
     andthen (initConfig x) (\<lambda>_.
     on_cli (ask (ValidateRequiredFlags x)))))"

text \<open>\<open>Execute\<close>, with what \<open>cobra\<close> reads.\<close>

definition cmd_Execute :: "'v cli_ext \<Rightarrow> 'z os_scheme run_ext \<Rightarrow> 'z os_scheme netlink_fns \<Rightarrow> 'z os_scheme runner \<Rightarrow>
    'z os_scheme ctl_runner \<Rightarrow> string list \<Rightarrow> 'z os_scheme NetworkHandler \<Rightarrow> 'z os_scheme handlers \<Rightarrow> run_event list \<Rightarrow>
    (('v, 'z os_scheme plugin_state) cli_state, bool) prog" where
  "cmd_Execute c x nl exec ctl environ net h es =
     try_else (parse_args c)
       (\<lambda>err. zoom host host_update (plugin_Execute x nl exec ctl environ net h (Inl err) es)) (\<lambda>_.
     andthen (gets (\<lambda>st. (cli st, config_mode (cfg st)))) (\<lambda>(v, md).
     zoom host host_update (plugin_Execute x nl exec ctl environ net h (Inr (cli_GetString c v, cli_GetInt c v, md)) es)))"

text \<open>The program: the package's \<open>init\<close>, then \<open>main\<close>.\<close>

definition plugin_main :: "'v cli_ext \<Rightarrow> 'z os_scheme run_ext \<Rightarrow> 'z os_scheme netlink_fns \<Rightarrow> 'z os_scheme runner \<Rightarrow>
    'z os_scheme ctl_runner \<Rightarrow> string list \<Rightarrow> 'z os_scheme NetworkHandler \<Rightarrow> 'z os_scheme handlers \<Rightarrow> run_event list \<Rightarrow>
    (('v, 'z os_scheme plugin_state) cli_state, bool) prog" where
  "plugin_main c x nl exec ctl environ net h es =
     andthen (init_flags c) (\<lambda>_. cmd_Execute c x nl exec ctl environ net h es)"

section \<open>What the libraries document\<close>

text \<open>
  \<^item> Declaring a flag makes it known to \<open>Lookup\<close>; a declared flag can be marked as required and bound to
    a key; \<open>BindPFlag\<close> fails for a nil flag only.
  \<^item> Parsing yields the assignments of the command line in their order, each of the type the flag was
    declared with; the last one of a flag is its value. \<open>ValidateRequiredFlags\<close> reports a required
    flag that was not given.
  \<^item> The operations on the configuration file and the environment leave the flags alone; the value of a
    key whose flag was given on the command line is that flag's (\<open>viper\<close>'s order of precedence).
\<close>

fun same_kind :: "flag_value \<Rightarrow> flag_value \<Rightarrow> bool" where
  "same_kind (FlagString _) (FlagString _) = True"
| "same_kind (FlagInt _) (FlagInt _) = True"
| "same_kind _ _ = False"

definition documented_flags :: "'v cli_ext \<Rightarrow> bool" where
  "documented_flags x \<longleftrightarrow>
    (\<forall>f s v. cli_view x (StringVar x f s v) = declared_update (\<lambda>m. m(f \<mapsto> FlagString s)) (cli_view x v)) \<and>
    (\<forall>f i v. cli_view x (IntVar x f i v) = declared_update (\<lambda>m. m(f \<mapsto> FlagInt i)) (cli_view x v)) \<and>
    (\<forall>f v. Lookup x v f = (if f \<in> dom (declared (cli_view x v)) then Some f else None)) \<and>
    (\<forall>f v. f \<in> dom (declared (cli_view x v)) \<longrightarrow> (\<exists>v'. MarkPersistentFlagRequired x f v = (Inr (), v') \<and>
       cli_view x v' = required_update (insert f) (cli_view x v))) \<and>
    (\<forall>f v. \<exists>v'. BindPFlag x f (Some f) v = (Inr (), v') \<and> cli_view x v' = bound_update (insert f) (cli_view x v))"

definition documented_parse :: "'v cli_ext \<Rightarrow> bool" where
  "documented_parse x \<longleftrightarrow>
    (\<forall>v l v'. ParseFlags x v = (Inr l, v') \<longrightarrow> cli_view x v' = (cli_view x v)\<lparr>given := map_of (rev l)\<rparr> \<and>
       (\<forall>(f, a) \<in> set l. \<exists>d. declared (cli_view x v) f = Some d \<and> same_kind a d)) \<and>
    (\<forall>v. ValidateRequiredFlags x v = Inr () \<longrightarrow> required (cli_view x v) \<subseteq> dom (given (cli_view x v)))"

definition documented_viper :: "'v cli_ext \<Rightarrow> bool" where
  "documented_viper x \<longleftrightarrow>
    (\<forall>p v. cli_view x (SetConfigFile x p v) = cli_view x v \<and> cli_view x (AddConfigPath x p v) = cli_view x v \<and>
       cli_view x (SetConfigType x p v) = cli_view x v \<and> cli_view x (SetConfigName x p v) = cli_view x v \<and>
       cli_view x (AutomaticEnv x v) = cli_view x v \<and> cli_view x (snd (ReadInConfig x v)) = cli_view x v) \<and>
    (\<forall>v k s. k \<in> bound (cli_view x v) \<longrightarrow> given (cli_view x v) k = Some (FlagString s) \<longrightarrow> cli_GetString x v k = s)"

definition no_flags :: flag_view where
  "no_flags = \<lparr>declared = Map.empty, required = {}, bound = {}, given = Map.empty\<rparr>"

section \<open>\<open>init\<close> declares and binds every flag\<close>

text \<open>The variable \<open>config\<close> after \<open>init\<close>.\<close>

definition default_Config :: Config where
  "default_Config = \<lparr>config_cfgFile = [], config_port = 50152, config_servingAddr = ''/var/run/vendor-plugin.sock'',
     config_servingProto = ''unix'', config_bridge = ''br-tenant'', config_interfaceName = [],
     config_logDir = ''/var/log/ipuplugin'', config_ovsCliDir = ''/opt/p4/p4-cp-nws/bin'', config_bridgeType = ''linux'',
     config_p4rtbin = ''/opt/p4/p4-cp-nws/bin/p4rt-ctl'', config_portMuxVsi = 10, config_verbosity = ''info'',
     config_mode = [], config_daemonHostIp = ''192.168.1.1'', config_daemonIpuIp = ''192.168.1.2'', config_daemonPort = 50151\<rparr>"

lemma assign_defaults: "fold assign_flag persistentFlags c = default_Config"
  by (simp add: persistentFlags_def default_Config_def)

lemma run_andthen: "m st = (Ok a, st1) \<Longrightarrow> andthen m k st = k a st1"
  by (simp add: andthen_def try_else_def)

lemma run_try_else:
  "m st = (Ok a, st1) \<Longrightarrow> try_else m h k st = k a st1"
  "m st = (Err e, st1) \<Longrightarrow> try_else m h k st = h e st1"
  by (simp_all add: try_else_def)

lemma declare_all:
  "for_each fls (\<lambda>fl. andthen (on_cli (modify (declare_flag x fl))) (\<lambda>_. modify (cfg_update (assign_flag fl)))) st =
    (Ok (), st\<lparr>cfg := fold assign_flag fls (cfg st), cli := fold (declare_flag x) fls (cli st)\<rparr>)"
proof (induction fls arbitrary: st)
  case (Cons fl fls)
  have "andthen (on_cli (modify (declare_flag x fl))) (\<lambda>_. modify (cfg_update (assign_flag fl))) st =
      (Ok (), st\<lparr>cfg := assign_flag fl (cfg st), cli := declare_flag x fl (cli st)\<rparr>)" for st :: "('a, 'b) cli_state"
    by (cases st) (simp add: andthen_def try_else_def zoom_def modify_def)
  then show ?case by (cases st) (simp add: run_andthen Cons.IH)
qed (simp add: ret_def)

lemma declare_view:
  assumes "documented_flags x"
  shows "cli_view x (fold (declare_flag x) fls v) = declared_update (\<lambda>m. m ++ map_of (rev fls)) (cli_view x v)"
proof (induction fls arbitrary: v)
  case (Cons fl fls)
  have "cli_view x (declare_flag x fl v) = declared_update (\<lambda>m. m(fst fl \<mapsto> snd fl)) (cli_view x v)" for v
    using assms by (cases "(x, fl)" rule: declare_flag.cases) (auto simp: documented_flags_def)
  then show ?case by (cases fl) (simp add: Cons.IH o_def map_add_assoc [symmetric])
qed simp

lemma bind_all:
  assumes "documented_flags x" "set fs \<subseteq> dom (declared (cli_view x (cli st)))"
  shows "\<exists>v. for_each fs (bind_flag x) st = (Ok (), st\<lparr>cli := v\<rparr>) \<and>
    cli_view x v = bound_update (\<lambda>b. set fs \<union> b) (cli_view x (cli st))"
  using assms(2)
proof (induction fs arbitrary: st)
  case (Cons f fs)
  have look: "Lookup x (cli st) f = Some f" using assms(1) Cons.prems by (auto simp: documented_flags_def)
  obtain v where v: "BindPFlag x f (Some f) (cli st) = (Inr (), v)" "cli_view x v = bound_update (insert f) (cli_view x (cli st))"
    using assms(1) unfolding documented_flags_def by blast
  have one: "bind_flag x f st = (Ok (), st\<lparr>cli := v\<rparr>)"
    by (simp add: bind_flag_def andthen_def try_else_def zoom_def gets_def call_def look v(1) ret_def)
  obtain u where "for_each fs (bind_flag x) (st\<lparr>cli := v\<rparr>) = (Ok (), st\<lparr>cli := u\<rparr>)"
    "cli_view x u = bound_update (\<lambda>b. set fs \<union> b) (cli_view x v)"
    using Cons.IH [of "st\<lparr>cli := v\<rparr>"] Cons.prems v(2) by auto
  with v(2) show ?case by (intro exI [of _ u]) (simp add: run_andthen [of "bind_flag x f", OF one] o_def)
next
  case Nil
  show ?case by (intro exI [of _ "cli st"]) (simp add: ret_def)
qed

text \<open>The flags of the source have different names, and every name of the list of flags is one of them.\<close>

lemma flags_distinct: "map_of (rev persistentFlags) = map_of persistentFlags"
  by (simp add: persistentFlags_def fun_eq_iff)

lemma flags_listed: "set flagList = fst ` set persistentFlags - {''config''}"
  by (auto simp: persistentFlags_def flagList_def)

lemma init_flags_run:
  assumes lib: "documented_flags x" and new: "cli_view x (cli st) = no_flags"
  shows "\<exists>v. init_flags x st = (Ok (), st\<lparr>cfg := default_Config, cli := v\<rparr>) \<and>
    cli_view x v = \<lparr>declared = map_of persistentFlags, required = {''mode''}, bound = set flagList, given = Map.empty\<rparr>"
proof -
  let ?v0 = "fold (declare_flag x) persistentFlags (cli st)"
  have v0: "cli_view x ?v0 = no_flags\<lparr>declared := map_of persistentFlags\<rparr>"
    by (simp add: declare_view [OF lib] new no_flags_def flags_distinct)
  have mode: "''mode'' \<in> dom (map_of persistentFlags)" by (simp add: persistentFlags_def)
  have mark: "\<exists>v'. MarkPersistentFlagRequired x f v = (Inr (), v') \<and> cli_view x v' = required_update (insert f) (cli_view x v)"
    if "f \<in> dom (declared (cli_view x v))" for f v
    using lib that unfolding documented_flags_def by blast
  have "\<exists>v'. MarkPersistentFlagRequired x ''mode'' ?v0 = (Inr (), v') \<and>
      cli_view x v' = required_update (insert ''mode'') (cli_view x ?v0)"
    by (rule mark) (use v0 mode in \<open>simp add: no_flags_def\<close>)
  then obtain v1 where v1: "MarkPersistentFlagRequired x ''mode'' ?v0 = (Inr (), v1)"
    "cli_view x v1 = no_flags\<lparr>declared := map_of persistentFlags, required := {''mode''}\<rparr>"
    by (auto simp: v0 no_flags_def)
  let ?st1 = "st\<lparr>cfg := default_Config, cli := v1\<rparr>"
  have "set flagList \<subseteq> dom (declared (cli_view x (cli ?st1)))"
    using flags_listed by (auto simp: v1(2) dom_map_of_conv_image_fst)
  from bind_all [OF lib this] obtain v where v: "for_each flagList (bind_flag x) ?st1 = (Ok (), ?st1\<lparr>cli := v\<rparr>)"
    "cli_view x v = bound_update (\<lambda>b. set flagList \<union> b) (cli_view x v1)" by auto
  have "init_flags x st = try_else (on_cli (call (MarkPersistentFlagRequired x ''mode''))) (\<lambda>err. exitWithError err 1)
      (\<lambda>_. for_each flagList (bind_flag x)) (st\<lparr>cfg := default_Config, cli := ?v0\<rparr>)"
    unfolding init_flags_def by (subst run_andthen [OF declare_all]) (simp add: assign_defaults)
  also have "\<dots> = (Ok (), ?st1\<lparr>cli := v\<rparr>)"
    using v(1) by (simp add: try_else_def zoom_def call_def v1(1))
  finally show ?thesis using v(2) by (intro exI [of _ v]) (simp add: v1(2) no_flags_def)
qed


section \<open>The mode that was checked is the mode that is used\<close>

lemma initConfig_run:
  assumes "documented_viper x"
  shows "\<exists>v. initConfig x st = (Ok (), st\<lparr>cli := v\<rparr>) \<and> cli_view x v = cli_view x (cli st)"
proof -
  have lib: "cli_view x (SetConfigFile x p v) = cli_view x v" "cli_view x (AddConfigPath x p v) = cli_view x v"
    "cli_view x (SetConfigType x p v) = cli_view x v" "cli_view x (SetConfigName x p v) = cli_view x v"
    "cli_view x (AutomaticEnv x v) = cli_view x v" for p v
    using assms by (auto simp: documented_viper_def)
  have read: "cli_view x v' = cli_view x v" if "ReadInConfig x v = (r, v')" for v r v'
    using assms that unfolding documented_viper_def by (metis snd_conv)
  have "wp (initConfig x) (\<lambda>r st'. r = Ok () \<and> (\<exists>v. st' = st\<lparr>cli := v\<rparr> \<and> cli_view x v = cli_view x (cli st))) st"
    unfolding initConfig_def
    using lib by (cases st) (auto simp: wp_rules dest!: read simp del: andthen_modify andthen_known split: prod.split sum.split)
  then show ?thesis by (auto simp: wp_iff prod_eq_iff)
qed

lemma mode_assigned:
  "map_of (rev l) ''mode'' = Some (FlagString s) \<Longrightarrow> \<forall>(f, a) \<in> set l. f = ''mode'' \<longrightarrow> (\<exists>s. a = FlagString s) \<Longrightarrow>
    config_mode (fold assign_flag l c) = s"
proof (induction l rule: rev_induct)
  case (snoc fl l)
  then show ?case by (cases fl; cases "snd fl") (auto split: if_splits)
qed simp

lemma parse_args_run:
  assumes lib: "documented_parse x" "documented_viper x"
    and st: "cli_view x (cli st) = \<lparr>declared = map_of persistentFlags, required = {''mode''}, bound = set flagList, given = Map.empty\<rparr>"
  shows "\<exists>v md r. parse_args x st = (r, st\<lparr>cfg := md, cli := v\<rparr>) \<and> \<not> abnormal r \<and>
    (is_Ok r \<longrightarrow> cli_GetString x v ''mode'' = config_mode md)"
proof (cases "ParseFlags x (cli st)")
  case (Pair r0 v1)
  show ?thesis
  proof (cases r0)
    case (Inl e)
    with Pair have "parse_args x st = (Err e, st\<lparr>cfg := cfg st, cli := v1\<rparr>)"
      by (simp add: parse_args_def andthen_def try_else_def zoom_def call_def fail_def)
    then show ?thesis by (intro exI [of _ v1] exI [of _ "cfg st"] exI [of _ "Err e"]) simp
  next
    case (Inr l)
    have v1: "cli_view x v1 = (cli_view x (cli st))\<lparr>given := map_of (rev l)\<rparr>"
      and kinds: "\<forall>(f, a) \<in> set l. \<exists>d. map_of persistentFlags f = Some d \<and> same_kind a d"
      using lib(1) [unfolded documented_parse_def, THEN conjunct1, rule_format, of "cli st" l v1] Pair Inr st by auto
    let ?c = "fold assign_flag l (cfg st)"
    obtain v where v: "initConfig x (st\<lparr>cfg := ?c, cli := v1\<rparr>) = (Ok (), st\<lparr>cfg := ?c, cli := v\<rparr>)" "cli_view x v = cli_view x v1"
      using initConfig_run [OF lib(2), of "st\<lparr>cfg := ?c, cli := v1\<rparr>"] by auto
    have "parse_args x st = andthen (initConfig x) (\<lambda>_. on_cli (ask (ValidateRequiredFlags x))) (st\<lparr>cfg := ?c, cli := v1\<rparr>)"
      unfolding parse_args_def by (subst run_andthen [of "on_cli (call (ParseFlags x))" st l "st\<lparr>cli := v1\<rparr>"])
        (simp add: zoom_def call_def Pair Inr, cases st, simp)
    then have run: "parse_args x st = (of_sum (ValidateRequiredFlags x v), st\<lparr>cfg := ?c, cli := v\<rparr>)"
      by (simp add: run_andthen [of "initConfig x", OF v(1)] zoom_def ask_def)
    have "cli_GetString x v ''mode'' = config_mode ?c" if "ValidateRequiredFlags x v = Inr ()"
    proof -
      have "''mode'' \<in> dom (map_of (rev l))"
        using lib(1) that v(2) st by (auto simp: documented_parse_def v1 dest!: spec [of _ v])
      then obtain a where a: "map_of (rev l) ''mode'' = Some a" by blast
      have str: "\<forall>(f, a) \<in> set l. f = ''mode'' \<longrightarrow> (\<exists>s. a = FlagString s)"
        using kinds by (auto simp: persistentFlags_def elim!: same_kind.elims)
      with a obtain s where s: "a = FlagString s" using map_of_SomeD [OF a] by auto
      have "''mode'' \<in> bound (cli_view x v)" "given (cli_view x v) ''mode'' = Some (FlagString s)"
        using v(2) st a s by (simp_all add: v1 flagList_def)
      then have "cli_GetString x v ''mode'' = s" using lib(2) by (auto simp: documented_viper_def)
      then show ?thesis using mode_assigned [OF a [unfolded s] str] by simp
    qed
    then show ?thesis
      by (cases "ValidateRequiredFlags x v") (auto simp: run)
  qed
qed

text \<open>C19. The command line decides the mode, and the mode that is checked is the one that is used. Whatever the
  environment and the configuration file hold, a process that serves or has stopped at a signal has read
  from \<open>viper\<close>, where the lifecycle service gets it, the value of \<open>config.mode\<close> that \<open>validateConfigs\<close> has
  checked, \<open>host\<close> or \<open>ipu\<close>, though the two are different variables.\<close>

theorem mode_checked_is_mode_used:
  assumes "documented_flags c" "documented_parse c" "documented_viper c" "cli_view c (cli st) = no_flags"
    and run: "plugin_main c x nl exec ctl environ net h es st = (Ok b, st')"
  shows "cli_GetString c (cli st') ''mode'' = config_mode (cfg st') \<and> config_mode (cfg st') \<in> {''host'', ''ipu''} \<and>
    mode (fst (rootCmd_plugin nl exec ctl environ (cli_GetString c (cli st')) (cli_GetInt c (cli st')))) = config_mode (cfg st')"
proof -
  obtain v0 where v0: "init_flags c st = (Ok (), st\<lparr>cfg := default_Config, cli := v0\<rparr>)"
    "cli_view c v0 = \<lparr>declared = map_of persistentFlags, required = {''mode''}, bound = set flagList, given = Map.empty\<rparr>"
    using init_flags_run [OF assms(1,4)] by blast
  let ?st0 = "st\<lparr>cfg := default_Config, cli := v0\<rparr>"
  obtain v md r where p: "parse_args c ?st0 = (r, ?st0\<lparr>cfg := md, cli := v\<rparr>)" "\<not> abnormal r"
    "is_Ok r \<longrightarrow> cli_GetString c v ''mode'' = config_mode md"
    using parse_args_run [OF assms(2,3), of ?st0] v0(2) by auto
  let ?ex = "\<lambda>parse. zoom host host_update (plugin_Execute x nl exec ctl environ net h parse es)"
  let ?st1 = "st\<lparr>cfg := md, cli := v\<rparr>"
  have main: "plugin_main c x nl exec ctl environ net h es st = try_else (parse_args c) (\<lambda>err. ?ex (Inl err))
      (\<lambda>_. andthen (gets (\<lambda>st. (cli st, config_mode (cfg st)))) (\<lambda>(v, md). ?ex (Inr (cli_GetString c v, cli_GetInt c v, md)))) ?st0"
    unfolding plugin_main_def run_andthen [of "init_flags c", OF v0(1)] cmd_Execute_def ..
  have "r = Ok () \<and> ?ex (Inr (cli_GetString c v, cli_GetInt c v, config_mode md)) ?st1 = (Ok b, st')"
  proof (cases r)
    case (Ok u)
    then have "plugin_main c x nl exec ctl environ net h es st = ?ex (Inr (cli_GetString c v, cli_GetInt c v, config_mode md)) ?st1"
      using p(1) unfolding main by (simp add: run_try_else(1) [of "parse_args c"])
    then show ?thesis using run Ok by simp
  next
    case (Err e)
    then have "plugin_main c x nl exec ctl environ net h es st = ?ex (Inl e) ?st1"
      using p(1) unfolding main by (simp add: run_try_else(2) [of "parse_args c"])
    then show ?thesis
      using run by (simp add: plugin_Execute_def exitWithError_def exit_process_def zoom_def)
  qed (use p(2) in simp_all)
  then obtain w where r: "r = Ok ()" and ex: "plugin_Execute x nl exec ctl environ net h
      (Inr (cli_GetString c v, cli_GetInt c v, config_mode md)) es (host st) = (Ok b, w)"
    and st': "st' = st\<lparr>cfg := md, cli := v, host := w\<rparr>"
    by (auto simp: zoom_Ok)
  have "config_mode md \<in> {''host'', ''ipu''}"
    using wpD [OF plugin_Execute_outcome [OF refl] ex] by simp
  moreover have "mode (fst (rootCmd_plugin nl exec ctl environ gs gi)) = gs ''mode''" for gs gi
    by (simp add: rootCmd_plugin_def NewIpuPlugin_def Let_def split: prod.split)
  ultimately show ?thesis using p(3) r st' by simp
qed

section \<open>A library and a run\<close>

text \<open>A library that behaves as documented, for a given command line; there is no configuration file.\<close>

definition demo_cli :: "(string \<times> flag_value) list \<Rightarrow> flag_view cli_ext" where
  "demo_cli l = \<lparr>
     cli_view = (\<lambda>v. v),
     StringVar = (\<lambda>f s. declared_update (\<lambda>m. m(f \<mapsto> FlagString s))),
     IntVar = (\<lambda>f i. declared_update (\<lambda>m. m(f \<mapsto> FlagInt i))),
     MarkPersistentFlagRequired = (\<lambda>f v. if declared v f = None then (Inl (Ext ''no such flag''), v) else (Inr (), required_update (insert f) v)),
     Lookup = (\<lambda>v f. if declared v f = None then None else Some f),
     BindPFlag = (\<lambda>k f v. if f = None then (Inl (Ext ''flag is nil''), v) else (Inr (), bound_update (insert k) v)),
     ParseFlags = (\<lambda>v. if list_all (\<lambda>(f, a). case declared v f of None \<Rightarrow> False | Some d \<Rightarrow> same_kind a d) l
       then (Inr l, v\<lparr>given := map_of (rev l)\<rparr>) else (Inl (Ext ''unknown flag''), v)),
     SetConfigFile = (\<lambda>p v. v), AddConfigPath = (\<lambda>p v. v), SetConfigType = (\<lambda>p v. v), SetConfigName = (\<lambda>p v. v),
     AutomaticEnv = (\<lambda>v. v),
     ReadInConfig = (\<lambda>v. (Inl (Ext ''Config File Not Found''), v)),
     ValidateRequiredFlags = (\<lambda>v. if required v \<subseteq> dom (given v) then Inr () else Inl (Ext ''required flag not set'')),
     cli_GetString = (\<lambda>v k. case given v k of Some (FlagString s) \<Rightarrow> s
       | _ \<Rightarrow> (case declared v k of Some (FlagString s) \<Rightarrow> s | _ \<Rightarrow> [])),
     cli_GetInt = (\<lambda>v k. case given v k of Some (FlagInt i) \<Rightarrow> i
       | _ \<Rightarrow> (case declared v k of Some (FlagInt i) \<Rightarrow> i | _ \<Rightarrow> 0))\<rparr>"

lemma demo_cli_documented:
  "documented_flags (demo_cli l)" "documented_parse (demo_cli l)" "documented_viper (demo_cli l)"
proof -
  show "documented_flags (demo_cli l)" by (auto simp: documented_flags_def demo_cli_def)
  show "documented_parse (demo_cli l)"
    by (auto simp: documented_parse_def demo_cli_def list_all_iff split: option.splits if_splits)
  show "documented_viper (demo_cli l)" by (simp add: documented_viper_def demo_cli_def)
qed

definition demo_line :: "(string \<times> flag_value) list" where
  "demo_line = [(''mode'', FlagString ''host''), (''servingProto'', FlagString ''tcp''), (''logDir'', FlagString ''/''),
     (''mode'', FlagString ''ipu'')]"

definition demo_host_nl :: "host_world netlink_fns" where
  "demo_host_nl = \<lparr>
     linkByNameFn = (\<lambda>n w. (Inr (new_Bridge\<lparr>Name := n\<rparr>), w)),
     linkAddFn = (\<lambda>l w. (Inr (), w)), linkDelFn = (\<lambda>l w. (Inr (), w)),
     linkSetUpFn = (\<lambda>l w. (Inr (), w)), linkSetDownFn = (\<lambda>l w. (Inr (), w)),
     linkSetMasterFn = (\<lambda>l m w. (Inr (), w)), linkSetNoMasterFn = (\<lambda>l w. (Inr (), w))\<rparr>"

definition demo_run_ext :: "host_world run_ext" where
  "demo_run_ext = \<lparr>run_Listen = (\<lambda>p a w. (Inr 3, w)), run_Close = (\<lambda>l w. w), run_GracefulStop = (\<lambda>w. w),
     run_VerifiedFilePath = (\<lambda>f d w. (Inr f, w)), run_ParseLevel = (\<lambda>l. Inr 4)\<rparr>"

definition demo_cli_state :: "(flag_view, host_world plugin_state) cli_state" where
  "demo_cli_state = \<lparr>cfg = zero_Config, cli = no_flags, host = \<lparr>service = \<lparr>Ports = Map.empty, env = demo_host\<rparr>,
     listener = None, plog = \<lparr>lg_writers = [], lg_level = 0, lg_caller = False\<rparr>\<rparr>\<rparr>"

abbreviation demo_main :: "run_event list \<Rightarrow> ((flag_view, host_world plugin_state) cli_state, bool) prog" where
  "demo_main \<equiv> plugin_main (demo_cli demo_line) demo_run_ext demo_host_nl (\<lambda>b ps w. (Inr (), w)) (\<lambda>b r e w. (Inr (), w)) []
     (demo_link_net []) default_handlers"

lemma demo_open: "\<exists>w. os_OpenAppend (Join [''/'', ''ipuplugin.log'']) demo_host = (Inr (), w)"
  by (simp add: os_OpenAppend_def Join_def Clean_def components_def is_abs_def abs_path_def demo_host_def resolve_def
      lookup_def demo_pf_files_def max_links_def)

lemma demo_execute:
  assumes "v = \<lparr>declared = map_of persistentFlags, required = {''mode''}, bound = set flagList, given = map_of (rev demo_line)\<rparr>"
  shows "\<exists>w. plugin_Execute demo_run_ext demo_host_nl (\<lambda>b ps w. (Inr (), w)) (\<lambda>b r e w. (Inr (), w)) [] (demo_link_net []) default_handlers
     (Inr (cli_GetString (demo_cli demo_line) v, gi, ''ipu'')) [] (host demo_cli_state) = (Ok False, w)"
proof -
  have gs: "cli_GetString (demo_cli demo_line) v ''mode'' = ''ipu''" "cli_GetString (demo_cli demo_line) v ''logDir'' = ''/''"
    "cli_GetString (demo_cli demo_line) v ''servingProto'' = ''tcp''" "cli_GetString (demo_cli demo_line) v ''bridge'' = ''br-tenant''"
    "cli_GetString (demo_cli demo_line) v ''bridgeType'' = ''linux''"
    by (simp_all add: demo_cli_def assms demo_line_def persistentFlags_def)
  obtain w where w: "os_OpenAppend (Join [''/'', ''ipuplugin.log'']) demo_host = (Inr (), w)" using demo_open by blast
  have dir: "os_MkdirAll ''/'' demo_host = (Inr (), demo_host)"
    by (simp add: os_MkdirAll_def components_def)
  show ?thesis
    by (simp add: plugin_Execute_def validateConfigs_def rootCmd_Run_def logInit_def run_try_else andthen_def try_else_def
      zoom_def call_def modify_def gets_def ret_def check_def Let_def gs w dir demo_run_ext_def demo_cli_state_def cliName_def
      DebugLevel_def rootCmd_plugin_def NewIpuPlugin_def getBridgeController_def plugin_Run_def getListener_def
      NewLinuxBridgeController_def linuxBridge_EnsureBridgeExists_def demo_host_nl_def new_Bridge_def zero_link_def split: prod.split)
qed

lemma demo_main_run: "\<exists>st'. demo_main [] demo_cli_state = (Ok False, st') \<and> config_mode (cfg st') = ''ipu''"
proof -
  let ?c = "demo_cli demo_line"
  obtain v where v: "init_flags ?c demo_cli_state = (Ok (), demo_cli_state\<lparr>cfg := default_Config, cli := v\<rparr>)"
    "v = \<lparr>declared = map_of persistentFlags, required = {''mode''}, bound = set flagList, given = Map.empty\<rparr>"
    using init_flags_run [OF demo_cli_documented(1) [of demo_line], of demo_cli_state]
    by (auto simp: demo_cli_state_def demo_cli_def)
  let ?v = "v\<lparr>given := map_of (rev demo_line)\<rparr>" and ?m = "fold assign_flag demo_line default_Config"
  let ?st = "demo_cli_state\<lparr>cfg := default_Config, cli := v\<rparr>"
  have parse: "ParseFlags ?c v = (Inr demo_line, ?v)"
    by (simp add: demo_cli_def demo_line_def v(2) persistentFlags_def)
  have valid: "ValidateRequiredFlags ?c ?v = Inr ()"
    by (simp add: demo_cli_def demo_line_def v(2))
  have same: "AutomaticEnv ?c u = u" "SetConfigType ?c p u = u" "SetConfigName ?c p u = u" "AddConfigPath ?c p u = u"
    "SetConfigFile ?c p u = u" "ReadInConfig ?c u = (Inl (Ext ''Config File Not Found''), u)" for p u
    by (simp_all add: demo_cli_def)
  have args: "parse_args ?c ?st = (Ok (), demo_cli_state\<lparr>cfg := ?m, cli := ?v\<rparr>)"
    by (simp add: parse_args_def initConfig_def andthen_def try_else_def zoom_def call_def parse modify_def gets_def
        ignore_def ask_def valid same ret_def demo_cli_state_def)
  let ?E = "plugin_Execute demo_run_ext demo_host_nl (\<lambda>b ps w. (Inr (), w)) (\<lambda>b r e w. (Inr (), w)) [] (demo_link_net []) default_handlers
     (Inr (cli_GetString ?c ?v, cli_GetInt ?c ?v, config_mode ?m)) []"
  have md: "config_mode ?m = ''ipu''" by (simp add: demo_line_def default_Config_def)
  obtain w where w: "?E (host demo_cli_state) = (Ok False, w)" using demo_execute [of ?v "cli_GetInt ?c ?v"] md v(2) by auto
  show ?thesis
    unfolding plugin_main_def run_andthen [of "init_flags ?c", OF v(1)] cmd_Execute_def
    by (simp add: run_try_else(1) [of "parse_args ?c", OF args] zoom_def w)
       (simp add: demo_cli_state_def w [unfolded demo_cli_state_def] md)
qed


lemma mode_checked_is_mode_used_witness:
  "\<exists>st'. demo_main [] demo_cli_state = (Ok False, st') \<and> cli_GetString (demo_cli demo_line) (cli st') ''mode'' = ''ipu''"
proof -
  obtain st' where run: "demo_main [] demo_cli_state = (Ok False, st')" "config_mode (cfg st') = ''ipu''"
    using demo_main_run by blast
  have "cli_view (demo_cli demo_line) (cli demo_cli_state) = no_flags" by (simp add: demo_cli_def demo_cli_state_def)
  from mode_checked_is_mode_used [OF demo_cli_documented this run(1)] run show ?thesis by auto
qed

end
