(* ===== verification/Threads.thy ===== *)
theory Threads
  imports Prelude "HOL-Library.Multiset"
begin

text \<open>
  Handlers that run at the same time. The gRPC server runs every request in a goroutine of its own, so a
  handler is not one step of the server: another handler may run between any two of its accesses to
  what they share. A \<open>thread\<close> is the rest of a handler, cut at those accesses: it has finished, or
  its next access turns the shared state into a new one and the thread into the rest of it.
  \<^item> \<open>t_try_else\<close>, \<open>t_check\<close>, \<open>t_andthen\<close> build threads the way \<open>try_else\<close>, \<open>check\<close>, \<open>andthen\<close>
    build programs; \<open>atomic\<close> makes a program one step; \<open>run_thread\<close> runs a thread with no other in
    between.
  \<^item> \<open>step\<close> is the step relation of a process that serves requests: a request arrives, a thread takes
    a step, the world changes. An abnormal end of one handler stops the process.
  \<^item> \<open>meets\<close> is the rely-guarantee judgement of one thread; \<open>safe_threads\<close> and \<open>linear_threads\<close> are what
    follows for the whole process.
\<close>

section \<open>Threads\<close>

datatype ('s, 'a) thread =
    Finished "'a res"
  | Atomic "'s \<Rightarrow> ('s, 'a) thread \<times> 's"

fun unfinished :: "('s, 'a) thread \<Rightarrow> bool" where
  "unfinished (Finished _) = False"
| "unfinished (Atomic _) = True"

primrec t_bind :: "('s, 'a) thread \<Rightarrow> ('a res \<Rightarrow> ('s, 'b) thread) \<Rightarrow> ('s, 'b) thread" where
  "t_bind (Finished r) k = k r"
| "t_bind (Atomic f) k = Atomic (\<lambda>s. map_prod (\<lambda>t. t_bind t k) id (f s))"

primrec run_thread :: "('s, 'a) thread \<Rightarrow> ('s, 'a) prog" where
  "run_thread (Finished r) = (\<lambda>s. (r, s))"
| "run_thread (Atomic f) = (\<lambda>s. case map_prod run_thread id (f s) of (m, s') \<Rightarrow> m s')"

definition atomic :: "('s, 'a) prog \<Rightarrow> ('s, 'a) thread" where
  "atomic m = Atomic (\<lambda>s. map_prod Finished id (m s))"

definition t_try_else :: "('s, 'a) thread \<Rightarrow> (error \<Rightarrow> ('s, 'b) thread) \<Rightarrow> ('a \<Rightarrow> ('s, 'b) thread) \<Rightarrow> ('s, 'b) thread" where
  "t_try_else t h k = t_bind t (\<lambda>r. case r of
       Ok a \<Rightarrow> k a | Err e \<Rightarrow> h e | Panic p \<Rightarrow> Finished (Panic p) | Exit p \<Rightarrow> Finished (Exit p))"

definition t_check :: "('s, 'a) thread \<Rightarrow> (error \<Rightarrow> error) \<Rightarrow> ('a \<Rightarrow> ('s, 'b) thread) \<Rightarrow> ('s, 'b) thread" where
  "t_check t f k = t_try_else t (\<lambda>e. Finished (Err (f e))) k"

definition t_andthen :: "('s, 'a) thread \<Rightarrow> ('a \<Rightarrow> ('s, 'b) thread) \<Rightarrow> ('s, 'b) thread" where
  "t_andthen t k = t_try_else t (\<lambda>e. Finished (Err e)) k"

lemma t_known [simp]:
  "t_andthen (Finished (Ok a)) k = k a" "t_andthen (Finished (Err e)) k = Finished (Err e)"
  "t_andthen (Finished (Panic p)) k = Finished (Panic p)" "t_andthen (Finished (Exit p)) k = Finished (Exit p)"
  by (simp_all add: t_andthen_def t_try_else_def)

lemma thread_induct [case_names Finished Atomic]:
  assumes "\<And>r. P (Finished r)" and "\<And>f. (\<And>s. P (fst (f s))) \<Longrightarrow> P (Atomic f)"
  shows "P t"
proof (induction t)
  case (Atomic f)
  have "P (fst (f s))" for s
    by (rule Atomic.IH [of "f s"]) (simp_all add: prod_set_defs)
  then show ?case by (rule assms(2))
qed (rule assms(1))

lemma t_bind_assoc: "t_bind (t_bind t k) k' = t_bind t (\<lambda>r. t_bind (k r) k')"
proof (induction t rule: thread_induct)
  case (Atomic f)
  then show ?case by (simp add: map_prod_def case_prod_unfold)
qed simp

section \<open>A thread that runs alone\<close>

named_theorems alone \<open>what a thread computes when no other runs\<close>

lemma run_t_bind: "run_thread (t_bind t k) s = (case run_thread t s of (r, s') \<Rightarrow> run_thread (k r) s')"
proof (induction t arbitrary: s rule: thread_induct)
  case (Atomic f)
  then show ?case by (simp add: map_prod_def case_prod_unfold)
qed simp

lemma run_atomic [alone]: "run_thread (atomic m) = m"
  by (simp add: atomic_def fun_eq_iff map_prod_def case_prod_unfold)

lemma run_finished [alone]:
  "run_thread (Finished (Ok a)) = ret a" "run_thread (Finished (Err e)) = fail e"
  "run_thread (Finished (Panic p)) = panic p" "run_thread (Finished (Exit p)) = exit_process p"
  by (simp_all add: ret_def fail_def panic_def exit_process_def)

declare run_thread.simps(1) [simp del]

lemma run_of_res: "run_thread (Finished r) = of_res r"
  by (simp add: of_res_def run_thread.simps)

lemma run_t_try_else [alone]:
  "run_thread (t_try_else t h k) = try_else (run_thread t) (\<lambda>e. run_thread (h e)) (\<lambda>a. run_thread (k a))"
  by (auto simp: fun_eq_iff t_try_else_def try_else_def run_t_bind run_thread.simps split: prod.split res.split)

lemma run_t_check [alone]: "run_thread (t_check t f k) = check (run_thread t) f (\<lambda>a. run_thread (k a))"
  by (simp add: t_check_def check_def run_t_try_else run_finished)

lemma run_t_andthen [alone]: "run_thread (t_andthen t k) = andthen (run_thread t) (\<lambda>a. run_thread (k a))"
  by (simp add: t_andthen_def andthen_def run_t_try_else run_finished)

section \<open>The process\<close>

text \<open>\<open>log\<close> records the requests that ended with a value, with their replies, in the order they ended.\<close>

record ('q, 's, 'a) config =
  procs :: "('q \<times> ('s, 'a) thread) list"
  mem :: 's
  log :: "('q \<times> 'a) list"

fun reply_of :: "'q \<Rightarrow> ('s, 'a) thread \<Rightarrow> ('q \<times> 'a) list" where
  "reply_of q (Finished (Ok a)) = [(q, a)]"
| "reply_of q _ = []"

fun ends_abnormally :: "('s, 'a) thread \<Rightarrow> bool" where
  "ends_abnormally (Finished r) = abnormal r"
| "ends_abnormally (Atomic _) = False"

definition crashed :: "('q, 's, 'a) config \<Rightarrow> bool" where
  "crashed c \<longleftrightarrow> list_ex (\<lambda>(q, t). ends_abnormally t) (procs c)"

inductive step :: "('q \<Rightarrow> ('s, 'a) thread) \<Rightarrow> (('q, 's, 'a) config \<Rightarrow> 'q \<Rightarrow> bool) \<Rightarrow> ('s \<Rightarrow> 's \<Rightarrow> bool) \<Rightarrow>
    ('q, 's, 'a) config \<Rightarrow> ('q, 's, 'a) config \<Rightarrow> bool"
  for handler :: "'q \<Rightarrow> ('s, 'a) thread" and may :: "('q, 's, 'a) config \<Rightarrow> 'q \<Rightarrow> bool"
    and world :: "'s \<Rightarrow> 's \<Rightarrow> bool" and c :: "('q, 's, 'a) config" where
  arrive: "\<not> crashed c \<Longrightarrow> may c q \<Longrightarrow>
     step handler may world c (c\<lparr>procs := procs c @ [(q, handler q)], log := log c @ reply_of q (handler q)\<rparr>)"
| thread: "\<not> crashed c \<Longrightarrow> i < length (procs c) \<Longrightarrow> procs c ! i = (q, Atomic f) \<Longrightarrow> f (mem c) = (t, s) \<Longrightarrow>
     step handler may world c \<lparr>procs = (procs c)[i := (q, t)], mem = s, log = log c @ reply_of q t\<rparr>"
| world: "world (mem c) s \<Longrightarrow> step handler may world c (c\<lparr>mem := s\<rparr>)"

abbreviation runs :: "('q \<Rightarrow> ('s, 'a) thread) \<Rightarrow> (('q, 's, 'a) config \<Rightarrow> 'q \<Rightarrow> bool) \<Rightarrow> ('s \<Rightarrow> 's \<Rightarrow> bool) \<Rightarrow>
    's \<Rightarrow> ('q, 's, 'a) config \<Rightarrow> bool" where
  "runs handler may world s \<equiv> (step handler may world)\<^sup>*\<^sup>* \<lparr>procs = [], mem = s, log = []\<rparr>"

text \<open>The log is what the finished threads replied.\<close>

definition replies :: "('q, 's, 'a) config \<Rightarrow> ('q \<times> 'a) list" where
  "replies c = concat (map (\<lambda>(q, t). reply_of q t) (procs c))"

lemma mset_concat_update:
  "i < length xs \<Longrightarrow> f (xs ! i) = [] \<Longrightarrow> mset (concat (map f (xs[i := x]))) = mset (concat (map f xs)) + mset (f x)"
  by (induction xs arbitrary: i) (auto split: nat.splits)

lemma runs_log:
  assumes "runs handler may world s c"
  shows "mset (log c) = mset (replies c)"
  using assms
proof (induction rule: rtranclp_induct)
  case (step c c')
  from step.hyps(2) show ?case
  proof (cases rule: step.cases)
    case (thread i q f t s)
    have r: "mset (concat (map (\<lambda>(q, t). reply_of q t) ((procs c)[i := (q, t)]))) =
        mset (concat (map (\<lambda>(q, t). reply_of q t) (procs c))) + mset (reply_of q t)"
      using mset_concat_update [of i "procs c" "\<lambda>(q, t). reply_of q t" "(q, t)"] thread
      by simp
    show ?thesis using step.IH thread(1) r by (simp add: replies_def)
  qed (use step.IH in \<open>simp_all add: replies_def\<close>)
qed (simp add: replies_def)

text \<open>The steps of a configuration that is written out.\<close>

lemma arrive_step:
  assumes "\<not> list_ex (\<lambda>(q, t). ends_abnormally t) ps" "may \<lparr>procs = ps, mem = s, log = l\<rparr> q" "handler q = t" "unfinished t"
  shows "step handler may world \<lparr>procs = ps, mem = s, log = l\<rparr> \<lparr>procs = ps @ [(q, t)], mem = s, log = l\<rparr>"
  using step.arrive [of "\<lparr>procs = ps, mem = s, log = l\<rparr>" may q handler world] assms
  by (cases t) (simp_all add: crashed_def)

lemma thread_step:
  assumes "\<not> list_ex (\<lambda>(q, t). ends_abnormally t) ps" "i < length ps" "ps ! i = (q, Atomic f)" "f s = (t, s')"
  shows "step handler may world \<lparr>procs = ps, mem = s, log = l\<rparr> \<lparr>procs = ps[i := (q, t)], mem = s', log = l @ reply_of q t\<rparr>"
  using step.thread [of "\<lparr>procs = ps, mem = s, log = l\<rparr>" i q f t s'] assms by (simp add: crashed_def)

text \<open>A thread that is left alone from now on runs to its end.\<close>

lemma steps_to_end:
  fixes t :: "('s, 'a) thread"
  assumes "\<not> list_ex (\<lambda>(q, t). ends_abnormally t) ps" "i < length ps" "ps ! i = (q, t)" "unfinished t"
    and "run_thread t s = (r, s')"
  shows "(step handler may world)\<^sup>*\<^sup>* \<lparr>procs = ps, mem = s, log = l\<rparr>
    \<lparr>procs = ps[i := (q, Finished r)], mem = s', log = l @ reply_of q (Finished r :: ('s, 'a) thread)\<rparr>"
  using assms
proof (induction t arbitrary: ps s rule: thread_induct)
  case (Atomic f)
  obtain t1 s1 where f: "f s = (t1, s1)" by fastforce
  let ?ps = "ps[i := (q, t1)]"
  have first: "step handler may world \<lparr>procs = ps, mem = s, log = l\<rparr> \<lparr>procs = ?ps, mem = s1, log = l @ reply_of q t1\<rparr>"
    using Atomic.prems f by (intro thread_step)
  have run: "run_thread t1 s1 = (r, s')" using Atomic.prems(5) f by simp
  show ?case
  proof (cases t1)
    case (Finished r0)
    then have "r0 = r" "s1 = s'" using run by (simp_all add: run_thread.simps)
    with Finished first show ?thesis by (intro r_into_rtranclp) simp
  next
    case g: (Atomic g)
    have "\<not> list_ex (\<lambda>(q, t). ends_abnormally t) ?ps"
      using Atomic.prems(1) g set_update_subset_insert [of ps i "(q, t1)"] by (fastforce simp: list_ex_iff)
    moreover have "i < length ?ps" "?ps ! i = (q, t1)" "unfinished t1" using Atomic.prems(2) g by simp_all
    ultimately have "(step handler may world)\<^sup>*\<^sup>* \<lparr>procs = ?ps, mem = s1, log = l\<rparr>
      \<lparr>procs = ?ps[i := (q, Finished r)], mem = s', log = l @ reply_of q (Finished r :: ('s, 'a) thread)\<rparr>"
      using Atomic.IH [of ?ps s s1] run f by simp
    with first show ?thesis using g by (simp add: converse_rtranclp_into_rtranclp)
  qed
qed simp

section \<open>Rely and guarantee\<close>

text \<open>
  \<open>meets J G C t\<close>: as long as the state the thread \<open>t\<close> finds at each of its steps satisfies \<open>J\<close>, its
  steps are related by \<open>G\<close>, but for the last, which is related by \<open>C\<close> with the result.
\<close>

fun ends :: "('s \<Rightarrow> 's \<Rightarrow> bool) \<Rightarrow> ('s \<Rightarrow> 'a res \<Rightarrow> 's \<Rightarrow> bool) \<Rightarrow> 's \<Rightarrow> ('s, 'a) thread \<Rightarrow> 's \<Rightarrow> bool" where
  "ends G C s (Finished r) s' \<longleftrightarrow> C s r s'"
| "ends G C s (Atomic f) s' \<longleftrightarrow> G s s'"

inductive meets :: "('s \<Rightarrow> bool) \<Rightarrow> ('s \<Rightarrow> 's \<Rightarrow> bool) \<Rightarrow> ('s \<Rightarrow> 'a res \<Rightarrow> 's \<Rightarrow> bool) \<Rightarrow> ('s, 'a) thread \<Rightarrow> bool"
  for J :: "'s \<Rightarrow> bool" and G :: "'s \<Rightarrow> 's \<Rightarrow> bool" and C :: "'s \<Rightarrow> 'a res \<Rightarrow> 's \<Rightarrow> bool" where
  finished: "meets J G C (Finished r)"
| step: "\<forall>s. J s \<longrightarrow> ends G C s (fst (f s)) (snd (f s)) \<and> meets J G C (fst (f s)) \<Longrightarrow> meets J G C (Atomic f)"

inductive_simps meets_simps [simp]:
  "meets J G C (Finished r)"
  "meets J G C (Atomic f)"

lemma meets_step: "meets J G C (Atomic f) \<Longrightarrow> J s \<Longrightarrow> f s = (t, s') \<Longrightarrow> ends G C s t s' \<and> meets J G C t"
  by (auto dest: spec [of _ s])

lemma meets_mono: "meets J G C t \<Longrightarrow> (\<And>s. K s \<Longrightarrow> J s) \<Longrightarrow> meets K G C t"
proof (induction rule: meets.induct)
  case (step f)
  then show ?case by (intro meets.step) blast
qed simp

text \<open>A thread whose next step is a known program.\<close>

lemma meets_first:
  assumes "\<And>s. J s \<Longrightarrow> wp m (\<lambda>r s'. ends G C s (k r) s' \<and> meets J G C (k r)) s"
  shows "meets J G C (t_bind (atomic m) k)"
  using assms by (auto simp: atomic_def wp_iff)

lemma t_chain:
  "t_check (atomic m) f k = t_bind (atomic m) (\<lambda>r. case r of
     Ok a \<Rightarrow> k a | Err e \<Rightarrow> Finished (Err (f e)) | Panic p \<Rightarrow> Finished (Panic p) | Exit p \<Rightarrow> Finished (Exit p))"
  "t_andthen (atomic m) k = t_bind (atomic m) (\<lambda>r. case r of
     Ok a \<Rightarrow> k a | Err e \<Rightarrow> Finished (Err e) | Panic p \<Rightarrow> Finished (Panic p) | Exit p \<Rightarrow> Finished (Exit p))"
  by (simp_all add: t_check_def t_andthen_def t_try_else_def)

lemma t_andthen_assoc:
  "t_andthen (t_check t f k) k' = t_check t f (\<lambda>a. t_andthen (k a) k')"
  "t_andthen (t_andthen t k) k' = t_andthen t (\<lambda>a. t_andthen (k a) k')"
  by (auto simp: t_check_def t_andthen_def t_try_else_def t_bind_assoc intro!: arg_cong [of _ _ "t_bind t"] split: res.split)

section \<open>Invariants of the process\<close>

text \<open>
  An invariant \<open>J\<close> of the shared state that every step of every thread keeps, however the steps are
  interleaved, and a fact \<open>Q\<close> of the result of every thread.
\<close>

locale safe_threads =
  fixes handler :: "'q \<Rightarrow> ('s, 'a) thread"
    and world :: "'s \<Rightarrow> 's \<Rightarrow> bool"
    and J :: "'s \<Rightarrow> bool"
    and Q :: "'q \<Rightarrow> 'a res \<Rightarrow> bool"
  assumes world_keeps: "world s s' \<Longrightarrow> J s \<Longrightarrow> J s'"
    and handler_meets: "meets J (\<lambda>_. J) (\<lambda>_ r s'. Q q r \<and> J s') (handler q)"
    and handler_at_once: "handler q = Finished r \<Longrightarrow> Q q r"
begin

definition safe_at :: "'q \<times> ('s, 'a) thread \<Rightarrow> bool" where
  "safe_at = (\<lambda>(q, t). meets J (\<lambda>_. J) (\<lambda>_ r s'. Q q r \<and> J s') t \<and> (\<forall>r. t = Finished r \<longrightarrow> Q q r))"

lemma safe_step:
  assumes "safe_at (q, Atomic f)" "J s" "f s = (t, s')"
  shows "J s' \<and> safe_at (q, t)"
proof -
  have "meets J (\<lambda>_. J) (\<lambda>_ r s'. Q q r \<and> J s') (Atomic f)" using assms(1) by (simp add: safe_at_def)
  note meets_step [OF this assms(2,3)]
  then show ?thesis by (cases t) (auto simp: safe_at_def)
qed

lemma runs_safe:
  assumes "runs handler may world s c" "J s"
  shows "J (mem c) \<and> Ball (set (procs c)) safe_at"
  using assms(1)
proof (induction rule: rtranclp_induct)
  case (step c c')
  from step.hyps(2) show ?case
  proof (cases rule: step.cases)
    case (arrive q)
    have "safe_at (q, handler q)" using handler_meets handler_at_once by (simp add: safe_at_def)
    with arrive step.IH show ?thesis by simp
  next
    case (thread i q f t s)
    then have "(q, Atomic f) \<in> set (procs c)" by (metis nth_mem)
    then have "J s \<and> safe_at (q, t)" using safe_step step.IH thread(5) by blast
    moreover have "set (procs c') \<subseteq> insert (q, t) (set (procs c))"
      using thread(1) by (simp add: set_update_subset_insert)
    ultimately show ?thesis using step.IH thread(1) by fastforce
  next
    case (world s)
    then show ?thesis using step.IH world_keeps by simp
  qed
qed (simp add: assms(2))

lemma runs_result: "runs handler may world s c \<Longrightarrow> J s \<Longrightarrow> (q, Finished r) \<in> set (procs c) \<Longrightarrow> Q q r"
  by (fastforce simp: safe_at_def dest: runs_safe)

end

section \<open>Linearizability\<close>

text \<open>
  The specification is a sequential object: a request on a map gives a reply and a new map. A log is
  explained by it when the replies of the log are those of the object in the order of the log.
\<close>

fun explains :: "('q \<Rightarrow> 'r \<Rightarrow> 'a \<times> 'r) \<Rightarrow> 'r \<Rightarrow> ('q \<times> 'a) list \<Rightarrow> 'r \<Rightarrow> bool" where
  "explains spec R [] R' \<longleftrightarrow> R' = R"
| "explains spec R ((q, a) # l) R' \<longleftrightarrow> fst (spec q R) = a \<and> explains spec (snd (spec q R)) l R'"

lemma explains_snoc:
  "explains spec R l R1 \<Longrightarrow> spec q R1 = (a, R2) \<Longrightarrow> explains spec R (l @ [(q, a)]) R2"
  by (induction spec R l R1 rule: explains.induct) auto

lemma mset_pair: "mset l = {#x, y#} \<Longrightarrow> l = [x, y] \<or> l = [y, x]"
proof -
  assume m: "mset l = {#x, y#}"
  then have "length l = 2" by (metis size_mset size_add_mset size_empty numeral_2_eq_2)
  then obtain a b where "l = [a, b]" by (auto simp: length_Suc_conv numeral_2_eq_2)
  with m show ?thesis by (auto simp: add_eq_conv_diff)
qed

text \<open>Requests arrive only while no unfinished request touches the same keys.\<close>

definition one_per_key :: "('q \<Rightarrow> 'k set) \<Rightarrow> ('q, 's, 'a) config \<Rightarrow> 'q \<Rightarrow> bool" where
  "one_per_key touches c q \<longleftrightarrow> (\<forall>(q', t) \<in> set (procs c). unfinished t \<longrightarrow> touches q' \<inter> touches q = {})"

locale linear_threads =
  fixes handler :: "'q \<Rightarrow> ('s, 'a) thread"
    and world :: "'s \<Rightarrow> 's \<Rightarrow> bool"
    and obs :: "'s \<Rightarrow> 'k \<Rightarrow> 'v"
    and touches :: "'q \<Rightarrow> 'k set"
    and spec :: "'q \<Rightarrow> ('k \<Rightarrow> 'v) \<Rightarrow> 'a \<times> ('k \<Rightarrow> 'v)"
  assumes world_obs: "world s s' \<Longrightarrow> obs s' = obs s"
    and spec_local: "k \<notin> touches q \<Longrightarrow> snd (spec q R) k = R k"
    and handler_linear: "meets (\<lambda>s. \<forall>k \<in> touches q. obs s k = v k) (\<lambda>s s'. obs s' = obs s)
       (\<lambda>s r s'. case r of Ok a \<Rightarrow> spec q (obs s) = (a, obs s') | _ \<Rightarrow> obs s' = obs s) (handler q)"
    and handler_instant: "handler q = Finished (Ok a) \<Longrightarrow> spec q R = (a, R)"
begin

definition linear_at :: "('k \<Rightarrow> 'v) \<Rightarrow> 'q \<Rightarrow> ('s, 'a) thread \<Rightarrow> bool" where
  "linear_at v q = meets (\<lambda>s. \<forall>k \<in> touches q. obs s k = v k) (\<lambda>s s'. obs s' = obs s)
     (\<lambda>s r s'. case r of Ok a \<Rightarrow> spec q (obs s) = (a, obs s') | _ \<Rightarrow> obs s' = obs s)"

lemma linear_at_cong: "(\<And>k. k \<in> touches q \<Longrightarrow> v k = v' k) \<Longrightarrow> linear_at v q t = linear_at v' q t"
  by (simp add: linear_at_def cong: ball_cong)

definition apart :: "('q \<times> ('s, 'a) thread) list \<Rightarrow> bool" where
  "apart ps \<longleftrightarrow> sorted_wrt (\<lambda>(q, t) (q', t'). unfinished t \<longrightarrow> unfinished t' \<longrightarrow> touches q \<inter> touches q' = {}) ps"

lemma apart_nth:
  assumes "apart ps" "i < length ps" "j < length ps" "i \<noteq> j" "ps ! i = (q, t)" "ps ! j = (q', t')" "unfinished t" "unfinished t'"
  shows "touches q \<inter> touches q' = {}"
proof (cases "i < j")
  case True
  then show ?thesis using sorted_wrt_nth_less [OF assms(1) [unfolded apart_def] True assms(3)] assms by simp
next
  case False
  then have "j < i" using assms(4) by simp
  then show ?thesis using sorted_wrt_nth_less [OF assms(1) [unfolded apart_def] \<open>j < i\<close> assms(2)] assms by (simp add: Int_commute)
qed

lemma apart_update:
  assumes "apart ps" "i < length ps" "ps ! i = (q, t)" "unfinished t"
  shows "apart (ps[i := (q, t')])"
  unfolding apart_def sorted_wrt_iff_nth_less
proof (intro allI impI)
  fix j k assume jk: "j < k" "k < length (ps[i := (q, t')])"
  show "(case ps[i := (q, t')] ! j of (q, t) \<Rightarrow> \<lambda>(q', t'). unfinished t \<longrightarrow> unfinished t' \<longrightarrow> touches q \<inter> touches q' = {})
     (ps[i := (q, t')] ! k)"
    using sorted_wrt_nth_less [OF assms(1) [unfolded apart_def] jk(1)] jk assms(2-4)
    by (auto simp: nth_list_update split: if_splits)
qed

text \<open>What every configuration satisfies when requests that touch the same keys do not overlap.\<close>

definition linear_inv :: "('k \<Rightarrow> 'v) \<Rightarrow> ('q, 's, 'a) config \<Rightarrow> bool" where
  "linear_inv R c \<longleftrightarrow> explains spec R (log c) (obs (mem c)) \<and> apart (procs c) \<and>
     (\<forall>(q, t) \<in> set (procs c). linear_at (obs (mem c)) q t)"

lemma linear_inv_arrive:
  assumes inv: "linear_inv R c" and may: "one_per_key touches c q"
  shows "linear_inv R (c\<lparr>procs := procs c @ [(q, handler q)], log := log c @ reply_of q (handler q)\<rparr>)"
proof -
  have "explains spec R (log c @ reply_of q (handler q)) (obs (mem c))"
    using inv handler_instant explains_snoc [of spec R "log c" "obs (mem c)" q]
    by (cases "(q, handler q)" rule: reply_of.cases) (auto simp: linear_inv_def)
  moreover have "apart (procs c @ [(q, handler q)])"
    using inv may by (auto simp: linear_inv_def apart_def one_per_key_def sorted_wrt_append)
  ultimately show ?thesis
    using inv handler_linear by (auto simp: linear_inv_def linear_at_def)
qed

lemma linear_step:
  assumes "linear_at (obs s) q (Atomic f)" "f s = (t, s')"
  shows "linear_at (obs s) q t" "k \<notin> touches q \<Longrightarrow> obs s' k = obs s k" "unfinished t \<Longrightarrow> obs s' = obs s"
    "explains spec R l (obs s) \<Longrightarrow> explains spec R (l @ reply_of q t) (obs s')"
proof -
  from assms have e: "ends (\<lambda>s s'. obs s' = obs s)
       (\<lambda>s r s'. case r of Ok a \<Rightarrow> spec q (obs s) = (a, obs s') | _ \<Rightarrow> obs s' = obs s) s t s'"
    and m: "linear_at (obs s) q t"
    unfolding linear_at_def by (auto dest: meets_step)
  show "linear_at (obs s) q t" by (rule m)
  show "unfinished t \<Longrightarrow> obs s' = obs s" using e by (cases t) simp_all
  show "k \<notin> touches q \<Longrightarrow> obs s' k = obs s k"
    using e spec_local [of k q "obs s"] by (cases "(q, t)" rule: reply_of.cases) auto
  show "explains spec R (l @ reply_of q t) (obs s')" if "explains spec R l (obs s)"
    using e explains_snoc [OF that] that by (cases "(q, t)" rule: reply_of.cases) auto
qed

lemma linear_inv_thread:
  assumes inv: "linear_inv R c" and i: "i < length (procs c)" "procs c ! i = (q, Atomic f)" and f: "f (mem c) = (t, s)"
  shows "linear_inv R \<lparr>procs = (procs c)[i := (q, t)], mem = s, log = log c @ reply_of q t\<rparr>"
proof -
  have "(q, Atomic f) \<in> set (procs c)" using i by (metis nth_mem)
  then have at: "linear_at (obs (mem c)) q (Atomic f)" using inv by (auto simp: linear_inv_def)
  note st = linear_step [OF at f]
  have "linear_at (obs s) q' t'" if j: "j < length (procs c)" "(procs c)[i := (q, t)] ! j = (q', t')" for j q' t'
  proof (cases "unfinished t'")
    case False
    then show ?thesis by (cases t') (auto simp: linear_at_def)
  next
    case unfin: True
    show ?thesis
    proof (cases "j = i")
      case True
      with j i have eq: "q' = q" "t' = t" by auto
      then show ?thesis using st(1,3) unfin by simp
    next
      case False
      with j have pj: "procs c ! j = (q', t')" by simp
      have "touches q \<inter> touches q' = {}"
        by (rule apart_nth [OF _ i(1) j(1) _ i(2) pj]) (use inv False unfin in \<open>simp_all add: linear_inv_def\<close>)
      then have "linear_at (obs s) q' t' = linear_at (obs (mem c)) q' t'"
        using st(2) by (intro linear_at_cong) blast
      moreover have "(q', t') \<in> set (procs c)" using pj j(1) by (metis nth_mem)
      ultimately show ?thesis using inv by (auto simp: linear_inv_def)
    qed
  qed
  then have "\<forall>(q', t') \<in> set ((procs c)[i := (q, t)]). linear_at (obs s) q' t'"
    by (fastforce simp: in_set_conv_nth)
  moreover have "apart ((procs c)[i := (q, t)])"
    by (rule apart_update [OF _ i]) (use inv in \<open>simp_all add: linear_inv_def\<close>)
  ultimately show ?thesis using st(4) inv by (simp add: linear_inv_def)
qed

theorem runs_linear:
  assumes "runs handler (one_per_key touches) world s c"
  shows "explains spec (obs s) (log c) (obs (mem c))"
proof -
  have "linear_inv (obs s) c"
    using assms
  proof (induction rule: rtranclp_induct)
    case (step c c')
    from step.hyps(2) show ?case
    proof (cases rule: step.cases)
      case (world s)
      then show ?thesis using step.IH world_obs [of "mem c" s] by (simp add: linear_inv_def)
    qed (use step.IH linear_inv_arrive linear_inv_thread in auto)
  qed (simp add: linear_inv_def apart_def)
  then show ?thesis by (simp add: linear_inv_def)
qed

end

end
