(* ===== verification/PluginExamples.thy ===== *)
theory PluginExamples
  imports IpuPlugin
begin

text \<open>
  A concrete plugin: netlink is a list of links, the bridge is a Linux bridge, the P4 runner accepts
  every command. Creating and deleting one port on it satisfies the hypotheses of the properties of
  the bridge-port service.
\<close>

section \<open>The plugin and one request\<close>

definition demo_nl :: "link list netlink_fns" where
  "demo_nl = \<lparr>
     linkByNameFn = (\<lambda>n w. case find (\<lambda>l. Name l = n) w of None \<Rightarrow> (Inl (Ext ''Link not found''), w) | Some l \<Rightarrow> (Inr l, w)),
     linkAddFn = (\<lambda>l w. if find (\<lambda>k. Name k = Name l) w = None then (Inr (), w @ [l]) else (Inl (Ext ''file exists''), w)),
     linkDelFn = (\<lambda>l w. (Inr (), filter (\<lambda>k. Name k \<noteq> Name l) w)),
     linkSetUpFn = (\<lambda>l w. (Inr (), w)), linkSetDownFn = (\<lambda>l w. (Inr (), w)),
     linkSetMasterFn = (\<lambda>l m w. (Inr (), w)), linkSetNoMasterFn = (\<lambda>l w. (Inr (), w))\<rparr>"

definition demo_server :: "link list server" where
  "demo_server = fst (rootCmd_plugin demo_nl (\<lambda>b ps w. (Inr (), w)) (\<lambda>b r e w. (Inr (), w)) []
     (\<lambda>k. if k = ''bridge'' then ''br-tenant'' else if k = ''interface'' then ''up0'' else ''linux'') (\<lambda>k. 10))"

definition demo_port :: BridgePort where
  "demo_port = \<lparr>PortName = ''pf0'', Spec = Some \<lparr>Ptype = 1, MacAddress = [0, 8, 0, 0, 3, 20], LogicalBridges = [''05'']\<rparr>, Status = None\<rparr>"

definition demo_state :: "link list srv_state" where
  "demo_state = \<lparr>Ports = Map.empty, env = [new_Bridge\<lparr>Name := ''br-tenant''\<rparr>, zero_link\<lparr>Name := ''up0''\<rparr>]\<rparr>"


lemmas demo_defs = demo_nl_def demo_server_def demo_port_def demo_state_def

lemma Atoi_05: "Atoi ''05'' = Inr 5"
  by (simp add: Atoi_def split_sign_def char_digit_def in_int64_def)

lemma demo_valid: "valid_request demo_port (the (Spec demo_port)) 5"
  by (simp add: valid_request_def demo_port_def Atoi_05)

lemma demo_ctl: "bridgeCtlr demo_server = NewLinuxBridgeController demo_nl ''br-tenant''"
  "uplinkInterface demo_server = ''up0''"
  by (simp_all add: demo_server_def rootCmd_plugin_def getBridgeController_def NewIpuPlugin_def Let_def)

lemma demo_rules: "mac_usable mac \<Longrightarrow> \<exists>w'. AddRules (p4RtClient demo_server) mac v w = (Ok (), w')"
  "mac_usable mac \<Longrightarrow> \<exists>w'. DeleteRules (p4RtClient demo_server) mac v w = (Ok (), w')"
  unfolding demo_server_def rootCmd_plugin_fields
  by (metis p4cli.rules_add_ok prod.collapse) (metis p4cli.rules_del_ok prod.collapse)

lemma digit_char_5: "digit_char 5 = CHR ''5''"
  by code_simp

lemma demo_intf: "''pf0'' @ ''_vlan'' @ Itoa 5 = ''pf0_vlan5''"
  by (simp add: Itoa_def digits.simps digit_char_5)

lemma demo_create_valid:
  assumes v: "valid_request bp spec vlan"
    and names: "vlan_intf (PortName bp) vlan \<noteq> ''br-tenant''" "vlan_intf (PortName bp) vlan \<noteq> ''up0''"
  shows "\<exists>st1. CreateBridgePort demo_nl demo_server (Some bp) demo_state = (Ok (bp\<lparr>Status := Some BP_OPER_STATUS_UP\<rparr>), st1) \<and>
    Ports st1 = [PortName bp \<mapsto> bp\<lparr>Status := Some BP_OPER_STATUS_UP\<rparr>]"
proof -
  have facts: "mac_usable (MacAddress spec)" "index (LogicalBridges spec) 0 = Ok (hd (LogicalBridges spec))"
    "Atoi (hd (LogicalBridges spec)) = Inr vlan"
    using v by (auto simp: valid_request_def mac_usable_def index_0)
  obtain w2 where "AddRules (p4RtClient demo_server) (MacAddress spec) vlan
     [new_Bridge\<lparr>Name := ''br-tenant''\<rparr>, zero_link\<lparr>Name := ''up0''\<rparr>,
      new_Vlan\<lparr>ParentIndex := 0, Name := vlan_intf (PortName bp) vlan, VlanId := vlan\<rparr>] = (Ok (), w2)"
    using demo_rules [OF facts(1)] by blast
  then show ?thesis
    using facts(2,3) names unfolding create_valid [OF v] vlan_intf_def
    by (simp add: isBridgePortPresent_def demo_state_def create_body_def run_unfold demo_ctl createAndSetUpVlan_def call_def
     Let_def demo_nl_def createVlanInterface_def NewLinuxBridgeController_def
     linuxBridge_AddPort_def new_Vlan_def new_Bridge_def zero_link_def)
qed

lemma demo_create: "\<exists>st1. CreateBridgePort demo_nl demo_server (Some demo_port) demo_state =
      (Ok (demo_port\<lparr>Status := Some BP_OPER_STATUS_UP\<rparr>), st1) \<and>
    Ports st1 = [''pf0'' \<mapsto> demo_port\<lparr>Status := Some BP_OPER_STATUS_UP\<rparr>]"
  using demo_create_valid [OF demo_valid] by (simp add: demo_port_def vlan_intf_def)

lemma demo_delete_valid:
  assumes v: "valid_request bp spec vlan" and "Ports st (PortName bp) = Some (bp\<lparr>Status := q\<rparr>)"
    and st: "env st = [new_Vlan\<lparr>Name := vlan_intf (PortName bp) vlan, VlanId := vlan\<rparr>]"
  shows "\<exists>st2. DeleteBridgePort demo_nl demo_server (PortName bp) st = (Ok (), st2)"
proof -
  have facts: "mac_usable (MacAddress spec)" "Spec bp = Some spec" "getFirstVlanID (LogicalBridges spec) = Ok vlan"
    using v by (auto simp: valid_request_def mac_usable_def getFirstVlanID_valid)
  obtain w2 where "DeleteRules (p4RtClient demo_server) (MacAddress spec) vlan [] = (Ok (), w2)"
    using demo_rules(2) [OF facts(1)] by blast
  then show ?thesis
    using assms(2) st facts(2,3)
    by (simp add: DeleteBridgePort_def run_unfold demo_ctl call_def vlan_intf_def
     Let_def demo_nl_def removeVlanInterface_def NewLinuxBridgeController_def
     linuxBridge_DeletePort_def new_Vlan_def zero_link_def)
qed

definition demo_world :: "link list" where
  "demo_world = [new_Vlan\<lparr>Name := ''pf0_vlan5'', VlanId := 5\<rparr>]"

lemma demo_delete:
  assumes "Ports st = [''pf0'' \<mapsto> demo_port\<lparr>Status := Some BP_OPER_STATUS_UP\<rparr>]"
  shows "\<exists>st2. DeleteBridgePort demo_nl demo_server ''pf0'' (st\<lparr>env := demo_world\<rparr>) = (Ok (), st2)"
  using demo_delete_valid [OF demo_valid, of "st\<lparr>env := demo_world\<rparr>"] assms
  by (simp add: demo_port_def demo_world_def vlan_intf_def demo_intf [simplified])

lemma create_delete_undo_witness:
  "\<exists>p st1 st2. Ports demo_state (PortName demo_port) = None \<and>
     CreateBridgePort demo_nl demo_server (Some demo_port) demo_state = (Ok p, st1) \<and>
     DeleteBridgePort demo_nl demo_server (PortName demo_port) (st1\<lparr>env := demo_world\<rparr>) = (Ok (), st2) \<and>
     Ports st2 = Ports demo_state"
proof -
  have n: "Ports demo_state (PortName demo_port) = None" by (simp add: demo_state_def)
  obtain p st1 where c: "CreateBridgePort demo_nl demo_server (Some demo_port) demo_state = (Ok p, st1)"
    "Ports st1 = [''pf0'' \<mapsto> demo_port\<lparr>Status := Some BP_OPER_STATUS_UP\<rparr>]"
    using demo_create by blast
  obtain st2 where d: "DeleteBridgePort demo_nl demo_server (PortName demo_port) (st1\<lparr>env := demo_world\<rparr>) = (Ok (), st2)"
    using demo_delete [OF c(2)] by (auto simp: demo_port_def)
  from create_delete_undo [OF n c(1) d] n c(1) d show ?thesis by blast
qed

lemma demo_names: "Ports demo_state = Map.empty" "PortName demo_port = ''pf0''"
  by (simp_all add: demo_state_def demo_port_def)

lemma create_bridge_port_contract_witness:
  "\<exists>r st'. CreateBridgePort demo_nl demo_server (Some demo_port) demo_state = (r, st') \<and>
     (is_Ok r \<longrightarrow> Ports st' = [''pf0'' \<mapsto> demo_port\<lparr>Status := Some BP_OPER_STATUS_UP\<rparr>])"
proof -
  obtain r st' where c: "CreateBridgePort demo_nl demo_server (Some demo_port) demo_state = (r, st')"
    by fastforce
  have "\<exists>spec vlan. valid_request demo_port spec vlan" using demo_valid by blast
  then have "\<not> (\<nexists>spec vlan. valid_request demo_port spec vlan)" by blast
  with create_bridge_port_contract [OF c] demo_names have "is_Ok r \<longrightarrow>
      Ports st' = [''pf0'' \<mapsto> demo_port\<lparr>Status := Some BP_OPER_STATUS_UP\<rparr>]"
    by (auto simp del: not_ex split: if_splits)
  with c show ?thesis by blast
qed

lemma demo_reachable:
  "\<exists>st. reachable demo_nl demo_server st \<and> Ports st ''pf0'' = Some (demo_port\<lparr>Status := Some BP_OPER_STATUS_UP\<rparr>)"
proof -
  obtain st1 where c: "CreateBridgePort demo_nl demo_server (Some demo_port) demo_state =
      (Ok (demo_port\<lparr>Status := Some BP_OPER_STATUS_UP\<rparr>), st1)"
    "Ports st1 = [''pf0'' \<mapsto> demo_port\<lparr>Status := Some BP_OPER_STATUS_UP\<rparr>]" using demo_create by blast
  have "handle demo_nl demo_server (CreateReq (Some demo_port)) demo_state =
      (Ok (PortResp (demo_port\<lparr>Status := Some BP_OPER_STATUS_UP\<rparr>)), st1)"
    by (simp add: andthen_def try_else_def c(1))
  note step = this
  have "reachable demo_nl demo_server demo_state"
    unfolding demo_state_def by (rule reachable.start)
  from reachable.request [OF this step] have "reachable demo_nl demo_server st1" by simp
  with c(2) show ?thesis by auto
qed

lemma reachable_ports_valid_witness:
  "\<exists>st p. reachable demo_nl demo_server st \<and> Ports st ''pf0'' = Some p \<and> Status p = Some BP_OPER_STATUS_UP"
proof -
  obtain st where "reachable demo_nl demo_server st"
    "Ports st ''pf0'' = Some (demo_port\<lparr>Status := Some BP_OPER_STATUS_UP\<rparr>)" using demo_reachable by blast
  with reachable_ports_valid [OF this] show ?thesis by blast
qed

lemma plugin_delete_never_panics_witness:
  "\<exists>st. reachable demo_nl demo_server st \<and> Ports st ''pf0'' \<noteq> None \<and>
     \<not> abnormal (fst (DeleteBridgePort demo_nl demo_server ''pf0'' st))"
proof -
  obtain st where st: "reachable demo_nl demo_server st"
    "Ports st ''pf0'' = Some (demo_port\<lparr>Status := Some BP_OPER_STATUS_UP\<rparr>)" using demo_reachable by blast
  with plugin_delete_never_panics [OF st(1) [unfolded demo_server_def]] show ?thesis
    unfolding demo_server_def by blast
qed

end
