(* ===== verification/SysFs.thy ===== *)
theory SysFs
  imports GoOS SriovManager
begin

text \<open>
  The sysfs side of \<open>sriov_cni/pkg/utils/utils.go\<close>: how the CNI finds a virtual function, its physical
  function, its network name and its driver in the file tree, and the notify flags it sets. The
  \<open>pciUtils\<close> implementation of \<open>sriov.go\<close> forwards to these.
\<close>

definition sriovConfigured :: string where "sriovConfigured = ''/sriov_numvfs''"
definition NetDirectory :: string where "NetDirectory = ''/sys/class/net''"
definition SysBusPci :: string where "SysBusPci = ''/sys/bus/pci/devices''"
definition SysV4ArpNotify :: string where "SysV4ArpNotify = ''/proc/sys/net/ipv4/conf/''"
definition SysV6NdiscNotify :: string where "SysV6NdiscNotify = ''/proc/sys/net/ipv6/conf/''"
definition UserspaceDrivers :: "string list" where
  "UserspaceDrivers = [''vfio-pci'', ''uio_pci_generic'', ''igb_uio'']"

definition EnableArpAndNdiscNotify :: "string \<Rightarrow> ('z os_scheme, unit) prog" where
  "EnableArpAndNdiscNotify ifName =
    (let v4ArpNotifyPath = Join [SysV4ArpNotify, ifName, ''arp_notify''];
         v6NdiscNotifyPath = Join [SysV6NdiscNotify, ifName, ''ndisc_notify''] in
     check (call (os_WriteFile v4ArpNotifyPath ''1''))
       (\<lambda>err. Errorf ''failed to write arp_notify=1 for interface %s: %v'' [S ifName, E err]) (\<lambda>_.
     check (call (os_WriteFile v6NdiscNotifyPath ''1''))
       (\<lambda>err. Errorf ''failed to write ndisc_notify=1 for interface %s: %v'' [S ifName, E err]) ret))"

definition GetSriovNumVfs :: "string \<Rightarrow> ('z os_scheme, int) prog" where
  "GetSriovNumVfs ifName =
    (let sriovFile = Join [NetDirectory, ifName, ''device'', sriovConfigured] in
     check (call (os_Lstat sriovFile))
       (\<lambda>err. Errorf ''failed to open the sriov_numfs of device %q: %v'' [S ifName, E err]) (\<lambda>_.
     check (call (os_ReadFile sriovFile))
       (\<lambda>err. Errorf ''failed to read the sriov_numfs of device %q: %v'' [S ifName, E err]) (\<lambda>data.
     if length data = 0 then fail (Errorf ''no data in the file %q'' [S sriovFile])
     else check (of_res (of_sum (Atoi (TrimSpace data))))
       (\<lambda>err. Errorf ''failed to convert sriov_numfs(byte value) to int of device %q: %v'' [S ifName, E err]) ret)))"

definition virtfn :: "int \<Rightarrow> string" where
  "virtfn vf = ''virtfn'' @ Itoa vf"

text \<open>The loop of \<open>GetVfid\<close> over the candidates left; \<open>vfTotal\<close> bounds it.\<close>

fun GetVfid_loop :: "string \<Rightarrow> string \<Rightarrow> int list \<Rightarrow> ('z os_scheme, int) prog" where
  "GetVfid_loop addr pfName [] =
     fail (Errorf ''unable to get VF ID with PF: %s and VF pci address %v'' [S pfName, S addr])"
| "GetVfid_loop addr pfName (vf # vfs) =
    (let vfDir = Join [NetDirectory, pfName, ''device'', virtfn vf] in
     try_else (call (os_Lstat vfDir)) (\<lambda>_. GetVfid_loop addr pfName vfs) (\<lambda>_.
     try_else (call (os_Readlink vfDir)) (\<lambda>_. GetVfid_loop addr pfName vfs) (\<lambda>pciinfo.
     if Base pciinfo = addr then ret vf else GetVfid_loop addr pfName vfs)))"

definition GetVfid :: "string \<Rightarrow> string \<Rightarrow> ('z os_scheme, int) prog" where
  "GetVfid addr pfName = andthen (GetSriovNumVfs pfName) (\<lambda>vfTotal.
     GetVfid_loop addr pfName (map int [0..<nat vfTotal]))"

definition GetPfName :: "string \<Rightarrow> ('z os_scheme, string) prog" where
  "GetPfName vf =
    (let pfSymLink = Join [SysBusPci, vf, ''physfn'', ''net''] in
     andthen (call (os_Lstat pfSymLink)) (\<lambda>_.
     andthen (call (os_ReadDir pfSymLink)) (\<lambda>files.
     case files of [] \<Rightarrow> fail (Errorf ''PF network device not found'' [])
     | f # _ \<Rightarrow> ret (TrimSpace f))))"

definition GetPciAddress :: "string \<Rightarrow> int \<Rightarrow> ('z os_scheme, string) prog" where
  "GetPciAddress ifName vf =
    (let vfDir = Join [NetDirectory, ifName, ''device'', virtfn vf] in
     check (call (os_Lstat vfDir))
       (\<lambda>err. Errorf ''can't get the symbolic link of virtfn%d dir of the device %q: %v'' [I vf, S ifName, E err]) (\<lambda>dirInfo.
     if \<not> is_symlink dirInfo
     then fail (Errorf ''No symbolic link for the virtfn%d dir of the device %q'' [I vf, S ifName])
     else check (call (os_Readlink vfDir))
       (\<lambda>err. Errorf ''can't read the symbolic link of virtfn%d dir of the device %q: %v'' [I vf, S ifName, E err]) (\<lambda>pciinfo.
     ret (Base pciinfo))))"

text \<open>\<open>fullpath[:len(fullpath)-len(ifName)]\<close> panics when the path is shorter than the name, as it is
  when \<open>EvalSymlinks\<close> failed and the path is empty.\<close>

definition GetSharedPF :: "string \<Rightarrow> ('z os_scheme, string) prog" where
  "GetSharedPF ifName =
    (let pfDir = Join [NetDirectory, ifName] in
     check (call (os_Lstat pfDir))
       (\<lambda>err. Errorf ''can't get the symbolic link of the device %q: %v'' [S ifName, E err]) (\<lambda>dirInfo.
     if \<not> is_symlink dirInfo then fail (Errorf ''No symbolic link for dir of the device %q'' [S ifName])
     else andthen (try_else (call (EvalSymlinks pfDir)) (\<lambda>_. ret []) ret) (\<lambda>fullpath.
       if length fullpath < length ifName then panic ''slice bounds out of range''
       else let parentDir = take (length fullpath - length ifName) fullpath in
         andthen (try_else (call (os_ReadDir parentDir)) (\<lambda>_. ret []) ret) (\<lambda>dirList.
         case find (\<lambda>f. f \<noteq> ifName) dirList of
           Some f \<Rightarrow> ret f
         | None \<Rightarrow> fail (Errorf ''Shared PF not found'' [])))))"

definition GetVFLinkName :: "string \<Rightarrow> ('z os_scheme, string) prog" where
  "GetVFLinkName pciAddr =
    (let vfDir = Join [SysBusPci, pciAddr, ''net''] in
     andthen (call (os_Lstat vfDir)) (\<lambda>_.
     check (call (os_ReadDir vfDir))
       (\<lambda>err. Errorf ''failed to read net dir of the device %s: %v'' [S pciAddr, E err]) (\<lambda>fInfos.
     if length fInfos = 0 then fail (Errorf ''VF device %s sysfs path (%s) has no entries'' [S pciAddr, S vfDir])
     else of_res (index fInfos 0))))"

definition GetVFLinkNamesFromVFID :: "string \<Rightarrow> int \<Rightarrow> ('z os_scheme, string list) prog" where
  "GetVFLinkNamesFromVFID pfName vfID =
    (let vfDir = Join [NetDirectory, pfName, ''device'', virtfn vfID, ''net''] in
     andthen (call (os_Lstat vfDir)) (\<lambda>_.
     check (call (os_ReadDir vfDir))
       (\<lambda>err. Errorf ''failed to read the virtfn%d dir of the device %q: %v'' [I vfID, S pfName, E err]) ret))"

definition HasDpdkDriver :: "string \<Rightarrow> ('z os_scheme, bool) prog" where
  "HasDpdkDriver pciAddr =
    (let driverLink = Join [SysBusPci, pciAddr, ''driver''] in
     andthen (call (EvalSymlinks driverLink)) (\<lambda>driverPath.
     andthen (call (os_Stat driverPath)) (\<lambda>driverStat.
     ret (\<exists>drv \<in> set UserspaceDrivers. InfoName driverStat = drv))))"

definition pciUtilsImpl :: "'z os_scheme pciUtils" where
  "pciUtilsImpl =
     \<lparr>util_GetSriovNumVfs = \<lambda>ifName. GetSriovNumVfs ifName,
      util_GetVFLinkNamesFromVFID = \<lambda>pfName vfID. GetVFLinkNamesFromVFID pfName vfID,
      util_GetPciAddress = \<lambda>ifName vf. GetPciAddress ifName vf,
      util_EnableArpAndNdiscNotify = \<lambda>ifName. EnableArpAndNdiscNotify ifName\<rparr>"

section \<open>The contract of the utilities\<close>

text \<open>What the manager relies on: the utilities report failures as errors, and the three queries
  leave the world alone.\<close>

locale pci_utils =
  fixes u :: "'w pciUtils"
  assumes total_utils: "total (util_GetSriovNumVfs u n)" "total (util_GetVFLinkNamesFromVFID u n i)"
      "total (util_GetPciAddress u n i)" "total (util_EnableArpAndNdiscNotify u n)"
    and utils_read: "keeps P (util_GetSriovNumVfs u n)" "keeps P (util_GetVFLinkNamesFromVFID u n i)"
      "keeps P (util_GetPciAddress u n i)"
begin

lemma setup_in_pod_total:
  assumes "utils s = u"
  shows "total (setup_in_pod s conf n t podif l)"
  unfolding setup_in_pod_def assms by (intro total_intros total_utils)

lemma release_in_pod_total: "total (release_in_pod s conf podif initns)"
  unfolding release_in_pod_def by (intro total_intros)

end

lemma sysfs_total [total_intros]:
  "total (GetSriovNumVfs n)" "total (GetVFLinkNamesFromVFID n i)" "total (GetPciAddress n i)"
  "total (EnableArpAndNdiscNotify n)"
  by (auto simp: GetSriovNumVfs_def GetVFLinkNamesFromVFID_def GetPciAddress_def EnableArpAndNdiscNotify_def
      Let_def intro!: total_intros)

lemma sysfs_keeps [keeps_intros]:
  "keeps P (GetSriovNumVfs n)" "keeps P (GetVFLinkNamesFromVFID n i)" "keeps P (GetPciAddress n i)"
  by (auto simp: GetSriovNumVfs_def GetVFLinkNamesFromVFID_def GetPciAddress_def Let_def intro!: keeps_intros)

lemma sysfs_keeps_more [keeps_intros]:
  "keeps P (GetPfName v)" "keeps P (GetVFLinkName v)" "keeps P (HasDpdkDriver v)"
  by (auto simp: GetPfName_def GetVFLinkName_def HasDpdkDriver_def Let_def intro!: keeps_intros split: list.split)

interpretation sysfs_utils: pci_utils "pciUtilsImpl :: 'z os_scheme pciUtils"
  by unfold_locales (simp_all add: pciUtilsImpl_def total_intros keeps_intros)

section \<open>Finding a virtual function\<close>

text \<open>A path that can be read as a link is one for \<open>lstat\<close> too.\<close>

lemma readlink_symlink:
  "fst (os_Readlink p w) = Inr t \<Longrightarrow> fst (os_Lstat p w) = Inr fi \<Longrightarrow> is_symlink fi"
  by (auto simp: os_Readlink_def os_Lstat_def find_node_def is_symlink_def
      split: sum.splits option.splits node.splits)

lemma GetPciAddress_Ok: "GetPciAddress pf vf w = (Ok a, w') \<longleftrightarrow>
    w' = w \<and> (\<exists>fi t. fst (os_Lstat (Join [NetDirectory, pf, ''device'', virtfn vf]) w) = Inr fi \<and>
      fst (os_Readlink (Join [NetDirectory, pf, ''device'', virtfn vf]) w) = Inr t \<and> Base t = a)"
proof -
  let ?p = "Join [NetDirectory, pf, ''device'', virtfn vf]"
  show ?thesis
    using readlink_symlink [of ?p w]
    by (cases "fst (os_Lstat ?p w)"; cases "fst (os_Readlink ?p w)")
       (auto simp: GetPciAddress_def Let_def check_def try_else_def os_calls fail_def ret_def)
qed

lemma GetVfid_loop_run:
  "GetVfid_loop addr pf vfs w = (case find (\<lambda>vf. GetPciAddress pf vf w = (Ok addr, w)) vfs of
     Some vf \<Rightarrow> (Ok vf, w)
   | None \<Rightarrow> (Err (Errorf ''unable to get VF ID with PF: %s and VF pci address %v'' [S pf, S addr]), w))"
proof (induction vfs)
  case (Cons vf vfs)
  let ?p = "Join [NetDirectory, pf, ''device'', virtfn vf]"
  show ?case
    using Cons
    by (cases "fst (os_Lstat ?p w)"; cases "fst (os_Readlink ?p w)")
       (simp_all add: GetPciAddress_Ok Let_def try_else_def os_calls ret_def)
qed (simp add: fail_def)

lemma GetVfid_Ok:
  assumes "GetVfid addr pf w = (Ok vf, w')"
  shows "w' = w \<and> GetPciAddress pf vf w = (Ok addr, w) \<and> 0 \<le> vf \<and>
    (\<exists>total. GetSriovNumVfs pf w = (Ok total, w) \<and> vf < total) \<and>
    (\<forall>u. 0 \<le> u \<and> u < vf \<longrightarrow> GetPciAddress pf u w \<noteq> (Ok addr, w))"
proof -
  from assms obtain total w1 where t: "GetSriovNumVfs pf w = (Ok total, w1)"
    and loop: "GetVfid_loop addr pf (map int [0..<nat total]) w1 = (Ok vf, w')"
    by (auto simp: GetVfid_def ok_iffs)
  have "w1 = w" using sysfs_keeps(1) [of "\<lambda>u. u = w"] t by (auto dest: keepsD)
  with loop have vf: "find (\<lambda>vf. GetPciAddress pf vf w = (Ok addr, w)) (map int [0..<nat total]) = Some vf" "w' = w"
    by (auto simp: GetVfid_loop_run split: option.splits)
  then obtain i where i: "i < nat total" "GetPciAddress pf (int i) w = (Ok addr, w)" "vf = int i"
    "\<forall>j < i. GetPciAddress pf (int j) w \<noteq> (Ok addr, w)"
    by (auto simp: find_Some_iff)
  have "\<forall>u. 0 \<le> u \<and> u < vf \<longrightarrow> GetPciAddress pf u w \<noteq> (Ok addr, w)"
    using i(3,4) by (metis nat_less_iff nat_0_le)
  with t i vf(2) \<open>w1 = w\<close> show ?thesis by auto
qed

text \<open>C35. \<open>GetVfid\<close> and \<open>GetPciAddress\<close> are inverse: the number \<open>GetVfid\<close> finds for an address is the
  smallest one below the configured total whose link \<open>GetPciAddress\<close> resolves to that address, and
  nothing in the file tree changes.\<close>

theorem GetVfid_GetPciAddress:
  assumes "GetVfid addr pf w = (Ok vf, w')"
  shows "w' = w \<and> GetPciAddress pf vf w = (Ok addr, w) \<and> 0 \<le> vf \<and>
    (\<exists>total. GetSriovNumVfs pf w = (Ok total, w) \<and> vf < total) \<and>
    (\<forall>u. 0 \<le> u \<and> u < vf \<longrightarrow> GetPciAddress pf u w \<noteq> (Ok addr, w))"
  by (rule GetVfid_Ok [OF assms])

text \<open>\<open>GetSharedPF\<close> drops the error of \<open>EvalSymlinks\<close>: for an interface whose link dangles it cuts
  the name off an empty path and panics.\<close>

theorem GetSharedPF_dangling_panics:
  assumes "fst (os_Lstat (Join [NetDirectory, ifName]) w) = Inr fi" "is_symlink fi"
    "fst (EvalSymlinks (Join [NetDirectory, ifName]) w) = Inl e" "ifName \<noteq> []"
  shows "GetSharedPF ifName w = (Panic ''slice bounds out of range'', w)"
  using assms
  by (simp add: GetSharedPF_def Let_def check_def andthen_def try_else_def os_calls ret_def panic_def)

section \<open>Witnesses\<close>

text \<open>A part of the tree the repository's own tests build: a physical function with two virtual ones.\<close>

definition pf_dir :: "string list" where "pf_dir = [''sys'', ''devices'', ''0000:af:00.1'']"

definition vf_dir :: "string list" where "vf_dir = [''sys'', ''devices'', ''0000:af:06.1'']"

definition test_tree :: "(string list \<times> node) list" where
  "test_tree =
    [([''sys''], Dir), ([''sys'', ''class''], Dir), ([''sys'', ''class'', ''net''], Dir),
     ([''sys'', ''devices''], Dir), (pf_dir, Dir), (pf_dir @ [''net''], Dir), (pf_dir @ [''net'', ''enp175s0f1''], Dir),
     ([''sys'', ''class'', ''net'', ''enp175s0f1''], Link ''/sys/devices/0000:af:00.1/net/enp175s0f1''),
     ([''sys'', ''class'', ''net'', ''gone''], Link ''/sys/devices/none''),
     (pf_dir @ [''net'', ''enp175s0f1'', ''device''], Link ''/sys/devices/0000:af:00.1''),
     (pf_dir @ [''sriov_numvfs''], File ''2''),
     (pf_dir @ [''virtfn0''], Link ''../0000:af:06.0''), (pf_dir @ [''virtfn1''], Link ''../0000:af:06.1''),
     ([''sys'', ''devices'', ''0000:af:06.0''], Dir), (vf_dir, Dir), (vf_dir @ [''physfn''], Link ''../0000:af:00.1''),
     (vf_dir @ [''net''], Dir), (vf_dir @ [''net'', ''enp175s7''], Dir),
     ([''sys'', ''bus''], Dir), ([''sys'', ''bus'', ''pci''], Dir), ([''sys'', ''bus'', ''pci'', ''devices''], Dir),
     ([''sys'', ''bus'', ''pci'', ''devices'', ''0000:af:06.1''], Link ''/sys/devices/0000:af:06.1'')]"

definition test_os :: "'z \<Rightarrow> 'z os_scheme" where
  "test_os e = \<lparr>nodes = test_tree, cwd = [], fault = \<lambda>_ _. None, \<dots> = e\<rparr>"

text \<open>A world that has this part of the tree, but for the device of the second virtual function and the
  drivers, whatever else it has.\<close>

definition sys_like :: "'z os_scheme \<Rightarrow> bool" where
  "sys_like w \<longleftrightarrow> fault w = (\<lambda>_ _. None) \<and>
     (\<forall>p. take 2 p \<noteq> [''devices'', ''0000:af:06.1''] \<and> take 3 p \<noteq> [''bus'', ''pci'', ''drivers''] \<longrightarrow>
       lookup w (''sys'' # p) = map_of test_tree (''sys'' # p))"

lemma test_sys_like [simp]: "sys_like (test_os e)"
  by (simp add: sys_like_def test_os_def lookup_def)

lemma sys_likeD:
  "sys_like w \<Longrightarrow> take 2 p \<noteq> [''devices'', ''0000:af:06.1''] \<Longrightarrow> take 3 p \<noteq> [''bus'', ''pci'', ''drivers''] \<Longrightarrow>
     lookup w (''sys'' # p) = map_of test_tree (''sys'' # p)"
  "sys_like w \<Longrightarrow> fault w = (\<lambda>_ _. None)"
  by (simp_all add: sys_like_def)

lemma test_numvfs:
  assumes "sys_like w"
  shows "GetSriovNumVfs ''enp175s0f1'' w = (Ok 2, w)"
proof -
  note sys [simp] = sys_likeD [OF assms]
  have p: "Join [NetDirectory, ''enp175s0f1'', ''device'', sriovConfigured] = ''/sys/class/net/enp175s0f1/device/sriov_numvfs''"
    by (simp add: Join_def Clean_def NetDirectory_def sriovConfigured_def is_abs_def components_def abs_path_def)
  have q: "resolve h w ''/sys/class/net/enp175s0f1/device/sriov_numvfs'' = Inr (pf_dir @ [''sriov_numvfs''])" for h
    by (simp add: resolve_def is_abs_def components_def test_tree_def pf_dir_def vf_dir_def max_links_def
        eval_nat_numeral)
  have n: "lookup w (pf_dir @ [''sriov_numvfs'']) = Some (File ''2'')" "fault w = (\<lambda>_ _. None)"
    by (simp_all add: test_tree_def pf_dir_def vf_dir_def)
  have "Atoi (TrimSpace ''2'') = Inr 2"
    by (simp add: Atoi_def TrimSpace_def is_space_def split_sign_def char_digit_def in_int64_def)
  with n show ?thesis
    by (simp add: GetSriovNumVfs_def p Let_def ok_iffs os_Lstat_def os_ReadFile_def find_node_def q)
qed

lemma virtfn_path:
  "plain v \<Longrightarrow> Join [NetDirectory, ''enp175s0f1'', ''device'', v] = abs_path [''sys'', ''class'', ''net'', ''enp175s0f1'', ''device'', v]"
proof -
  assume v: "plain v"
  have "Join [NetDirectory, ''enp175s0f1'', ''device'', v] = Join [abs_path [''sys'', ''class'', ''net'', ''enp175s0f1'', ''device''], v]"
    using v by (auto simp: Join_def NetDirectory_def abs_path_def plain_def)
  also have "\<dots> = abs_path ([''sys'', ''class'', ''net'', ''enp175s0f1'', ''device''] @ [v])"
    using v by (intro Join_abs_path) (auto simp: plain_def)
  finally show ?thesis by simp
qed

lemma virtfn_names: "virtfn 0 = ''virtfn0''" "virtfn 1 = ''virtfn1''"
  by (simp_all add: virtfn_def Itoa_def digits.simps digit_char_def char_of_eq_iff)

lemma test_virtfn:
  assumes "sys_like w" "v \<in> {''virtfn0'', ''virtfn1''}"
  shows "resolve NoFollow w (abs_path [''sys'', ''class'', ''net'', ''enp175s0f1'', ''device'', v]) = Inr (pf_dir @ [v])"
proof -
  have "components (abs_path [''sys'', ''class'', ''net'', ''enp175s0f1'', ''device'', v]) =
      [''sys'', ''class'', ''net'', ''enp175s0f1'', ''device'', v]"
    using assms by (intro components_abs_path) (auto simp: plain_def)
  moreover have "hd (abs_path cs) = CHR ''/''" "abs_path cs \<noteq> []" for cs by (simp_all add: abs_path_def)
  ultimately show ?thesis
    using assms by (auto simp: sys_likeD resolve_def is_abs_def components_def test_tree_def pf_dir_def vf_dir_def
        max_links_def eval_nat_numeral)
qed

lemma test_pci_address:
  assumes "sys_like w"
  shows "GetPciAddress ''enp175s0f1'' 0 w = (Ok ''0000:af:06.0'', w)"
  "GetPciAddress ''enp175s0f1'' 1 w = (Ok ''0000:af:06.1'', w)"
proof -
  note sys [simp] = sys_likeD [OF assms] and virtfn = test_virtfn [OF assms]
  have n: "lookup w (pf_dir @ [''virtfn0'']) = Some (Link ''../0000:af:06.0'')"
    "lookup w (pf_dir @ [''virtfn1'']) = Some (Link ''../0000:af:06.1'')" "fault w = (\<lambda>_ _. None)"
    by (simp_all add: test_tree_def pf_dir_def vf_dir_def)
  have v: "plain ''virtfn0''" "plain ''virtfn1''" by (simp_all add: plain_def)
  show "GetPciAddress ''enp175s0f1'' 0 w = (Ok ''0000:af:06.0'', w)"
    "GetPciAddress ''enp175s0f1'' 1 w = (Ok ''0000:af:06.1'', w)"
    unfolding GetPciAddress_Ok virtfn_names virtfn_path [OF v(1)] virtfn_path [OF v(2)]
    by (simp_all add: os_Lstat_def os_Readlink_def find_node_def virtfn n Base_def components_def)
qed

lemma test_vfid: "sys_like w \<Longrightarrow> GetVfid ''0000:af:06.1'' ''enp175s0f1'' w = (Ok 1, w)"
  by (simp add: GetVfid_def ok_iffs test_numvfs GetVfid_loop_run test_pci_address upt_rec)

theorem GetVfid_GetPciAddress_witness:
  "GetVfid ''0000:af:06.1'' ''enp175s0f1'' (test_os ()) = (Ok 1, (test_os ())) \<and>
   GetPciAddress ''enp175s0f1'' 1 (test_os ()) = (Ok ''0000:af:06.1'', (test_os ()))"
  using GetVfid_GetPciAddress [OF test_vfid [OF test_sys_like [of "()"]]] test_vfid [OF test_sys_like [of "()"]] by blast

theorem GetSharedPF_dangling_panics_witness:
  "GetSharedPF ''gone'' (test_os ()) = (Panic ''slice bounds out of range'', (test_os ()))"
proof (rule GetSharedPF_dangling_panics)
  have p: "Join [NetDirectory, ''gone''] = ''/sys/class/net/gone''"
    by (simp add: Join_def Clean_def NetDirectory_def is_abs_def components_def abs_path_def)
  have r: "resolve NoFollow (test_os ()) ''/sys/class/net/gone'' = Inr [''sys'', ''class'', ''net'', ''gone'']"
    "resolve Follow (test_os ()) ''/sys/class/net/gone'' = Inl ENOENT"
    by (simp_all add: resolve_def is_abs_def components_def lookup_def test_os_def test_tree_def pf_dir_def vf_dir_def max_links_def
        eval_nat_numeral)
  have n: "lookup (test_os ()) [''sys'', ''class'', ''net'', ''gone''] = Some (Link ''/sys/devices/none'')"
    "fault (test_os ()) = (\<lambda>_ _. None)"
    by (simp_all add: lookup_def test_os_def test_tree_def pf_dir_def vf_dir_def)
  show "fst (os_Lstat (Join [NetDirectory, ''gone'']) (test_os ())) =
      Inr \<lparr>InfoName = ''gone'', InfoNode = Link ''/sys/devices/none''\<rparr>"
    by (simp add: p os_Lstat_def find_node_def r n Base_def components_def)
  show "fst (EvalSymlinks (Join [NetDirectory, ''gone'']) (test_os ())) = Inl (PathError ''lstat'' ''/sys/class/net/gone'' ENOENT)"
    by (simp add: p EvalSymlinks_def find_node_def r n)
qed (simp_all add: is_symlink_def)

lemma test_names:
  "GetPfName ''0000:af:06.1'' (test_os e) = (Ok ''enp175s0f1'', (test_os e))"
  "GetVFLinkName ''0000:af:06.1'' (test_os e) = (Ok ''enp175s7'', (test_os e))"
proof -
  have p: "Join [SysBusPci, ''0000:af:06.1'', ''physfn'', ''net''] = ''/sys/bus/pci/devices/0000:af:06.1/physfn/net''"
    "Join [SysBusPci, ''0000:af:06.1'', ''net''] = ''/sys/bus/pci/devices/0000:af:06.1/net''"
    by (simp_all add: Join_def Clean_def SysBusPci_def is_abs_def components_def abs_path_def)
  have q: "resolve h (test_os e) ''/sys/bus/pci/devices/0000:af:06.1/physfn/net'' = Inr (pf_dir @ [''net''])"
    "resolve h (test_os e) ''/sys/bus/pci/devices/0000:af:06.1/net'' = Inr (vf_dir @ [''net''])" for h
    by (simp_all add: resolve_def is_abs_def components_def lookup_def test_os_def test_tree_def pf_dir_def vf_dir_def
        max_links_def eval_nat_numeral)
  have n: "lookup (test_os e) (pf_dir @ [''net'']) = Some Dir" "lookup (test_os e) (vf_dir @ [''net'']) = Some Dir"
    "fault (test_os e) = (\<lambda>_ _. None)" "entries (pf_dir @ [''net'']) (test_os e) = [''enp175s0f1'']"
    "entries (vf_dir @ [''net'']) (test_os e) = [''enp175s7'']"
    by (simp_all add: lookup_def entries_def test_os_def test_tree_def pf_dir_def vf_dir_def)
  have t: "TrimSpace ''enp175s0f1'' = ''enp175s0f1''" by (simp add: TrimSpace_def is_space_def)
  show "GetPfName ''0000:af:06.1'' (test_os e) = (Ok ''enp175s0f1'', (test_os e))"
    by (simp add: GetPfName_def p Let_def ok_iffs os_Lstat_def os_ReadDir_def find_node_def q n t)
  show "GetVFLinkName ''0000:af:06.1'' (test_os e) = (Ok ''enp175s7'', (test_os e))"
    by (simp add: GetVFLinkName_def p Let_def ok_iffs os_Lstat_def os_ReadDir_def find_node_def q n index_def)
qed

end
