(* ===== verification/PciAllocator.thy ===== *)
theory PciAllocator
  imports GoOS SriovManager
begin

text \<open>
  \<open>sriov_cni/pkg/utils/pci_allocator.go\<close>: the lock files that record which PCI address is used in
  which network namespace. The contract of the \<open>PCIAllocation\<close> interface is a locale: a finite map
  from addresses to namespaces, on which the three operations act; the file implementation
  interprets it. Opening a namespace (\<open>ns.GetNS\<close>) is a query of the world: the handle is closed again.
\<close>

type_synonym 'w opener = "string \<Rightarrow> 'w \<Rightarrow> error + 'w NetNS"

record PCIAllocator =
  dataDir :: string

definition NewPCIAllocator :: "string \<Rightarrow> PCIAllocator" where
  "NewPCIAllocator dir = \<lparr>dataDir = Join [dir, ''pci'']\<rparr>"

definition SaveAllocatedPCI :: "PCIAllocator \<Rightarrow> string \<Rightarrow> string \<Rightarrow> ('z os_scheme, unit) prog" where
  "SaveAllocatedPCI p pciAddress ns =
     check (call (os_MkdirAll (dataDir p)))
       (\<lambda>err. Errorf ''failed to create the sriov data directory(%q): %v'' [S (dataDir p), E err]) (\<lambda>_.
     let path = Join [dataDir p, pciAddress] in
     check (call (os_WriteFile path ns))
       (\<lambda>err. Errorf ''failed to write used PCI address lock file in the path(%q): %v'' [S path, E err]) ret)"

definition DeleteAllocatedPCI :: "PCIAllocator \<Rightarrow> string \<Rightarrow> ('z os_scheme, unit) prog" where
  "DeleteAllocatedPCI p pciAddress =
    (let path = Join [dataDir p, pciAddress] in
     check (call (os_Remove path))
       (\<lambda>err. Errorf ''error removing PCI address lock file %s: %v'' [S path, E err]) ret)"

definition IsAllocated :: "'z os_scheme opener \<Rightarrow> PCIAllocator \<Rightarrow> string \<Rightarrow> ('z os_scheme, bool) prog" where
  "IsAllocated GetNS p pciAddress =
    (let path = Join [dataDir p, pciAddress] in
     try_else (call (os_Stat path))
       (\<lambda>err. if IsNotExist err then ret False
          else fail (Errorf ''failed to check for pci address file for %s: %v'' [S path, E err])) (\<lambda>_.
     check (call (os_ReadFile path))
       (\<lambda>err. Errorf ''failed to read for pci address file for %s: %v'' [S path, E err]) (\<lambda>dat.
     try_else (ask (GetNS dat))
       (\<lambda>_. check (DeleteAllocatedPCI p pciAddress)
          (\<lambda>err. Errorf ''error deleting the pci allocation for vf pci address %s: %v'' [S pciAddress, E err])
          (\<lambda>_. ret False))
       (\<lambda>networkNamespace. ret True))))"

section \<open>The contract\<close>

text \<open>\<open>holder w k\<close> is the namespace that holds the address \<open>k\<close>, \<open>live w ns\<close> that it can still be opened.\<close>

locale pci_allocation =
  fixes save :: "string \<Rightarrow> string \<Rightarrow> ('w, unit) prog"
    and free :: "string \<Rightarrow> ('w, unit) prog"
    and taken :: "string \<Rightarrow> ('w, bool) prog"
    and holder :: "'w \<Rightarrow> string \<Rightarrow> string option"
    and live :: "'w \<Rightarrow> string \<Rightarrow> bool"
    and inv :: "'w \<Rightarrow> bool"
    and addr :: "string \<Rightarrow> bool"
  assumes save_ok: "inv w \<Longrightarrow> addr k \<Longrightarrow> save k ns w = (Ok (), w') \<Longrightarrow> inv w' \<and> holder w' = (holder w)(k \<mapsto> ns)"
    and free_ok: "inv w \<Longrightarrow> addr k \<Longrightarrow> free k w = (Ok (), w') \<Longrightarrow>
      inv w' \<and> holder w k \<noteq> None \<and> holder w' = (holder w)(k := None)"
    and taken_ok: "inv w \<Longrightarrow> addr k \<Longrightarrow> taken k w = (Ok b, w') \<Longrightarrow>
      inv w' \<and> b = (\<exists>ns. holder w k = Some ns \<and> live w ns) \<and>
      holder w' = (if b then holder w else (holder w)(k := None))"
begin

text \<open>Saving an address makes it taken while its namespace lives; freeing it, or the end of the
  namespace, makes it free.\<close>

lemma save_taken:
  assumes "inv w" "addr k" "save k ns w = (Ok (), w1)" "taken k w1 = (Ok b, w2)"
  shows "b = live w1 ns"
  using save_ok [OF assms(1,2,3)] taken_ok [OF _ assms(2,4)] by auto

lemma free_not_taken:
  assumes "inv w" "addr k" "free k w = (Ok (), w1)" "taken k w1 = (Ok b, w2)"
  shows "\<not> b \<and> holder w2 = holder w1"
  using free_ok [OF assms(1,2,3)] taken_ok [OF _ assms(2,4)] by auto

lemma free_twice:
  assumes "inv w" "addr k" "free k w = (Ok (), w1)"
  shows "free k w1 \<noteq> (Ok (), w2)"
  using free_ok [OF assms] free_ok [of w1 k w2] assms(2) by auto

lemma other_addresses:
  assumes "inv w" "addr k" "k' \<noteq> k"
  shows "save k ns w = (Ok (), w1) \<Longrightarrow> holder w1 k' = holder w k'"
    and "free k w = (Ok (), w1) \<Longrightarrow> holder w1 k' = holder w k'"
    and "taken k w = (Ok b, w1) \<Longrightarrow> holder w1 k' = holder w k'"
  using save_ok [OF assms(1,2)] free_ok [OF assms(1,2)] taken_ok [OF assms(1,2)] assms(3) by auto

end

section \<open>The file implementation\<close>

text \<open>The lock directory \<open>d\<close>: no links on the way, and only files in it; when it does not exist there
  is nothing in it. \<open>ENOENT\<close> is reported only when something is missing.\<close>

definition lock_inv :: "string list \<Rightarrow> 'z os_scheme \<Rightarrow> bool" where
  "lock_inv d w \<longleftrightarrow> dir_or_none w d \<and> (\<forall>op p. fault w op p \<noteq> Some ENOENT) \<and>
     (\<forall>c n. lookup w (d @ [c]) = Some n \<longrightarrow> real_dir w d \<and> (\<exists>b. n = File b))"

definition lock_holder :: "string list \<Rightarrow> 'z os_scheme \<Rightarrow> string \<Rightarrow> string option" where
  "lock_holder d w k = (case lookup w (d @ [k]) of Some (File b) \<Rightarrow> Some b | _ \<Rightarrow> None)"

definition ns_live :: "'z os_scheme opener \<Rightarrow> 'z os_scheme \<Rightarrow> string \<Rightarrow> bool" where
  "ns_live GetNS w ns \<longleftrightarrow> \<not> isl (GetNS ns w)"

lemma lock_path:
  assumes "lock_inv d w" "plain k"
  shows "Join [abs_path d, k] = abs_path (d @ [k])"
  using assms by (intro Join_abs_path) (auto simp: lock_inv_def dir_or_none_def)

lemma resolve_missing_dir:
  assumes "dir_or_none w d" "lookup w (d @ [k]) = None" "plain k" "h \<noteq> Create"
  shows "resolve h w (abs_path (d @ [k])) = Inl ENOENT"
proof -
  have plain: "\<forall>c \<in> set (d @ [k]). plain c" using assms by (auto simp: dir_or_none_def)
  have walk: "\<exists>i \<le> length cs. lookup w (e @ take i cs) = None \<Longrightarrow> lookup w e = Some Dir \<Longrightarrow>
      \<forall>c \<in> set cs. plain c \<Longrightarrow> \<forall>i \<le> length cs. lookup w (e @ take i cs) \<in> {None, Some Dir} \<Longrightarrow>
      walk (lookup w) h n e cs = Inl ENOENT" for cs e n
  proof (induction cs arbitrary: e)
    case (Cons c cs)
    have c: "lookup w (e @ [c]) \<in> {None, Some Dir}" using Cons.prems(4) [rule_format, of 1] by simp
    show ?case
    proof (cases "lookup w (e @ [c])")
      case None
      with Cons.prems(3) \<open>h \<noteq> Create\<close> show ?thesis by (simp add: plain_def)
    next
      case (Some n)
      with c have dir: "lookup w (e @ [c]) = Some Dir" by simp
      from Cons.prems(1) obtain j where j: "j \<le> length (c # cs)" "lookup w (e @ take j (c # cs)) = None" by blast
      with Cons.prems(2) obtain i where "j = Suc i" by (cases j) auto
      with j have "i \<le> length cs" "lookup w ((e @ [c]) @ take i cs) = None" by auto
      moreover have "\<forall>i \<le> length cs. lookup w ((e @ [c]) @ take i cs) \<in> {None, Some Dir}"
      proof (intro allI impI)
        fix i assume "i \<le> length cs"
        then show "lookup w ((e @ [c]) @ take i cs) \<in> {None, Some Dir}" using Cons.prems(4) [rule_format, of "Suc i"] by simp
      qed
      ultimately show ?thesis using Cons.IH [of "e @ [c]"] Cons.prems(3) dir by (auto simp: plain_def)
    qed
  qed simp
  have all: "lookup w (take i (d @ [k])) \<in> {None, Some Dir}" if "i \<le> length (d @ [k])" for i
    using that assms(1,2) by (cases "i = Suc (length d)") (auto simp: dir_or_none_def)
  have "\<exists>i \<le> length (d @ [k]). lookup w ([] @ take i (d @ [k])) = None"
    using assms(2) by (intro exI [of _ "length (d @ [k])"]) simp
  then have "walk (lookup w) h max_links [] (d @ [k]) = Inl ENOENT"
    by (rule walk) (use plain all in \<open>auto simp: lookup_def\<close>)
  then show ?thesis by (simp add: resolve_def components_abs_path [OF plain])
qed

lemma lock_entry:
  assumes "lock_inv d w" "lookup w (d @ [k]) = Some n"
  shows "real_dir w d" "\<exists>b. n = File b"
  using assms by (auto simp: lock_inv_def)

lemma lock_inv_put:
  assumes "real_dir w d" "lock_inv d w"
  shows "lock_inv d (put (d @ [k]) (File b) w)" "lock_holder d (put (d @ [k]) (File b) w) = (lock_holder d w)(k \<mapsto> b)"
proof -
  have "real_dir (put (d @ [k]) (File b) w) d" using assms(1) by simp
  then have "dir_or_none (put (d @ [k]) (File b) w) d" by (auto simp: real_dir_def dir_or_none_def)
  with \<open>real_dir (put (d @ [k]) (File b) w) d\<close> assms(2) show "lock_inv d (put (d @ [k]) (File b) w)"
    by (auto simp: lock_inv_def split: if_splits)
  show "lock_holder d (put (d @ [k]) (File b) w) = (lock_holder d w)(k \<mapsto> b)"
    by (auto simp: lock_holder_def)
qed

lemma lock_inv_del:
  assumes "real_dir w d" "lock_inv d w"
  shows "lock_inv d (del (d @ [k]) w)" "lock_holder d (del (d @ [k]) w) = (lock_holder d w)(k := None)"
proof -
  have "real_dir (del (d @ [k]) w) d" using assms(1) by simp
  then have "dir_or_none (del (d @ [k]) w) d" by (auto simp: real_dir_def dir_or_none_def)
  with \<open>real_dir (del (d @ [k]) w) d\<close> assms(2) show "lock_inv d (del (d @ [k]) w)"
    by (auto simp: lock_inv_def split: if_splits)
  show "lock_holder d (del (d @ [k]) w) = (lock_holder d w)(k := None)"
    by (auto simp: lock_holder_def)
qed

lemma mkdir_keeps_locks:
  assumes "lock_inv d w" "os_MkdirAll (abs_path d) w = (Inr (), w')"
  shows "real_dir w' d \<and> lock_inv d w' \<and> lock_holder d w' = lock_holder d w"
proof -
  have dn: "dir_or_none w d" using assms(1) by (simp add: lock_inv_def)
  note eff = MkdirAll_effect [OF dn assms(2)]
  have same: "lookup w' (d @ [c]) = lookup w (d @ [c])" for c
    using eff entry_not_prefix [of d c] by blast
  from eff have "real_dir w' d" "dir_or_none w' d" "fault w' = fault w" by auto
  with assms(1) same show ?thesis by (auto simp: lock_inv_def lock_holder_def)
qed

lemma SaveAllocatedPCI_Ok:
  assumes "lock_inv d w" "plain k" "SaveAllocatedPCI \<lparr>dataDir = abs_path d\<rparr> k ns w = (Ok (), w')"
  shows "lock_inv d w' \<and> lock_holder d w' = (lock_holder d w)(k \<mapsto> ns)"
proof -
  from assms(3) obtain w1 where w1: "os_MkdirAll (abs_path d) w = (Inr (), w1)"
    "os_WriteFile (Join [abs_path d, k]) ns w1 = (Inr (), w')"
    by (auto simp: SaveAllocatedPCI_def Let_def ok_iffs)
  note dir = mkdir_keeps_locks [OF assms(1) w1(1)]
  have only: "\<And>n. lookup w1 (d @ [k]) = Some n \<Longrightarrow> \<exists>b. n = File b" using dir lock_entry by blast
  have "w' = put (d @ [k]) (File ns) w1"
    using w1(2) dir assms(2) only lock_path [of d w1 k]
    by (simp add: WriteFile_entry split: option.splits)
  with lock_inv_put [of w1 d k ns] dir show ?thesis by simp
qed

lemma DeleteAllocatedPCI_Ok:
  assumes "lock_inv d w" "plain k" "DeleteAllocatedPCI \<lparr>dataDir = abs_path d\<rparr> k w = (Ok (), w')"
  shows "lock_inv d w' \<and> lock_holder d w k \<noteq> None \<and> lock_holder d w' = (lock_holder d w)(k := None)"
proof -
  from assms have rm: "os_Remove (abs_path (d @ [k])) w = (Inr (), w')"
    by (auto simp: DeleteAllocatedPCI_def Let_def ok_iffs lock_path)
  show ?thesis
  proof (cases "lookup w (d @ [k])")
    case None
    with resolve_missing_dir [of w d k NoFollow] assms(1,2) rm show ?thesis
      by (auto simp: os_Remove_def find_node_def lock_inv_def split: option.splits)
  next
    case (Some n)
    note f = lock_entry [OF assms(1) Some]
    have "w' = del (d @ [k]) w"
      using rm Remove_entry [of w d k] f Some assms(2) by (auto split: option.splits)
    with lock_inv_del [OF f(1) assms(1)] f(2) Some show ?thesis by (auto simp: lock_holder_def)
  qed
qed

lemma IsAllocated_Ok:
  assumes "lock_inv d w" "plain k" "IsAllocated GetNS \<lparr>dataDir = abs_path d\<rparr> k w = (Ok b, w')"
  shows "lock_inv d w' \<and> b = (\<exists>ns. lock_holder d w k = Some ns \<and> ns_live GetNS w ns) \<and>
    lock_holder d w' = (if b then lock_holder d w else (lock_holder d w)(k := None))"
proof (cases "lookup w (d @ [k])")
  case None
  have "\<exists>e. fst (os_Stat (abs_path (d @ [k])) w) = Inl e"
    using resolve_missing_dir [of w d k Follow] None assms(1,2)
    by (auto simp: os_Stat_def find_node_def lock_inv_def split: option.split)
  with assms have "\<not> b" "w' = w"
    by (auto simp: IsAllocated_def Let_def lock_path try_else_def os_calls fail_def ret_def split: if_splits)
  with None assms(1) show ?thesis by (auto simp: lock_holder_def)
next
  case (Some n)
  note f = lock_entry [OF assms(1) Some]
  then obtain dat where dat: "n = File dat" by blast
  let ?p = "abs_path (d @ [k])"
  have "fault w ''stat'' ?p \<noteq> Some ENOENT" using assms(1) by (simp add: lock_inv_def)
  then have stat: "(\<exists>e. fst (os_Stat ?p w) = Inl e \<and> \<not> IsNotExist e) \<or> (\<exists>fi. fst (os_Stat ?p w) = Inr fi)"
    using Stat_entry [OF f(1) assms(2)] f(2) Some by (auto split: option.split)
  with assms(1,3) have read: "fst (os_ReadFile ?p w) = Inr dat" and
    after: "try_else (ask (GetNS dat))
       (\<lambda>_. check (DeleteAllocatedPCI \<lparr>dataDir = abs_path d\<rparr> k)
          (\<lambda>err. Errorf ''error deleting the pci allocation for vf pci address %s: %v'' [S k, E err])
          (\<lambda>_. ret False)) (\<lambda>_. ret True) w = (Ok b, w')"
    using ReadFile_entry [OF f(1) assms(2)] Some dat assms(2)
    by (auto simp: IsAllocated_def Let_def lock_path try_else_def check_def os_calls fail_def os_ReadFile_def find_node_def
        split: sum.splits option.splits)
  show ?thesis
  proof (cases "GetNS dat w")
    case (Inr h)
    with after have "b" "w' = w" by simp_all
    with Inr Some dat assms(1) show ?thesis by (simp add: lock_holder_def ns_live_def)
  next
    case (Inl e)
    with after have "\<not> b" "DeleteAllocatedPCI \<lparr>dataDir = abs_path d\<rparr> k w = (Ok (), w')"
      by (auto simp: ok_iffs)
    with DeleteAllocatedPCI_Ok [OF assms(1,2)] Inl Some dat show ?thesis
      by (auto simp: lock_holder_def ns_live_def)
  qed
qed

interpretation locks: pci_allocation "SaveAllocatedPCI \<lparr>dataDir = abs_path d\<rparr>" "DeleteAllocatedPCI \<lparr>dataDir = abs_path d\<rparr>"
    "IsAllocated GetNS \<lparr>dataDir = abs_path d\<rparr>" "lock_holder d" "ns_live GetNS" "lock_inv d" plain
  for d :: "string list" and GetNS :: "'z os_scheme opener"
  by unfold_locales (rule SaveAllocatedPCI_Ok DeleteAllocatedPCI_Ok IsAllocated_Ok; assumption)+

section \<open>Properties\<close>

lemma NewPCIAllocator_dir:
  "\<forall>c \<in> set e. plain c \<Longrightarrow> NewPCIAllocator (abs_path e) = \<lparr>dataDir = abs_path (e @ [''pci''])\<rparr>"
  by (simp add: NewPCIAllocator_def Join_abs_path plain_def)

text \<open>\<open>IsAllocated\<close> answers exactly whether the address has a lock whose namespace can still be
  opened. A lock whose namespace is gone is removed on the way (the address of a pod that died
  without a \<open>DEL\<close> is free again), and no other lock changes.\<close>

theorem is_allocated_iff_live:
  assumes "\<forall>c \<in> set e. plain c" "plain k" "lock_inv (e @ [''pci'']) w"
    and "IsAllocated GetNS (NewPCIAllocator (abs_path e)) k w = (Ok b, w')"
  shows "b = (\<exists>ns. lock_holder (e @ [''pci'']) w k = Some ns \<and> ns_live GetNS w ns) \<and>
    lock_holder (e @ [''pci'']) w' = (if b then lock_holder (e @ [''pci'']) w else (lock_holder (e @ [''pci'']) w)(k := None)) \<and>
    lock_inv (e @ [''pci'']) w'"
  using locks.taken_ok [OF assms(3,2) assms(4) [unfolded NewPCIAllocator_dir [OF assms(1)]]] by blast


section \<open>Witnesses\<close>

text \<open>An empty file system; the namespace \<open>/n\<close> can be opened.\<close>

definition empty_os :: os where
  "empty_os = \<lparr>nodes = [], cwd = [], fault = \<lambda>_ _. None\<rparr>"

definition demo_opener :: "os opener" where
  "demo_opener ns w = (if ns = ''/n'' then Inr \<lparr>Fd = 5, Path = ns, Do = \<lambda>f. f\<rparr> else Inl ENOENT)"

definition demo_locks :: os where
  "demo_locks = empty_os\<lparr>nodes := [([''c'', ''pci'', ''k''], File ''/n''), ([''c'', ''pci''], Dir), ([''c''], Dir)]\<rparr>"

lemma demo_plain: "\<forall>c \<in> set [''c'']. plain c" "plain ''k''"
  by (simp_all add: plain_def)

lemma demo_empty_inv: "lock_inv ([''c''] @ [''pci'']) empty_os"
  by (auto simp: lock_inv_def dir_or_none_def empty_os_def lookup_def plain_def)

lemma demo_save: "SaveAllocatedPCI (NewPCIAllocator (abs_path [''c''])) ''k'' ''/n'' empty_os = (Ok (), demo_locks)"
proof -
  have path: "Join [abs_path [''c'', ''pci''], ''k''] = abs_path [''c'', ''pci'', ''k'']"
    using Join_abs_path [of "[''c'', ''pci'']" "''k''"] by (simp add: plain_def)
  have comps: "components (abs_path [''c'', ''pci'']) = [''c'', ''pci'']"
    "components (abs_path [''c'', ''pci'', ''k'']) = [''c'', ''pci'', ''k'']"
    by (rule components_abs_path, simp add: plain_def)+
  show ?thesis
    unfolding NewPCIAllocator_dir [OF demo_plain(1)]
    by (simp add: SaveAllocatedPCI_def Let_def ok_iffs path os_MkdirAll_def os_WriteFile_def comps resolve_def
        lookup_def empty_os_def demo_locks_def put_def max_links_def)
qed

lemma demo_locks_inv: "lock_inv ([''c''] @ [''pci'']) demo_locks"
  "lock_holder ([''c''] @ [''pci'']) demo_locks = [''k'' \<mapsto> ''/n'']"
  using SaveAllocatedPCI_Ok [OF demo_empty_inv demo_plain(2) demo_save [unfolded NewPCIAllocator_dir [OF demo_plain(1)]]]
  by (auto simp: lock_holder_def empty_os_def lookup_def)

lemma demo_free: "\<exists>w'. DeleteAllocatedPCI (NewPCIAllocator (abs_path [''c''])) ''k'' demo_locks = (Ok (), w')"
proof -
  have real: "real_dir demo_locks ([''c''] @ [''pci''])"
    by (rule lock_entry [OF demo_locks_inv(1), of "''k''"]) (simp add: lookup_def demo_locks_def)
  have path: "Join [abs_path ([''c''] @ [''pci'']), ''k''] = abs_path (([''c''] @ [''pci'']) @ [''k''])"
    by (rule Join_abs_path) (simp_all add: plain_def)
  have "lookup demo_locks (([''c''] @ [''pci'']) @ [''k'']) = Some (File ''/n'')" "fault demo_locks = (\<lambda>_ _. None)"
    by (simp_all add: lookup_def demo_locks_def empty_os_def)
  then show ?thesis
    unfolding NewPCIAllocator_dir [OF demo_plain(1)]
    using Remove_entry [of demo_locks "[''c''] @ [''pci'']" "''k''"] real demo_plain
    by (simp add: DeleteAllocatedPCI_def Let_def ok_iffs path del: append.simps)
qed

lemma demo_is_allocated: "\<exists>b. IsAllocated demo_opener (NewPCIAllocator (abs_path [''c''])) ''k'' demo_locks = (Ok b, demo_locks)"
proof -
  have real: "real_dir demo_locks ([''c''] @ [''pci''])"
    by (rule lock_entry [OF demo_locks_inv(1), of "''k''"]) (simp add: lookup_def demo_locks_def)
  have path: "Join [abs_path ([''c''] @ [''pci'']), ''k''] = abs_path (([''c''] @ [''pci'']) @ [''k''])"
    by (rule Join_abs_path) (simp_all add: plain_def)
  have n: "lookup demo_locks (([''c''] @ [''pci'']) @ [''k'']) = Some (File ''/n'')" "fault demo_locks = (\<lambda>_ _. None)"
    by (simp_all add: lookup_def demo_locks_def empty_os_def)
  then show ?thesis
    unfolding NewPCIAllocator_dir [OF demo_plain(1)]
    using Stat_entry [of demo_locks "[''c''] @ [''pci'']" "''k''"] ReadFile_entry [of demo_locks "[''c''] @ [''pci'']" "''k''"] real demo_plain
    by (simp add: IsAllocated_def Let_def path try_else_def check_def os_calls ask_def demo_opener_def ret_def del: append.simps) blast
qed

theorem is_allocated_iff_live_witness:
  "IsAllocated demo_opener (NewPCIAllocator (abs_path [''c''])) ''k'' demo_locks = (Ok True, demo_locks)"
proof -
  from demo_is_allocated obtain b where
    run: "IsAllocated demo_opener (NewPCIAllocator (abs_path [''c''])) ''k'' demo_locks = (Ok b, demo_locks)" by blast
  from is_allocated_iff_live [OF demo_plain demo_locks_inv(1) run] have "b"
    by (simp add: demo_locks_inv(2) [simplified] ns_live_def demo_opener_def)
  with run show ?thesis by simp
qed


end
