(* ===== verification/Logging.thy ===== *)
theory Logging
  imports GoStrconv
begin

text \<open>
  \<open>sriov_cni/pkg/logging/logging.go\<close>: the labels every log line of the CNI starts with, and the choice
  of level and file. The \<open>cni-log\<close> library is outside the repository: its level names are a record of
  parameters, and what the wrapper sets in it (level, file, standard error) is part of the state.
\<close>

record cnilog =
  StringToLevel :: "string \<Rightarrow> int"
  InvalidLevel :: int
  InfoLevel :: int
  ErrorLevel :: int

record log_state =
  level :: int
  to_stderr :: bool
  logFile :: string
  containerID :: string
  netNS :: string
  ifName :: string

definition labelCNIName :: string where "labelCNIName = ''cniName''"
definition labelContainerID :: string where "labelContainerID = ''containerID''"
definition labelNetNS :: string where "labelNetNS = ''netns''"
definition labelIFName :: string where "labelIFName = ''ifname''"
definition cniName :: string where "cniName = ''sriov-cni''"

definition setLogLevel :: "cnilog \<Rightarrow> string \<Rightarrow> log_state \<Rightarrow> log_state" where
  "setLogLevel lib l s =
    (let ll = StringToLevel lib l;
         ll' = (if ll = InvalidLevel lib then InfoLevel lib else ll) in
     s\<lparr>level := ll'\<rparr>)"

definition setLogFile :: "string \<Rightarrow> log_state \<Rightarrow> log_state" where
  "setLogFile fileName s =
    (if fileName = [] then s\<lparr>to_stderr := True, logFile := []\<rparr>
     else s\<lparr>logFile := fileName, to_stderr := False\<rparr>)"

definition log_Init :: "cnilog \<Rightarrow> string \<Rightarrow> string \<Rightarrow> string \<Rightarrow> string \<Rightarrow> string \<Rightarrow> log_state \<Rightarrow> log_state" where
  "log_Init lib lvl fileName containerIdentification networkNamespace interfaceName s =
    (let s1 = setLogFile fileName (setLogLevel lib lvl s) in
     s1\<lparr>containerID := containerIdentification, netNS := networkNamespace, ifName := interfaceName\<rparr>)"

definition prependArgs :: "log_state \<Rightarrow> arg list \<Rightarrow> arg list" where
  "prependArgs s args =
    (let args1 = (if ifName s \<noteq> [] then [S labelIFName, S (ifName s)] @ args else args);
         args2 = (if netNS s \<noteq> [] then [S labelNetNS, S (netNS s)] @ args1 else args1);
         args3 = (if containerID s \<noteq> [] then [S labelContainerID, S (containerID s)] @ args2 else args2) in
     [S labelCNIName, S cniName] @ args3)"

text \<open>\<open>Debug\<close>, \<open>Info\<close>, \<open>Warning\<close>, \<open>Error\<close> and \<open>Panic\<close> hand the message with these arguments to the
  structured function of the library of the same level.\<close>

definition log_call :: "(string \<Rightarrow> arg list \<Rightarrow> 'r) \<Rightarrow> log_state \<Rightarrow> string \<Rightarrow> arg list \<Rightarrow> 'r" where
  "log_call structured s msg args = structured msg (prependArgs s args)"

text \<open>The arguments as key and value pairs, which is how the structured functions read them.\<close>

fun log_pairs :: "'a list \<Rightarrow> ('a \<times> 'a) list option" where
  "log_pairs [] = Some []"
| "log_pairs [k] = None"
| "log_pairs (k # v # rest) = map_option ((#) (k, v)) (log_pairs rest)"

text \<open>After \<open>Init\<close> every log call carries the CNI name first and then exactly those of container,
  namespace and interface that are not empty, in this order, before the caller's own arguments; a
  caller's list of pairs stays a list of pairs. An unknown level falls back to the info level, and
  the log goes either to the file or to standard error, never to both.\<close>

theorem log_labels:
  "(case log_pairs args of None \<Rightarrow> True | Some ps \<Rightarrow>
      log_pairs (prependArgs (log_Init lib l f c n i s) args) = Some
        (filter (\<lambda>(k, v). v \<noteq> S [])
           [(S ''cniName'', S ''sriov-cni''), (S ''containerID'', S c), (S ''netns'', S n), (S ''ifname'', S i)] @ ps)) \<and>
   level (log_Init lib l f c n i s) =
     (if StringToLevel lib l = InvalidLevel lib then InfoLevel lib else StringToLevel lib l) \<and>
   to_stderr (log_Init lib l f c n i s) = (f = []) \<and> logFile (log_Init lib l f c n i s) = f"
  by (auto simp: prependArgs_def log_Init_def setLogLevel_def setLogFile_def Let_def labelCNIName_def
      labelContainerID_def labelNetNS_def labelIFName_def cniName_def split: option.split)

end
