(* ===== verification/CniConfig.thy ===== *)
theory CniConfig
  imports NetConfJson SysFs PciAllocator Logging
begin

text \<open>
  \<open>sriov_cni/pkg/config/config.go\<close> and the cache functions of \<open>utils.go\<close>: the configuration of an
  \<open>ADD\<close>, checked and completed from sysfs and the lock files, and the file in which it waits for the
  \<open>DEL\<close>. \<open>render\<close> and \<open>parse\<close> are the JSON text codec, \<open>GetNS\<close> opens a namespace.
\<close>

section \<open>Cache files\<close>

definition saveScratchNetConf :: "string \<Rightarrow> string \<Rightarrow> string \<Rightarrow> ('z os_scheme, unit) prog" where
  "saveScratchNetConf cref dir netconf =
     check (call (os_MkdirAll dir))
       (\<lambda>err. Errorf ''failed to create the sriov data directory(%q): %v'' [S dir, E err]) (\<lambda>_.
     let path = Join [dir, cref] in
     check (call (os_WriteFile path netconf))
       (\<lambda>err. Errorf ''failed to write container data in the path(%q): %v'' [S path, E err]) ret)"

definition cache_ref :: "string \<Rightarrow> string \<Rightarrow> string" where
  "cache_ref cid podIfName = strings_Join ''-'' [cid, podIfName]"

text \<open>\<open>json.Marshal\<close> of a \<open>NetConf\<close> does not fail.\<close>

definition SaveNetConf :: "(json \<Rightarrow> string) \<Rightarrow> string \<Rightarrow> string \<Rightarrow> string \<Rightarrow> NetConf \<Rightarrow> ('z os_scheme, unit) prog" where
  "SaveNetConf render cid dir podIfName conf =
     saveScratchNetConf (cache_ref cid podIfName) dir (render (json_of_NetConf conf))"

definition ReadScratchNetConf :: "string \<Rightarrow> ('z os_scheme, string) prog" where
  "ReadScratchNetConf cRefPath =
     check (call (os_ReadFile cRefPath))
       (\<lambda>err. Errorf ''failed to read container data in the path(%q): %v'' [S cRefPath, E err]) ret"

definition CleanCachedNetConf :: "string \<Rightarrow> ('z os_scheme, unit) prog" where
  "CleanCachedNetConf cRefPath =
     check (call (os_Remove cRefPath))
       (\<lambda>err. Errorf ''error removing NetConf file %s: %v'' [S cRefPath, E err]) ret"

section \<open>Loading a configuration\<close>

definition DefaultCNIDir :: string where "DefaultCNIDir = ''/var/lib/cni/sriov''"
definition default_addr :: string where "default_addr = ''localhost:50151''"

definition SetLogging :: "cnilog \<Rightarrow> (string \<Rightarrow> error + json) \<Rightarrow> string \<Rightarrow> string \<Rightarrow> string \<Rightarrow> string \<Rightarrow> log_state \<Rightarrow> error + log_state" where
  "SetLogging lib parse stdinData cid netns ifname s =
     (case then_dec (parse stdinData) NetConf_of_json of
        Inl err \<Rightarrow> Inl (Errorf ''SetLogging(): failed to load netconf: %v'' [E err])
      | Inr n \<Rightarrow> Inr (log_Init lib (LogLevel n) (LogFile n) cid netns ifname s))"

definition config_getVfInfo :: "string \<Rightarrow> ('z os_scheme, string \<times> int) prog" where
  "config_getVfInfo vfPci =
     andthen (GetPfName vfPci) (\<lambda>pf.
     andthen (GetVfid vfPci pf) (\<lambda>vfID.
     ret (pf, vfID)))"

text \<open>The name of the network device, and whether the function has a DPDK driver instead.\<close>

definition load_device :: "NetConf \<Rightarrow> ('z os_scheme, NetConf) prog" where
  "load_device n =
     andthen (try_else (GetVFLinkName (DeviceID n)) (\<lambda>_. ret []) ret) (\<lambda>hostIFName.
     andthen (if hostIFName = []
        then check (HasDpdkDriver (DeviceID n))
               (\<lambda>err. Errorf ''LoadConf(): failed to detect if VF %s has dpdk driver %q'' [S (DeviceID n), E err])
               (\<lambda>hasDpdkDriver. ret (n\<lparr>DPDKMode := hasDpdkDriver\<rparr>))
        else ret n) (\<lambda>n.
     let n = (if hostIFName \<noteq> [] then n\<lparr>OrigVfState := (OrigVfState n)\<lparr>HostIFName := hostIFName\<rparr>\<rparr> else n) in
     if hostIFName = [] \<and> \<not> DPDKMode n
     then fail (Errorf ''LoadConf(): the VF %s does not have a interface name or a dpdk driver'' [S (DeviceID n)])
     else ret n))"

text \<open>The defaults and checks of the VLAN fields and the link state.\<close>

definition load_vlan :: "NetConf \<Rightarrow> error + NetConf" where
  "load_vlan n =
    (let vlan = (case Vlan n of None \<Rightarrow> 0 | Some v \<Rightarrow> v) in
     if vlan < 0 \<or> vlan > 4094
     then Inl (Errorf ''LoadConf(): vlan id %d invalid: value must be in the range 0-4094'' [I vlan])
     else let qos = (case VlanQoS n of None \<Rightarrow> 0 | Some q \<Rightarrow> q) in
     if qos < 0 \<or> qos > 7
     then Inl (Errorf ''LoadConf(): vlan QoS PCP %d invalid: value must be in the range 0-7'' [I qos])
     else if qos \<noteq> 0 \<and> vlan = 0
     then Inl (Errorf ''LoadConf(): non-zero vlan id must be configured to set vlan QoS to a non-zero value'' [])
     else let proto = ToLower (case VlanProto n of None \<Rightarrow> Proto8021q | Some p \<Rightarrow> p) in
     if proto \<noteq> Proto8021ad \<and> proto \<noteq> Proto8021q
     then Inl (Errorf (''LoadConf(): vlan Proto %s invalid: value must be '802.1Q' or '802.1ad'' @ [CHR 0x27]) [S proto])
     else if proto = Proto8021ad \<and> vlan = 0
     then Inl (Errorf ''LoadConf(): non-zero vlan id must be configured to set vlan proto 802.1ad'' [])
     else if LinkState n \<noteq> [] \<and> LinkState n \<noteq> ''auto'' \<and> LinkState n \<noteq> ''enable'' \<and> LinkState n \<noteq> ''disable''
     then Inl (Errorf ''LoadConf(): invalid link_state value: %s'' [S (LinkState n)])
     else Inr (n\<lparr>Vlan := Some vlan, VlanQoS := Some qos, VlanProto := Some proto\<rparr>))"

definition LoadConf :: "(string \<Rightarrow> error + json) \<Rightarrow> 'z os_scheme opener \<Rightarrow> string \<Rightarrow> ('z os_scheme, NetConf) prog" where
  "LoadConf parse GetNS bytes =
     check (of_res (of_sum (then_dec (parse bytes) NetConf_of_json)))
       (\<lambda>err. Errorf ''LoadConf(): failed to load netconf: %v'' [E err]) (\<lambda>n.
     let n = (if DpuDaemonAddress n = [] then n\<lparr>DpuDaemonAddress := default_addr\<rparr> else n) in
     if DeviceID n = [] then fail (Errorf ''LoadConf(): VF pci addr is required'' [])
     else check (config_getVfInfo (DeviceID n))
       (\<lambda>err. Errorf ''LoadConf(): failed to get VF information: %q'' [E err]) (\<lambda>(pfName, vfID).
     let n = n\<lparr>VFID := vfID, Master := pfName\<rparr>;
         allocator = NewPCIAllocator DefaultCNIDir in
     andthen (IsAllocated GetNS allocator (DeviceID n)) (\<lambda>isAllocated.
     if isAllocated then fail (Errorf ''pci address %s is already allocated'' [S (DeviceID n)])
     else andthen (load_device n) (\<lambda>n. of_res (of_sum (load_vlan n))))))"

definition LoadConfFromCache :: "(string \<Rightarrow> error + json) \<Rightarrow> string \<Rightarrow> string \<Rightarrow> ('z os_scheme, NetConf \<times> string) prog" where
  "LoadConfFromCache parse cid ifname =
    (let cRef = strings_Join ''-'' [cid, ifname];
         cRefPath = Join [DefaultCNIDir, cRef] in
     check (ReadScratchNetConf cRefPath)
       (\<lambda>err. Errorf ''error reading cached NetConf in %s with name %s'' [S DefaultCNIDir, S cRef]) (\<lambda>netConfBytes.
     check (of_res (of_sum (then_dec (parse netConfBytes) NetConf_of_json)))
       (\<lambda>err. Errorf ''failed to parse NetConf: %q'' [E err]) (\<lambda>netConf.
     ret (netConf, cRefPath))))"

definition GetMacAddressForResult :: "NetConf \<Rightarrow> string" where
  "GetMacAddressForResult netConf =
    (if MAC netConf \<noteq> [] then MAC netConf
     else if \<not> DPDKMode netConf then EffectiveMAC (OrigVfState netConf)
     else if AdminMAC (OrigVfState netConf) \<noteq> ''00:00:00:00:00:00'' then AdminMAC (OrigVfState netConf)
     else [])"

section \<open>What a loaded configuration satisfies\<close>

definition vlan_ok :: "NetConf \<Rightarrow> bool" where
  "vlan_ok n \<longleftrightarrow> (\<exists>v q p. Vlan n = Some v \<and> VlanQoS n = Some q \<and> VlanProto n = Some p \<and>
     0 \<le> v \<and> v \<le> 4094 \<and> 0 \<le> q \<and> q \<le> 7 \<and> (q \<noteq> 0 \<longrightarrow> v \<noteq> 0) \<and>
     (p = Proto8021q \<or> (p = Proto8021ad \<and> v \<noteq> 0))) \<and>
     LinkState n \<in> {[], ''auto'', ''enable'', ''disable''}"

lemma load_vlan_Inr:
  assumes "load_vlan n = Inr n'"
  shows "vlan_ok n' \<and> n' = n\<lparr>Vlan := Vlan n', VlanQoS := VlanQoS n', VlanProto := VlanProto n'\<rparr>"
  using assms unfolding load_vlan_def Let_def vlan_ok_def
  by (auto split: if_splits)

lemma load_device_Ok:
  assumes "load_device n w = (Ok n', w')"
  shows "w' = w \<and> (HostIFName (OrigVfState n') \<noteq> [] \<or> DPDKMode n') \<and> DeviceID n' = DeviceID n \<and>
    VFID n' = VFID n \<and> Master n' = Master n \<and> DpuDaemonAddress n' = DpuDaemonAddress n"
proof -
  have "keeps (\<lambda>u. u = w) (load_device n)"
    unfolding load_device_def Let_def by (auto intro!: keeps_intros)
  with assms have "w' = w" by (auto dest: keepsD)
  with assms show ?thesis
    unfolding load_device_def Let_def by (auto simp: ok_iffs split: if_splits)
qed

lemma config_getVfInfo_Ok:
  assumes "config_getVfInfo d w = (Ok (pf, vf), w')"
  shows "w' = w \<and> GetPciAddress pf vf w = (Ok d, w) \<and> 0 \<le> vf"
proof -
  from assms obtain w1 where pf: "GetPfName d w = (Ok pf, w1)" and vf: "GetVfid d pf w1 = (Ok vf, w')"
    by (auto simp: config_getVfInfo_def ok_iffs)
  have "w1 = w" using sysfs_keeps_more(1) [of "\<lambda>u. u = w"] pf by (auto dest: keepsD)
  with GetVfid_Ok [OF vf] show ?thesis by simp
qed

lemma DefaultCNIDir_path: "DefaultCNIDir = abs_path [''var'', ''lib'', ''cni'', ''sriov'']"
  by (simp add: DefaultCNIDir_def abs_path_def)

lemma DefaultCNIDir_plain: "\<forall>c \<in> set [''var'', ''lib'', ''cni'', ''sriov'']. plain c"
  by (simp add: plain_def)

definition cni_dir :: "string list" where "cni_dir = [''var'', ''lib'', ''cni'', ''sriov'']"
definition lock_dir :: "string list" where "lock_dir = cni_dir @ [''pci'']"

lemma default_allocator: "NewPCIAllocator DefaultCNIDir = \<lparr>dataDir = abs_path lock_dir\<rparr>"
  unfolding DefaultCNIDir_path lock_dir_def cni_dir_def by (rule NewPCIAllocator_dir [OF DefaultCNIDir_plain])

lemma LoadConf_Ok:
  assumes run: "LoadConf parse GetNS bytes w = (Ok n, w')"
    and locks: "lock_inv lock_dir w" "\<And>c. then_dec (parse bytes) NetConf_of_json = Inr c \<Longrightarrow> plain (DeviceID c)"
  shows "vlan_ok n \<and> DeviceID n \<noteq> [] \<and> DpuDaemonAddress n \<noteq> [] \<and>
    (HostIFName (OrigVfState n) \<noteq> [] \<or> DPDKMode n) \<and>
    0 \<le> VFID n \<and> GetPciAddress (Master n) (VFID n) w = (Ok (DeviceID n), w) \<and>
    \<not> (\<exists>ns. lock_holder lock_dir w (DeviceID n) = Some ns \<and> ns_live GetNS w ns) \<and>
    lock_holder lock_dir w' = (lock_holder lock_dir w)(DeviceID n := None)"
proof -
  from run obtain c where c: "then_dec (parse bytes) NetConf_of_json = Inr c" by (auto simp: LoadConf_def ok_iffs)
  let ?c = "if DpuDaemonAddress c = [] then c\<lparr>DpuDaemonAddress := default_addr\<rparr> else c"
  have dev: "DeviceID ?c = DeviceID c" by simp
  from run c have dev: "DeviceID c \<noteq> []" by (auto simp: LoadConf_def ok_iffs Let_def split: if_splits)
  from run c dev obtain pf vf w1 w2 n1 w3 where
    info: "config_getVfInfo (DeviceID c) w = (Ok (pf, vf), w1)" and
    free: "IsAllocated GetNS (NewPCIAllocator DefaultCNIDir) (DeviceID c) w1 = (Ok False, w2)" and
    device: "load_device (?c\<lparr>VFID := vf, Master := pf\<rparr>) w2 = (Ok n1, w3)" and
    vlan: "load_vlan n1 = Inr n" and "w' = w3"
    unfolding LoadConf_def Let_def
    by (auto simp: ok_iffs split: if_splits prod.splits)
  note i = config_getVfInfo_Ok [OF info]
  note d = load_device_Ok [OF device]
  have n: "DeviceID n = DeviceID c" "VFID n = vf" "Master n = pf" "DpuDaemonAddress n = DpuDaemonAddress ?c"
      "OrigVfState n = OrigVfState n1" "DPDKMode n = DPDKMode n1"
    using load_vlan_Inr [OF vlan] d by (cases n; cases n1; simp)+
  have "plain (DeviceID c)" by (rule locks(2) [OF c])
  from locks.taken_ok [OF locks(1) this free [unfolded default_allocator i [THEN conjunct1]]]
  have l: "\<not> (\<exists>ns. lock_holder lock_dir w (DeviceID c) = Some ns \<and> ns_live GetNS w ns)"
    "lock_holder lock_dir w2 = (lock_holder lock_dir w)(DeviceID c := None)" by auto
  have "DpuDaemonAddress ?c \<noteq> []" by (simp add: default_addr_def)
  then show ?thesis
    using load_vlan_Inr [OF vlan] i d l n dev \<open>w' = w3\<close> by simp
qed

text \<open>C39. A configuration \<open>LoadConf\<close> accepts has its VLAN, QoS, protocol and link state in range (QoS and
  802.1ad need a VLAN), a network device or DPDK mode, a daemon address, and a physical function and
  number that lead back to its PCI address. That address is held by no live namespace; a lock a dead
  one left on it is gone afterwards, and the other locks are untouched.\<close>

theorem load_conf_valid:
  assumes "LoadConf parse GetNS bytes w = (Ok n, w')" "lock_inv lock_dir w"
    and "\<And>c. then_dec (parse bytes) NetConf_of_json = Inr c \<Longrightarrow> plain (DeviceID c)"
  shows "(\<exists>v q p. Vlan n = Some v \<and> VlanQoS n = Some q \<and> VlanProto n = Some p \<and>
      0 \<le> v \<and> v \<le> 4094 \<and> 0 \<le> q \<and> q \<le> 7 \<and> (q \<noteq> 0 \<longrightarrow> v \<noteq> 0) \<and>
      (p = ''802.1q'' \<or> (p = ''802.1ad'' \<and> v \<noteq> 0))) \<and>
    LinkState n \<in> {[], ''auto'', ''enable'', ''disable''} \<and>
    (HostIFName (OrigVfState n) \<noteq> [] \<or> DPDKMode n) \<and> DpuDaemonAddress n \<noteq> [] \<and>
    DeviceID n \<noteq> [] \<and> 0 \<le> VFID n \<and> GetPciAddress (Master n) (VFID n) w = (Ok (DeviceID n), w) \<and>
    \<not> (\<exists>ns. lock_holder lock_dir w (DeviceID n) = Some ns \<and> ns_live GetNS w ns) \<and>
    lock_holder lock_dir w' = (lock_holder lock_dir w)(DeviceID n := None)"
  using LoadConf_Ok [OF assms] unfolding vlan_ok_def Proto8021q_def Proto8021ad_def by blast

section \<open>The cache\<close>

definition cache_file :: "'z os_scheme \<Rightarrow> string \<Rightarrow> bool" where
  "cache_file w c \<longleftrightarrow> dir_or_none w cni_dir \<and> plain c \<and>
     (\<forall>n. lookup w (cni_dir @ [c]) = Some n \<longrightarrow> (\<exists>b. n = File b))"

lemma cache_path: "plain c \<Longrightarrow> Join [DefaultCNIDir, c] = abs_path (cni_dir @ [c])"
  unfolding DefaultCNIDir_path cni_dir_def by (rule Join_abs_path [OF DefaultCNIDir_plain])

lemma SaveNetConf_Ok:
  assumes "cache_file w (cache_ref cid ifn)" "SaveNetConf render cid DefaultCNIDir ifn conf w = (Ok (), w1)"
  shows "real_dir w1 cni_dir \<and>
    lookup w1 (cni_dir @ [cache_ref cid ifn]) = Some (File (render (json_of_NetConf conf))) \<and>
    (\<forall>q. q \<noteq> cni_dir @ [cache_ref cid ifn] \<longrightarrow> lookup w1 q = lookup w q \<or> (lookup w1 q = Some Dir \<and> (\<exists>i \<le> length cni_dir. q = take i cni_dir))) \<and>
    fault w1 = fault w"
proof -
  let ?c = "cache_ref cid ifn"
  have c: "plain ?c" and dn: "dir_or_none w cni_dir" using assms(1) by (simp_all add: cache_file_def)
  have "\<exists>w0. os_MkdirAll (abs_path cni_dir) w = (Inr (), w0) \<and>
      os_WriteFile (abs_path (cni_dir @ [?c])) (render (json_of_NetConf conf)) w0 = (Inr (), w1)"
    using assms(2) cache_path [OF c]
    by (auto simp: SaveNetConf_def saveScratchNetConf_def Let_def ok_iffs DefaultCNIDir_path cni_dir_def)
  then obtain w0 where mk: "os_MkdirAll (abs_path cni_dir) w = (Inr (), w0)"
    and wr: "os_WriteFile (abs_path (cni_dir @ [?c])) (render (json_of_NetConf conf)) w0 = (Inr (), w1)" by blast
  note eff = MkdirAll_effect [OF dn mk]
  then have real: "real_dir w0 cni_dir" by blast
  have only: "\<exists>b. n = File b" if "lookup w0 (cni_dir @ [?c]) = Some n" for n
  proof -
    have "lookup w0 (cni_dir @ [?c]) = lookup w (cni_dir @ [?c])" by (rule MkdirAll_entry [OF dn mk])
    with that assms(1) show ?thesis by (auto simp: cache_file_def)
  qed
  have "w1 = put (cni_dir @ [?c]) (File (render (json_of_NetConf conf))) w0"
    using wr WriteFile_entry [OF real c only] by (auto split: option.splits)
  with real eff show ?thesis by auto
qed

text \<open>C40. What \<open>ADD\<close> saves, \<open>DEL\<close> loads: the same configuration, except that \<open>DPDKMode\<close> is always false.
  After the cached file is removed the load reports an error.\<close>

theorem cache_roundtrip:
  assumes codec: "parse (render (json_of_NetConf conf)) = Inr (json_of_NetConf conf)"
    and conf: "ints_ok conf" "cache_file w (cache_ref cid ifn)"
    and save: "SaveNetConf render cid DefaultCNIDir ifn conf w = (Ok (), w1)"
    and readable: "\<And>p. fault w ''open'' p = None"
  shows "LoadConfFromCache parse cid ifn w1 =
      (Ok (conf\<lparr>DPDKMode := False\<rparr>, Join [DefaultCNIDir, cache_ref cid ifn]), w1) \<and>
    (\<forall>w2. CleanCachedNetConf (Join [DefaultCNIDir, cache_ref cid ifn]) w1 = (Ok (), w2) \<longrightarrow>
      (\<exists>e. LoadConfFromCache parse cid ifn w2 = (Err e, w2)))"
proof -
  let ?c = "cache_ref cid ifn"
  have c: "plain ?c" using conf(2) by (simp add: cache_file_def)
  note eff = SaveNetConf_Ok [OF conf(2) save]
  have f: "fault w1 ''open'' p = None" for p using eff readable by simp
  have "os_ReadFile (abs_path (cni_dir @ [?c])) w1 = (Inr (render (json_of_NetConf conf)), w1)"
    using ReadFile_entry [of w1 cni_dir ?c] eff c f by blast
  then have "LoadConfFromCache parse cid ifn w1 = (Ok (conf\<lparr>DPDKMode := False\<rparr>, Join [DefaultCNIDir, ?c]), w1)"
    using netconf_roundtrip [OF conf(1)] codec cache_path [OF c]
    by (simp add: LoadConfFromCache_def Let_def ok_iffs ReadScratchNetConf_def cache_ref_def)
  moreover have "\<exists>e. LoadConfFromCache parse cid ifn w2 = (Err e, w2)"
    if clean: "CleanCachedNetConf (Join [DefaultCNIDir, ?c]) w1 = (Ok (), w2)" for w2
  proof -
    have "w2 = del (cni_dir @ [?c]) w1"
      using clean Remove_entry [of w1 cni_dir ?c] eff c cache_path [OF c]
      by (auto simp: CleanCachedNetConf_def ok_iffs split: option.splits)
    then have "real_dir w2 cni_dir" "lookup w2 (cni_dir @ [?c]) = None" using eff by simp_all
    then have "resolve Follow w2 (abs_path (cni_dir @ [?c])) = Inl ENOENT"
      using resolve_entry [of w2 cni_dir ?c Follow] c by simp
    then have "\<exists>e. fst (os_ReadFile (abs_path (cni_dir @ [?c])) w2) = Inl e"
      by (auto simp: os_ReadFile_def find_node_def split: option.split)
    then show ?thesis
      using cache_path [OF c]
      by (auto simp: LoadConfFromCache_def Let_def ReadScratchNetConf_def cache_ref_def check_def try_else_def
          os_calls fail_def)
  qed
  ultimately show ?thesis by blast
qed

section \<open>Witnesses\<close>

definition demo_stdin :: "string \<Rightarrow> error + json" where
  "demo_stdin s = Inr (JObj [(''deviceID'', JStr ''0000:af:06.1''), (''vlan'', JInt 7)])"

definition no_ns :: "'z os_scheme opener" where
  "no_ns ns w = Inl ENOENT"

lemma demo_stdin_conf:
  "then_dec (demo_stdin s) NetConf_of_json = Inr (zero_NetConf\<lparr>DeviceID := ''0000:af:06.1'', Vlan := Some 7\<rparr>)"
  by (simp add: demo_stdin_def NetConf_of_json_def dec_NetConf_def dec_VfState_def dec_string_def dec_struct_def
      dec_bool_def dec_int_def dec_uint32_def dec_int_ptr_def dec_string_ptr_def key_lower zero_NetConf_def
      zero_VfState_def in_int64_def)

lemma test_var: "lookup (test_os e) (''var'' # p) = None"
  by (simp add: lookup_def test_os_def test_tree_def pf_dir_def vf_dir_def)

lemma test_lock_inv: "lock_inv lock_dir (test_os e)"
proof -
  have "lookup (test_os e) (take i lock_dir) \<in> {None, Some Dir}" for i
    by (cases i) (simp_all add: lock_dir_def cni_dir_def test_var, simp add: lookup_def)
  then show ?thesis
    by (auto simp: lock_inv_def dir_or_none_def lock_dir_def cni_dir_def plain_def test_var test_os_def [THEN arg_cong, of fault])
qed

lemma test_not_allocated:
  "IsAllocated opn (NewPCIAllocator DefaultCNIDir) ''0000:af:06.1'' (test_os e) = (Ok False, (test_os e))"
proof -
  have p: "plain ''0000:af:06.1''" by (simp add: plain_def)
  have "dir_or_none (test_os e) lock_dir" using test_lock_inv [of e] by (simp add: lock_inv_def)
  moreover have n: "lookup (test_os e) (lock_dir @ [''0000:af:06.1'']) = None"
    by (simp add: lock_dir_def cni_dir_def test_var)
  ultimately have "resolve Follow (test_os e) (abs_path (lock_dir @ [''0000:af:06.1''])) = Inl ENOENT"
    by (intro resolve_missing_dir p) simp_all
  moreover have "fault (test_os e) = (\<lambda>_ _. None)" by (simp add: test_os_def)
  ultimately show ?thesis
    unfolding default_allocator
    by (simp add: IsAllocated_def Let_def lock_path [OF test_lock_inv p] try_else_def os_calls os_Stat_def find_node_def ret_def)
qed

definition demo_loaded :: NetConf where
  "demo_loaded = zero_NetConf\<lparr>DeviceID := ''0000:af:06.1'', Vlan := Some 7, VlanQoS := Some 0,
     VlanProto := Some ''802.1q'', DpuDaemonAddress := default_addr, VFID := 1, Master := ''enp175s0f1'',
     OrigVfState := zero_VfState\<lparr>HostIFName := ''enp175s7''\<rparr>\<rparr>"

lemma demo_device: "DeviceID c = ''0000:af:06.1'' \<Longrightarrow>
    load_device c (test_os e) = (Ok (c\<lparr>OrigVfState := (OrigVfState c)\<lparr>HostIFName := ''enp175s7''\<rparr>\<rparr>), (test_os e))"
  by (simp add: load_device_def andthen_def try_else_def test_names ret_def Let_def)

lemma demo_vlan: "Vlan c = Some 7 \<Longrightarrow> VlanQoS c = None \<Longrightarrow> VlanProto c = None \<Longrightarrow> LinkState c = [] \<Longrightarrow>
    load_vlan c = Inr (c\<lparr>Vlan := Some 7, VlanQoS := Some 0, VlanProto := Some ''802.1q''\<rparr>)"
  by (simp add: load_vlan_def Proto8021q_def Proto8021ad_def ToLower_def lower_char_def)

lemma demo_load: "LoadConf demo_stdin opn s (test_os e) = (Ok demo_loaded, (test_os e))"
proof -
  have "config_getVfInfo ''0000:af:06.1'' (test_os e) = (Ok (''enp175s0f1'', 1), (test_os e))"
    by (simp add: config_getVfInfo_def ok_iffs test_names test_vfid [OF test_sys_like])
  then show ?thesis
    by (simp add: LoadConf_def demo_stdin_conf Let_def check_def andthen_def try_else_def test_not_allocated
        demo_device demo_vlan zero_NetConf_def demo_loaded_def ret_def)
qed

theorem load_conf_valid_witness:
  "\<exists>n. LoadConf demo_stdin no_ns [] (test_os ()) = (Ok n, (test_os ())) \<and>
     GetPciAddress (Master n) (VFID n) (test_os ()) = (Ok (DeviceID n), (test_os ())) \<and> DeviceID n = ''0000:af:06.1''"
proof -
  have "\<And>c. then_dec (demo_stdin []) NetConf_of_json = Inr c \<Longrightarrow> plain (DeviceID c)"
    by (auto simp: demo_stdin_conf plain_def)
  from load_conf_valid [OF demo_load [of no_ns "[]" "()"] test_lock_inv [of "()"] this] demo_load [of no_ns "[]" "()"]
  show ?thesis by (auto simp: demo_loaded_def zero_NetConf_def)
qed

lemma demo_cache_file: "cache_file empty_os (cache_ref ''c1'' ''net1'')"
  by (auto simp: cache_file_def dir_or_none_def cni_dir_def plain_def cache_ref_def empty_os_def lookup_def)

lemma demo_cache_save:
  "\<exists>w1. SaveNetConf (\<lambda>_. ''text'') ''c1'' DefaultCNIDir ''net1'' conf empty_os = (Ok (), w1)"
proof -
  have c: "plain (cache_ref ''c1'' ''net1'')" by (simp add: cache_ref_def plain_def)
  have dn: "dir_or_none empty_os cni_dir" using demo_cache_file by (simp add: cache_file_def)
  obtain w0 where mk: "os_MkdirAll (abs_path cni_dir) empty_os = (Inr (), w0)"
    using MkdirAll_succeeds [OF dn] by (auto simp: empty_os_def)
  note eff = MkdirAll_effect [OF dn mk]
  have "lookup w0 (cni_dir @ [cache_ref ''c1'' ''net1'']) = lookup empty_os (cni_dir @ [cache_ref ''c1'' ''net1''])"
    by (rule MkdirAll_entry [OF dn mk])
  then have "lookup w0 (cni_dir @ [cache_ref ''c1'' ''net1'']) = None" by (simp add: empty_os_def lookup_def)
  moreover have "fault w0 = (\<lambda>_ _. None)" using eff by (simp add: empty_os_def)
  ultimately have "\<exists>w1. os_WriteFile (abs_path (cni_dir @ [cache_ref ''c1'' ''net1''])) ''text'' w0 = (Inr (), w1)"
    using WriteFile_entry [of w0 cni_dir "cache_ref ''c1'' ''net1''"] eff c by simp
  with mk show ?thesis
    by (simp add: SaveNetConf_def saveScratchNetConf_def Let_def ok_iffs cache_path [OF c])
       (simp add: DefaultCNIDir_path cni_dir_def)
qed

theorem cache_roundtrip_witness:
  "\<exists>parse w1. SaveNetConf (\<lambda>_. ''text'') ''c1'' DefaultCNIDir ''net1'' (zero_NetConf\<lparr>DPDKMode := True, VFID := 3\<rparr>) empty_os = (Ok (), w1) \<and>
     LoadConfFromCache parse ''c1'' ''net1'' w1 =
       (Ok (zero_NetConf\<lparr>VFID := 3\<rparr>, Join [DefaultCNIDir, cache_ref ''c1'' ''net1'']), w1)"
proof -
  let ?conf = "zero_NetConf\<lparr>DPDKMode := True, VFID := 3\<rparr>"
  let ?parse = "\<lambda>_ :: string. (Inr (json_of_NetConf ?conf) :: error + json)"
  obtain w1 where save: "SaveNetConf (\<lambda>_. ''text'') ''c1'' DefaultCNIDir ''net1'' ?conf empty_os = (Ok (), w1)"
    using demo_cache_save by blast
  have "ints_ok ?conf" by (simp add: ints_ok_def zero_NetConf_def zero_VfState_def in_int64_def)
  from cache_roundtrip [of ?parse "\<lambda>_. ''text''", OF refl this demo_cache_file save]
  have "LoadConfFromCache ?parse ''c1'' ''net1'' w1 = (Ok (?conf\<lparr>DPDKMode := False\<rparr>, Join [DefaultCNIDir, cache_ref ''c1'' ''net1'']), w1)"
    by (simp add: empty_os_def)
  with save show ?thesis by (intro exI [of _ ?parse] exI [of _ w1]) (simp add: zero_NetConf_def)
qed

end
