(* ===== verification/Packet.thy ===== *)
theory Packet
  imports SriovUtils
begin

text \<open>
  \<open>sriov_cni/pkg/utils/packet.go\<close>: the announcements the CNI sends after it has configured the
  addresses of a pod, a gratuitous ARP request for IPv4 and an unsolicited neighbour advertisement for
  IPv6. The bytes are built here; the socket calls and the ICMP framing of \<open>golang.org/x/net\<close> are
  parameters. Writes to a \<open>bytes.Buffer\<close> do not fail, so the branches that report such a failure
  have no part in the model.
\<close>

section \<open>Bytes on the wire\<close>

unbundle bit_operations_syntax

text \<open>\<open>binary.Write(\<dots>, binary.BigEndian, \<dots>)\<close>\<close>

definition be16 :: "16 word \<Rightarrow> byte list" where
  "be16 w = [ucast (drop_bit 8 w), ucast w]"

definition be32 :: "32 word \<Rightarrow> byte list" where
  "be32 w = [ucast (drop_bit 24 w), ucast (drop_bit 16 w), ucast (drop_bit 8 w), ucast w]"

definition htons :: "16 word \<Rightarrow> 16 word" where
  "htons i = (push_bit 8 i AND 0xff00) OR drop_bit 8 i"

definition ETH_P_IP :: "16 word" where "ETH_P_IP = 0x0800"
definition ETH_P_ARP :: "16 word" where "ETH_P_ARP = 0x0806"

text \<open>\<open>srcIP.To4()\<close> and \<open>To16()\<close> are nil, so no bytes, when the address has no such form.\<close>

definition to4_bytes :: "byte list \<Rightarrow> byte list" where
  "to4_bytes ip = (case To4 ip of None \<Rightarrow> [] | Some b \<Rightarrow> b)"

definition to16_bytes :: "byte list \<Rightarrow> byte list" where
  "to16_bytes ip = (case To16 ip of None \<Rightarrow> [] | Some b \<Rightarrow> b)"

definition arpPacket :: "byte list \<Rightarrow> byte list \<Rightarrow> byte list" where
  "arpPacket srcIP hw = be16 1 @ be16 ETH_P_IP @ [6] @ [4] @ be16 1 @ hw @ to4_bytes srcIP @
     [0xff, 0xff, 0xff, 0xff, 0xff, 0xff] @ to4_bytes srcIP"

definition naPayload :: "byte list \<Rightarrow> byte list \<Rightarrow> byte list" where
  "naPayload srcIP hw = be32 0x20000000 @ to16_bytes srcIP @ [2] @ [1] @ hw"

section \<open>Sockets\<close>

datatype sockaddr =
    SockaddrLinklayer (Protocol: "16 word") (Ifindex: int) (Hatype: "16 word") (Pkttype: byte) (Halen: byte) (Addr: "byte list")
  | SockaddrInet6 (Port: int) (ZoneId: "32 word") (Addr: "byte list")

definition AF_PACKET :: int where "AF_PACKET = 17"
definition AF_INET6 :: int where "AF_INET6 = 10"
definition SOCK_DGRAM :: int where "SOCK_DGRAM = 2"
definition SOCK_RAW :: int where "SOCK_RAW = 3"
definition IPPROTO_IPV6 :: int where "IPPROTO_IPV6 = 41"
definition IPPROTO_ICMPV6 :: int where "IPPROTO_ICMPV6 = 58"
definition IPV6_MULTICAST_HOPS :: int where "IPV6_MULTICAST_HOPS = 18"

record 'w sockets =
  Socket :: "int \<Rightarrow> int \<Rightarrow> int \<Rightarrow> ('w, int) ext"
  SetsockoptInt :: "int \<Rightarrow> int \<Rightarrow> int \<Rightarrow> int \<Rightarrow> ('w, unit) ext"
  Sendto :: "int \<Rightarrow> byte list \<Rightarrow> int \<Rightarrow> sockaddr \<Rightarrow> ('w, unit) ext"
  CloseFd :: "int \<Rightarrow> ('w, unit) ext"

text \<open>\<open>icmp.Message\<close> with a raw body; \<open>Marshal\<close> adds the header and the checksum.\<close>

record icmp_message =
  icmpType :: int
  icmpCode :: int
  icmpChecksum :: int
  icmpBody :: "byte list"

definition ICMPTypeNeighborAdvertisement :: int where "ICMPTypeNeighborAdvertisement = 136"

definition IPv6linklocalallnodes :: "byte list" where
  "IPv6linklocalallnodes = [0xff, 0x02, 0, 0, 0, 0, 0, 0, 0, 0, 0, 0, 0, 0, 0, 0x01]"

section \<open>Sending\<close>

definition SendGratuitousArp :: "'w sockets \<Rightarrow> byte list \<Rightarrow> sriov_link \<Rightarrow> ('w, unit) prog" where
  "SendGratuitousArp sk srcIP linkObj =
    (let packet = arpPacket srcIP (HardwareAddr linkObj);
         sockAddr = SockaddrLinklayer (htons ETH_P_ARP) (Index linkObj) 1 0 6
           [0xff, 0xff, 0xff, 0xff, 0xff, 0xff, 0xff, 0xff] in
     check (call (Socket sk AF_PACKET SOCK_DGRAM (int (unat (htons ETH_P_ARP)))))
       (\<lambda>err. Errorf ''failed to create AF_PACKET datagram socket: %v'' [E err]) (\<lambda>soc.
     deferring (call (CloseFd sk soc))
      (check (call (Sendto sk soc packet 0 sockAddr))
         (\<lambda>err. Errorf ''failed to send Gratuitous ARP for IPv4 %s on Interface %s: %v''
            [S (IP_String srcIP), S (Name linkObj), E err]) ret)))"

definition SendUnsolicitedNeighborAdvertisement ::
    "(icmp_message \<Rightarrow> error + byte list) \<Rightarrow> 'w sockets \<Rightarrow> byte list \<Rightarrow> sriov_link \<Rightarrow> ('w, unit) prog" where
  "SendUnsolicitedNeighborAdvertisement Marshal sk srcIP linkObj =
    (let payload = naPayload srcIP (HardwareAddr linkObj);
         icmpv6Msg = \<lparr>icmpType = ICMPTypeNeighborAdvertisement, icmpCode = 0, icmpChecksum = 0, icmpBody = payload\<rparr> in
     check (of_res (of_sum (Marshal icmpv6Msg)))
       (\<lambda>err. Errorf ''failed to Marshal ICMPv6 Message: %v'' [E err]) (\<lambda>icmpv6Bytes.
     check (call (Socket sk AF_INET6 SOCK_RAW IPPROTO_ICMPV6))
       (\<lambda>err. Errorf ''failed to create AF_INET6 raw socket: %v'' [E err]) (\<lambda>soc.
     deferring (call (CloseFd sk soc))
      (check (call (SetsockoptInt sk soc IPPROTO_IPV6 IPV6_MULTICAST_HOPS 255))
         (\<lambda>err. Errorf ''failed to set IPv6 multicast hops to 255: %v'' [E err]) (\<lambda>_.
       let sockAddr = SockaddrInet6 0 0 (to16_bytes IPv6linklocalallnodes) in
       check (call (Sendto sk soc icmpv6Bytes 0 sockAddr))
         (\<lambda>err. Errorf ''failed to send Unsolicited Neighbor Advertisement for IPv6 %s on Interface %s: %v''
            [S (IP_String srcIP), S (Name linkObj), E err]) ret)))))"

text \<open>What the code reads and writes of an \<open>IPConfig\<close> of the CNI library.\<close>

record IPConfig =
  ipInterface :: "int option"
  AddressIP :: "byte list"

definition announce_one ::
    "(icmp_message \<Rightarrow> error + byte list) \<Rightarrow> 'w sockets \<Rightarrow> string \<Rightarrow> sriov_link \<Rightarrow> 'z IPConfig_scheme \<Rightarrow> ('w, unit) prog" where
  "announce_one Marshal sk ifName linkObj ipc =
    (let ip = AddressIP ipc;
         err_send = (\<lambda>err. Errorf ''failed to send GARP/NA message for ip %s on interface %q: %v''
           [S (IP_String ip), S ifName, E err]) in
     if IsIPv6 ip then check (SendUnsolicitedNeighborAdvertisement Marshal sk ip linkObj) err_send ret
     else if IsIPv4 ip then check (SendGratuitousArp sk ip linkObj) err_send ret
     else fail (Errorf ''the IP %s on interface %q is neither IPv4 or IPv6'' [S (IP_String ip), S ifName]))"

definition AnnounceIPs ::
    "'w NetlinkManager \<Rightarrow> (icmp_message \<Rightarrow> error + byte list) \<Rightarrow> 'w sockets \<Rightarrow> string \<Rightarrow> 'z IPConfig_scheme list \<Rightarrow> ('w, unit) prog" where
  "AnnounceIPs nl Marshal sk ifName ipConfigs =
     check (call (LinkByName (MyNetlink nl) ifName))
       (\<lambda>err. Errorf ''failed to get netlink device with name %q: %v'' [S ifName, E err]) (\<lambda>linkObj.
     if \<not> IsValidMACAddress (HardwareAddr linkObj)
     then fail (Errorf ''invalid Ethernet MAC address: %q'' [S (MacString (HardwareAddr linkObj))])
     else for_each ipConfigs (announce_one Marshal sk ifName linkObj))"

section \<open>What is on the wire\<close>

lemma bit_htons: "bit (htons w) n \<longleftrightarrow> (if n < 8 then bit w (n + 8) else n < 16 \<and> bit w (n - 8))"
proof -
  have m: "(0xff00 :: 16 word) = push_bit 8 (mask 8)" by (simp add: mask_eq_exp_minus_1)
  show ?thesis
    unfolding htons_def m by (auto simp: bit_simps not_less add.commute dest: bit_imp_le_length)
qed

lemma be16_htons: "be16 (htons w) = rev (be16 w)"
  unfolding be16_def by (auto intro!: bit_word_eqI simp: bit_simps bit_htons add.commute)

lemma htons_htons: "htons (htons w) = w"
  by (rule bit_word_eqI) (auto simp: bit_htons)

text \<open>\<open>htons\<close> exchanges the two bytes of a number, so that its big-endian form is the little-endian
  form of the argument, and is its own inverse.\<close>

theorem htons_swaps: "be16 (htons w) = rev (be16 w) \<and> htons (htons w) = w"
  by (simp add: be16_htons htons_htons)

text \<open>An ARP packet for Ethernet and IPv4 as RFC 826 lays it out, and its reader.\<close>

record arp_frame =
  ar_hrd :: nat
  ar_pro :: nat
  ar_hln :: nat
  ar_pln :: nat
  ar_op :: nat
  ar_sha :: "byte list"
  ar_spa :: "byte list"
  ar_tha :: "byte list"
  ar_tpa :: "byte list"

definition read16 :: "byte list \<Rightarrow> nat" where
  "read16 bs = 256 * unat (bs ! 0) + unat (bs ! 1)"

definition read_arp :: "byte list \<Rightarrow> arp_frame option" where
  "read_arp bs =
    (if length bs < 8 then None else
     let hln = unat (bs ! 4); pln = unat (bs ! 5); rest = drop 8 bs in
     if length rest \<noteq> 2 * (hln + pln) then None
     else Some \<lparr>ar_hrd = read16 bs, ar_pro = read16 (drop 2 bs), ar_hln = hln, ar_pln = pln, ar_op = read16 (drop 6 bs),
       ar_sha = take hln rest, ar_spa = take pln (drop hln rest),
       ar_tha = take hln (drop (hln + pln) rest), ar_tpa = take pln (drop (hln + pln + hln) rest)\<rparr>)"

lemma arpPacket_bytes:
  "To4 ip = Some a \<Longrightarrow> arpPacket ip hw = [0, 1, 8, 0, 6, 4, 0, 1] @ hw @ a @ [0xff, 0xff, 0xff, 0xff, 0xff, 0xff] @ a"
  by (simp add: arpPacket_def be16_def ETH_P_IP_def to4_bytes_def)

text \<open>C29. The ARP packet the code builds for an IPv4 address and an Ethernet address is a well-formed
  28-byte packet: a request for IPv4 over Ethernet whose sender and target protocol address are both
  the announced one, from the device's address to the broadcast address.\<close>

theorem arp_packet_readable:
  assumes "To4 ip = Some a" "length hw = 6"
  shows "length (arpPacket ip hw) = 28 \<and> read_arp (arpPacket ip hw) =
    Some \<lparr>ar_hrd = 1, ar_pro = 0x800, ar_hln = 6, ar_pln = 4, ar_op = 1,
      ar_sha = hw, ar_spa = a, ar_tha = [0xff, 0xff, 0xff, 0xff, 0xff, 0xff], ar_tpa = a\<rparr>"
  using assms To4_length [OF assms(1)]
  by (simp add: arpPacket_bytes read_arp_def read16_def Let_def nth_append)

theorem arp_packet_readable_witness:
  "read_arp (arpPacket [0, 0, 0, 0, 0, 0, 0, 0, 0, 0, 0xff, 0xff, 10, 0, 0, 7] [2, 8, 0, 0, 0, 5]) =
    Some \<lparr>ar_hrd = 1, ar_pro = 0x800, ar_hln = 6, ar_pln = 4, ar_op = 1,
      ar_sha = [2, 8, 0, 0, 0, 5], ar_spa = [10, 0, 0, 7], ar_tha = [0xff, 0xff, 0xff, 0xff, 0xff, 0xff], ar_tpa = [10, 0, 0, 7]\<rparr>"
proof -
  have "To4 [0, 0, 0, 0, 0, 0, 0, 0, 0, 0, 0xff, 0xff, 10, 0, 0, 7] = Some [10, 0, 0, 7]"
    by (simp add: To4_def v4InV6Prefix_def numeral_eq_Suc)
  from arp_packet_readable [OF this, of "[2, 8, 0, 0, 0, 5]"] show ?thesis by simp
qed

text \<open>The one message that announces an address of a device, and where it goes.\<close>

definition announcement :: "(icmp_message \<Rightarrow> error + byte list) \<Rightarrow> sriov_link \<Rightarrow> byte list \<Rightarrow> (sockaddr \<times> byte list) option" where
  "announcement Marshal link ip = (case To4 ip of
      Some a \<Rightarrow> Some (SockaddrLinklayer 0x0608 (Index link) 1 0 6 [0xff, 0xff, 0xff, 0xff, 0xff, 0xff, 0xff, 0xff],
        [0, 1, 8, 0, 6, 4, 0, 1] @ HardwareAddr link @ a @ [0xff, 0xff, 0xff, 0xff, 0xff, 0xff] @ a)
    | None \<Rightarrow> (case To16 ip of None \<Rightarrow> None | Some b \<Rightarrow>
        (case Marshal \<lparr>icmpType = 136, icmpCode = 0, icmpChecksum = 0,
            icmpBody = [0x20, 0, 0, 0] @ b @ [2, 1] @ HardwareAddr link\<rparr> of
           Inl _ \<Rightarrow> None | Inr m \<Rightarrow> Some (SockaddrInet6 0 0 [0xff, 0x02, 0, 0, 0, 0, 0, 0, 0, 0, 0, 0, 0, 0, 0, 1], m))))"

text \<open>What is relied on of the sockets: \<open>sent\<close> is what went out, \<open>opened\<close> the open descriptors.\<close>

definition socket_laws :: "'w sockets \<Rightarrow> ('w \<Rightarrow> (sockaddr \<times> byte list) list) \<Rightarrow> ('w \<Rightarrow> int set) \<Rightarrow> bool" where
  "socket_laws sk sent opened \<longleftrightarrow>
     (\<forall>d t p w r w'. Socket sk d t p w = (r, w') \<longrightarrow> sent w' = sent w \<and>
        (case r of Inl _ \<Rightarrow> opened w' = opened w | Inr fd \<Rightarrow> fd \<notin> opened w \<and> opened w' = insert fd (opened w))) \<and>
     (\<forall>fd l n v w r w'. SetsockoptInt sk fd l n v w = (r, w') \<longrightarrow> sent w' = sent w \<and> opened w' = opened w) \<and>
     (\<forall>fd b f a w r w'. Sendto sk fd b f a w = (r, w') \<longrightarrow> opened w' = opened w \<and>
        sent w' = (case r of Inl _ \<Rightarrow> sent w | Inr _ \<Rightarrow> sent w @ [(a, b)])) \<and>
     (\<forall>fd w r w'. CloseFd sk fd w = (r, w') \<longrightarrow> sent w' = sent w \<and> opened w' = opened w - {fd})"

definition delivers :: "('w \<Rightarrow> (sockaddr \<times> byte list) list) \<Rightarrow> ('w \<Rightarrow> int set) \<Rightarrow> (sockaddr \<times> byte list) option \<Rightarrow> 'w \<Rightarrow> unit res \<Rightarrow> 'w \<Rightarrow> bool" where
  "delivers sent opened m w r w' \<longleftrightarrow> opened w' = opened w \<and> \<not> abnormal r \<and>
     (case r of Ok _ \<Rightarrow> \<exists>msg. m = Some msg \<and> sent w' = sent w @ [msg] | _ \<Rightarrow> sent w' = sent w)"

lemma delivers_same:
  "sent w = sent u \<Longrightarrow> opened w = opened u \<Longrightarrow> delivers sent opened m w r w' = delivers sent opened m u r w'"
  by (cases r) (simp_all add: delivers_def)

lemma delivers_check:
  assumes "\<And>r w'. m w = (r, w') \<Longrightarrow> delivers sent opened a w r w'" "check m f ret w = (r, w')"
  shows "delivers sent opened a w r w'"
proof (cases "m w")
  case (Pair q w1)
  from assms(1) [OF this] assms(2) Pair show ?thesis
    by (cases q) (auto simp: delivers_def check_def try_else_def)
qed

lemma htons_arp: "htons ETH_P_ARP = 0x0608"
  by (simp add: htons_def ETH_P_ARP_def)

lemma with_socket_delivers:
  assumes laws: "socket_laws sk sent opened"
    and run: "check (call (Socket sk d t p)) f (\<lambda>soc. deferring (call (CloseFd sk soc)) (body soc)) w = (r, w')"
    and body: "\<And>soc w1 r1 w2. body soc w1 = (r1, w2) \<Longrightarrow> delivers sent opened m w1 r1 w2"
  shows "delivers sent opened m w r w'"
proof (cases "Socket sk d t p w")
  case (Pair q w1)
  show ?thesis
  proof (cases q)
    case (Inl e)
    then have "r = Err (f e)" "w' = w1"
      using run Pair by (auto simp: check_def try_else_def call_def fail_def)
    moreover have "sent w1 = sent w \<and> opened w1 = opened w"
      using laws Pair Inl unfolding socket_laws_def by fastforce
    ultimately show ?thesis by (simp add: delivers_def)
  next
    case (Inr soc)
    have open1: "soc \<notin> opened w" "opened w1 = insert soc (opened w)" "sent w1 = sent w"
      using laws Pair Inr unfolding socket_laws_def by fastforce+
    obtain r1 w2 where b: "body soc w1 = (r1, w2)" by fastforce
    have d: "delivers sent opened m w1 r1 w2" by (rule body [OF b])
    have "\<not> abnormal r1" using d by (simp add: delivers_def)
    then have "r = r1" "w' = snd (CloseFd sk soc w2)"
      using run Pair Inr b by (auto simp: run_call deferring_call split: res.splits)
    moreover have "sent (snd (CloseFd sk soc w2)) = sent w2 \<and> opened (snd (CloseFd sk soc w2)) = opened w2 - {soc}"
      using laws unfolding socket_laws_def by (metis prod.collapse)
    ultimately show ?thesis using d open1 by (auto simp: delivers_def split: res.splits)
  qed
qed

lemma sendto_delivers:
  assumes "socket_laws sk sent opened" "check (call (Sendto sk soc b 0 a)) f ret w = (r, w')"
  shows "delivers sent opened (Some (a, b)) w r w'"
proof (cases "Sendto sk soc b 0 a w")
  case (Pair q w1)
  have "opened w1 = opened w \<and> sent w1 = (case q of Inl _ \<Rightarrow> sent w | Inr _ \<Rightarrow> sent w @ [(a, b)])"
    using assms(1) Pair unfolding socket_laws_def by blast
  then show ?thesis
    using assms(2) Pair by (cases q) (auto simp: delivers_def check_def try_else_def call_def)
qed

lemma SendGratuitousArp_delivers:
  assumes "socket_laws sk sent opened" "To4 ip = Some a" "SendGratuitousArp sk ip link w = (r, w')"
  shows "delivers sent opened (announcement Marshal link ip) w r w'"
proof -
  have "announcement Marshal link ip = Some (SockaddrLinklayer (htons ETH_P_ARP) (Index link) 1 0 6
      [0xff, 0xff, 0xff, 0xff, 0xff, 0xff, 0xff, 0xff], arpPacket ip (HardwareAddr link))"
    using assms(2) by (simp add: announcement_def htons_arp arpPacket_bytes)
  then show ?thesis
    using with_socket_delivers [OF assms(1) assms(3) [unfolded SendGratuitousArp_def Let_def]]
      sendto_delivers [OF assms(1)] by metis
qed

lemma SendUnsolicitedNeighborAdvertisement_delivers:
  assumes "socket_laws sk sent opened" "To4 ip = None" "To16 ip = Some b"
    and run: "SendUnsolicitedNeighborAdvertisement Marshal sk ip link w = (r, w')"
  shows "delivers sent opened (announcement Marshal link ip) w r w'"
proof -
  have n: "naPayload ip (HardwareAddr link) = [0x20, 0, 0, 0] @ b @ [2, 1] @ HardwareAddr link"
    using assms(3) by (simp add: naPayload_def be32_def to16_bytes_def)
  have d: "to16_bytes IPv6linklocalallnodes = [0xff, 0x02, 0, 0, 0, 0, 0, 0, 0, 0, 0, 0, 0, 0, 0, 1]"
    by (simp add: to16_bytes_def To16_def IPv6linklocalallnodes_def)
  let ?msg = "\<lparr>icmpType = 136, icmpCode = 0, icmpChecksum = 0, icmpBody = [0x20, 0, 0, 0] @ b @ [2, 1] @ HardwareAddr link\<rparr>"
  show ?thesis
  proof (cases "Marshal ?msg")
    case (Inl e)
    then show ?thesis using run
      by (simp add: SendUnsolicitedNeighborAdvertisement_def Let_def n ICMPTypeNeighborAdvertisement_def)
         (auto simp: delivers_def)
  next
    case (Inr m)
    then have a: "announcement Marshal link ip = Some (SockaddrInet6 0 0 (to16_bytes IPv6linklocalallnodes), m)"
      using assms(2,3) by (simp add: announcement_def d)
    have "check (call (SetsockoptInt sk soc IPPROTO_IPV6 IPV6_MULTICAST_HOPS 255)) f
        (\<lambda>_. check (call (Sendto sk soc m 0 a)) g ret) w1 = (r1, w2) \<Longrightarrow> delivers sent opened (Some (a, m)) w1 r1 w2"
      for soc f g a w1 r1 w2
    proof -
      assume run1: "check (call (SetsockoptInt sk soc IPPROTO_IPV6 IPV6_MULTICAST_HOPS 255)) f
        (\<lambda>_. check (call (Sendto sk soc m 0 a)) g ret) w1 = (r1, w2)"
      obtain q w3 where q: "SetsockoptInt sk soc IPPROTO_IPV6 IPV6_MULTICAST_HOPS 255 w1 = (q, w3)" by fastforce
      then have "sent w3 = sent w1" "opened w3 = opened w1" using assms(1) unfolding socket_laws_def by blast+
      note same = this
      show "delivers sent opened (Some (a, m)) w1 r1 w2"
      proof (cases q)
        case Inl
        with run1 q same show ?thesis by (auto simp: delivers_def check_def try_else_def call_def fail_def)
      next
        case Inr
        with run1 q have "check (call (Sendto sk soc m 0 a)) g ret w3 = (r1, w2)"
          by (simp add: run_call(2) [of "SetsockoptInt sk soc IPPROTO_IPV6 IPV6_MULTICAST_HOPS 255"])
        from sendto_delivers [OF assms(1) this] show ?thesis
          using delivers_same [of sent w3 w1 opened] same by simp
      qed
    qed
    note body = this
    have "check (call (Socket sk AF_INET6 SOCK_RAW IPPROTO_ICMPV6))
       (\<lambda>err. Errorf ''failed to create AF_INET6 raw socket: %v'' [E err]) (\<lambda>soc.
     deferring (call (CloseFd sk soc))
      (check (call (SetsockoptInt sk soc IPPROTO_IPV6 IPV6_MULTICAST_HOPS 255))
         (\<lambda>err. Errorf ''failed to set IPv6 multicast hops to 255: %v'' [E err]) (\<lambda>_.
       check (call (Sendto sk soc m 0 (SockaddrInet6 0 0 (to16_bytes IPv6linklocalallnodes))))
         (\<lambda>err. Errorf ''failed to send Unsolicited Neighbor Advertisement for IPv6 %s on Interface %s: %v''
            [S (IP_String ip), S (Name link), E err]) ret))) w = (r, w')"
      using run Inr by (simp add: SendUnsolicitedNeighborAdvertisement_def Let_def n ICMPTypeNeighborAdvertisement_def)
    then show ?thesis
      unfolding a by (rule with_socket_delivers [OF assms(1) _ body])
  qed
qed

lemma announce_one_delivers:
  assumes "socket_laws sk sent opened" "announce_one Marshal sk ifn link ipc w = (r, w')"
  shows "delivers sent opened (announcement Marshal link (AddressIP ipc)) w r w'"
proof -
  consider (v6) b where "To4 (AddressIP ipc) = None" "To16 (AddressIP ipc) = Some b"
    | (v4) a where "To4 (AddressIP ipc) = Some a" | (none) "To4 (AddressIP ipc) = None" "To16 (AddressIP ipc) = None"
    by fastforce
  then show ?thesis
  proof cases
    case v6
    then show ?thesis using assms(2)
      by (auto simp: announce_one_def Let_def IsIPv6_def
          intro: delivers_check SendUnsolicitedNeighborAdvertisement_delivers [OF assms(1)])
  next
    case v4
    then show ?thesis using assms(2)
      by (auto simp: announce_one_def Let_def IsIPv6_def IsIPv4_def
          intro: delivers_check SendGratuitousArp_delivers [OF assms(1)])
  next
    case none
    then show ?thesis using assms(2)
      by (auto simp: announce_one_def Let_def IsIPv6_def IsIPv4_def delivers_def)
  qed
qed

lemma announce_each:
  assumes "socket_laws sk sent opened"
    and "for_each ipcs (announce_one Marshal sk ifn link) w = (r, w')"
  shows "opened w' = opened w \<and> \<not> abnormal r \<and>
    (\<exists>msgs. sent w' = sent w @ msgs \<and> length msgs \<le> length ipcs \<and> (r = Ok () \<longleftrightarrow> length msgs = length ipcs) \<and>
      map Some msgs = map (\<lambda>ipc. announcement Marshal link (AddressIP ipc)) (take (length msgs) ipcs))"
  using assms(2)
proof (induction ipcs arbitrary: w)
  case (Cons ipc ipcs)
  obtain q w1 where q: "announce_one Marshal sk ifn link ipc w = (q, w1)" by fastforce
  note d = announce_one_delivers [OF assms(1) q]
  show ?case
  proof (cases q)
    case (Ok u)
    with d obtain msg where m: "announcement Marshal link (AddressIP ipc) = Some msg" "sent w1 = sent w @ [msg]"
        "opened w1 = opened w" by (auto simp: delivers_def)
    from Ok q Cons.prems have "for_each ipcs (announce_one Marshal sk ifn link) w1 = (r, w')"
      by (simp add: andthen_def try_else_def)
    from Cons.IH [OF this] obtain msgs where "opened w' = opened w1" "\<not> abnormal r" "sent w' = sent w1 @ msgs"
      "length msgs \<le> length ipcs" "r = Ok () \<longleftrightarrow> length msgs = length ipcs"
      "map Some msgs = map (\<lambda>ipc. announcement Marshal link (AddressIP ipc)) (take (length msgs) ipcs)" by blast
    with m show ?thesis by (intro conjI exI [of _ "msg # msgs"]) simp_all
  next
    case (Err e)
    with q d Cons.prems show ?thesis
      by (auto simp: andthen_def try_else_def delivers_def intro!: exI [of _ "[]"])
  qed (use d in \<open>simp_all add: delivers_def\<close>)
qed auto

text \<open>C28. \<open>AnnounceIPs\<close> sends, in the order of the addresses, exactly one well-formed announcement for each
  until the first failure, and reports success just when all went out: an ARP request to the Ethernet
  broadcast address for IPv4, a neighbour advertisement to the all-nodes address for IPv6, both with
  the device's own hardware address. It leaves no socket open and never panics, and a device whose
  hardware address is not a 6-byte address other than zero and broadcast gets nothing sent.\<close>

theorem announce_sends:
  assumes "socket_laws sk sent opened"
    and "LinkByName nl ifn w = (Inr link, w0)" "sent w0 = sent w" "opened w0 = opened w"
    and "AnnounceIPs nl Marshal sk ifn ipcs w = (r, w')"
  shows "opened w' = opened w \<and> \<not> abnormal r \<and>
    (\<exists>msgs. sent w' = sent w @ msgs \<and> length msgs \<le> length ipcs \<and>
      map Some msgs = map (\<lambda>ipc. announcement Marshal link (AddressIP ipc)) (take (length msgs) ipcs) \<and>
      (if IsValidMACAddress (HardwareAddr link) then r = Ok () \<longleftrightarrow> length msgs = length ipcs
       else r \<noteq> Ok () \<and> msgs = []))"
proof (cases "IsValidMACAddress (HardwareAddr link)")
  case True
  with assms(2,5) have "for_each ipcs (announce_one Marshal sk ifn link) w0 = (r, w')"
    by (simp add: AnnounceIPs_def run_call)
  from announce_each [OF assms(1) this] True show ?thesis by (auto simp: assms(3,4))
next
  case False
  with assms show ?thesis by (auto simp: AnnounceIPs_def run_call)
qed

section \<open>Witness\<close>

text \<open>One descriptor at a time, and everything sent is kept.\<close>

definition demo_sockets :: "((sockaddr \<times> byte list) list \<times> int set) sockets" where
  "demo_sockets =
     \<lparr>Socket = \<lambda>_ _ _ w. if 3 \<in> snd w then (Inl (Ext ''EMFILE''), w) else (Inr 3, apsnd (insert 3) w),
      SetsockoptInt = \<lambda>_ _ _ _ w. (Inr (), w),
      Sendto = \<lambda>_ b _ a w. (Inr (), apfst (\<lambda>l. l @ [(a, b)]) w),
      CloseFd = \<lambda>fd w. (Inr (), apsnd (\<lambda>s. s - {fd}) w)\<rparr>"

lemma demo_socket_laws: "socket_laws demo_sockets fst snd"
  by (auto simp: socket_laws_def demo_sockets_def split: sum.splits)

definition demo_pod_link :: sriov_link where
  "demo_pod_link = \<lparr>Name = ''net1'', Index = 4, ParentIndex = 0, HardwareAddr = [2, 8, 0, 0, 0, 5], Vfs = []\<rparr>"

definition pod_nl :: "'w NetlinkManager" where
  "pod_nl =
     \<lparr>LinkByName = \<lambda>_ w. (Inr demo_pod_link, w),
      LinkSetVfVlanQosProto = \<lambda>_ _ _ _ _ w. (Inr (), w), LinkSetVfHardwareAddr = \<lambda>_ _ _ w. (Inr (), w),
      LinkSetHardwareAddr = \<lambda>_ _ w. (Inr (), w), LinkSetUp = \<lambda>_ w. (Inr (), w), LinkSetDown = \<lambda>_ w. (Inr (), w),
      LinkSetNsFd = \<lambda>_ _ w. (Inr (), w), LinkSetName = \<lambda>_ _ w. (Inr (), w), LinkSetVfRate = \<lambda>_ _ _ _ w. (Inr (), w),
      LinkSetVfSpoofchk = \<lambda>_ _ _ w. (Inr (), w), LinkSetVfTrust = \<lambda>_ _ _ w. (Inr (), w),
      LinkSetVfState = \<lambda>_ _ _ w. (Inr (), w)\<rparr>"

theorem announce_sends_witness:
  "\<exists>w'. AnnounceIPs pod_nl (\<lambda>m. Inr (icmpBody m)) demo_sockets ''net1''
      [\<lparr>ipInterface = Some 0, AddressIP = [10, 0, 0, 7]\<rparr>] ([], {}) = (Ok (), w') \<and> snd w' = {} \<and>
   fst w' = [(SockaddrLinklayer 0x0608 4 1 0 6 [0xff, 0xff, 0xff, 0xff, 0xff, 0xff, 0xff, 0xff],
     [0, 1, 8, 0, 6, 4, 0, 1, 2, 8, 0, 0, 0, 5, 10, 0, 0, 7, 0xff, 0xff, 0xff, 0xff, 0xff, 0xff, 10, 0, 0, 7])]"
proof -
  let ?ips = "[\<lparr>ipInterface = Some 0, AddressIP = [10, 0, 0, 7]\<rparr>]"
  let ?run = "AnnounceIPs pod_nl (\<lambda>m. Inr (icmpBody m)) demo_sockets ''net1'' ?ips ([], {})"
  obtain r w' where run: "?run = (r, w')" by (rule prod.exhaust)
  have v: "IsValidMACAddress (HardwareAddr demo_pod_link)"
    by (simp add: IsValidMACAddress_def invalidMACAddresses_def demo_pod_link_def)
  have v4: "To4 [10, 0, 0, 7] = Some [10, 0, 0, 7]" by (simp add: To4_def)
  have "fst ?run = Ok ()"
    by (simp add: AnnounceIPs_def run_call pod_nl_def v announce_one_def IsIPv6_def IsIPv4_def v4)
       (simp add: SendGratuitousArp_def Let_def check_def andthen_def try_else_def deferring_def call_def demo_sockets_def ret_def)
  then have r: "r = Ok ()" by (simp add: run)
  have link: "LinkByName pod_nl ''net1'' ([], {}) = (Inr demo_pod_link, ([], {}))" by (simp add: pod_nl_def)
  from announce_sends [OF demo_socket_laws link refl refl run] v r
  obtain msg where "fst w' = [msg]" "snd w' = {}"
    "Some msg = announcement (\<lambda>m. Inr (icmpBody m)) demo_pod_link [10, 0, 0, 7]"
    by (auto simp: length_Suc_conv)
  moreover have "announcement (\<lambda>m. Inr (icmpBody m)) demo_pod_link [10, 0, 0, 7] = Some
      (SockaddrLinklayer 0x0608 4 1 0 6 [0xff, 0xff, 0xff, 0xff, 0xff, 0xff, 0xff, 0xff],
       [0, 1, 8, 0, 6, 4, 0, 1, 2, 8, 0, 0, 0, 5, 10, 0, 0, 7, 0xff, 0xff, 0xff, 0xff, 0xff, 0xff, 10, 0, 0, 7])"
    by (simp add: announcement_def v4 demo_pod_link_def)
  ultimately show ?thesis using run r by simp
qed

end
