(* ===== verification/CniMain.thy ===== *)
theory CniMain
  imports CniConfig Packet SriovProps BridgePorts
begin

text \<open>
  \<open>sriov_cni/cmd/sriov/main.go\<close>: the commands \<open>ADD\<close>, \<open>DEL\<close> and \<open>CHECK\<close> of the CNI plugin, composed of
  the configuration, the SR-IOV manager, the allocator and the announcements of the other theories.
  The functions use Go's \<open>err\<close> variable in two ways: most statements assign the function's own \<open>err\<close>,
  some declare a new one in an inner scope. The deferred functions look at the function's own
  variable, so the locals of a command are part of its state: \<open>assign\<close> is a statement that sets \<open>err\<close>,
  \<open>check\<close> and \<open>andthen\<close> are those that do not. Calls of libraries and of the daemon are the fields of
  \<open>cni_ext\<close>. \<open>logging.Debug\<close> and \<open>log.Printf\<close> have no part in the model, and neither has the end of
  the ten-second context, which \<open>rpc_Create\<close> and \<open>rpc_Delete\<close> may turn into an error.
\<close>

section \<open>Arguments, results and libraries\<close>

record CmdArgs =
  ContainerID :: string
  Netns :: string
  IfName :: string
  Args :: string
  StdinData :: string

record Interface =
  ifcName :: string
  ifcMac :: string
  Sandbox :: string

text \<open>\<open>current.Result\<close>: the fields the code touches, and the others in \<open>'y\<close> (and \<open>'x\<close> for an address).\<close>

record 'x Result =
  Interfaces :: "Interface list"
  IPs :: "'x IPConfig_scheme list"

record ('w, 'r, 'x, 'y) cni_ext =
  cni_log :: cnilog
  Unmarshal :: "string \<Rightarrow> error + json"
  render_json :: "json \<Rightarrow> string"
  LoadArgs :: "string \<Rightarrow> error + string"
  GetNS :: "'w opener"
  NSPathNotExistErr :: "error \<Rightarrow> bool"
  cni_netlink :: "'w NetlinkManager"
  cni_sleep :: "nat \<Rightarrow> 'w \<Rightarrow> 'w"
  cni_GetCurrentNS :: "('w, 'w NetNS) ext"
  icmp_Marshal :: "icmp_message \<Rightarrow> error + byte list"
  cni_sockets :: "'w sockets"
  ExecAdd :: "string \<Rightarrow> string \<Rightarrow> ('w, 'r) ext"
  ExecDel :: "string \<Rightarrow> string \<Rightarrow> ('w, unit) ext"
  NewResultFromResult :: "'r \<Rightarrow> error + ('x, 'y) Result_scheme"
  ConfigureIface :: "string \<Rightarrow> ('x, 'y) Result_scheme \<Rightarrow> ('w, unit) ext"
  Dial :: "string \<Rightarrow> ('w, int) ext"
  ConnClose :: "int \<Rightarrow> ('w, unit) ext"
  rpc_Create :: "int \<Rightarrow> BridgePort \<Rightarrow> ('w, BridgePort) ext"
  rpc_Delete :: "int \<Rightarrow> string \<Rightarrow> ('w, unit) ext"
  PrintResult :: "('x, 'y) Result_scheme \<Rightarrow> string \<Rightarrow> ('w, unit) ext"
  empty_result :: "('x, 'y) Result_scheme"

definition sm :: "('z os_scheme, 'r, 'x, 'y) cni_ext \<Rightarrow> 'z os_scheme sriovManager" where
  "sm x = NewSriovManager (cni_netlink x) pciUtilsImpl (cni_sleep x) (cni_GetCurrentNS x)"

text \<open>\<open>envArgs\<close> is its \<open>MAC\<close> field, the only one the code reads.\<close>

definition getEnvArgs :: "('w, 'r, 'x, 'y) cni_ext \<Rightarrow> string \<Rightarrow> error + string option" where
  "getEnvArgs x envArgsString =
    (if envArgsString \<noteq> []
     then (case LoadArgs x envArgsString of Inl err \<Rightarrow> Inl err | Inr e \<Rightarrow> Inr (Some e))
     else Inr None)"

section \<open>Locals\<close>

record 'w locals =
  conf :: NetConf
  errv :: "error option"
  world :: 'w

abbreviation on_w :: "('w, 'a) prog \<Rightarrow> ('w locals, 'a) prog" where
  "on_w \<equiv> zoom world world_update"

definition upd_conf_world :: "(NetConf \<times> 'w \<Rightarrow> NetConf \<times> 'w) \<Rightarrow> 'w locals \<Rightarrow> 'w locals" where
  "upd_conf_world f s = s\<lparr>conf := fst (f (conf s, world s)), world := snd (f (conf s, world s))\<rparr>"

abbreviation on_conf_w :: "(NetConf \<times> 'w, 'a) prog \<Rightarrow> ('w locals, 'a) prog" where
  "on_conf_w \<equiv> zoom (\<lambda>s. (conf s, world s)) upd_conf_world"

text \<open>\<open>v, err = m(); if err != nil { return \<dots> }\<close> on the function's own \<open>err\<close>.\<close>

definition assign :: "('w locals, 'a) prog \<Rightarrow> (error \<Rightarrow> error) \<Rightarrow> ('a \<Rightarrow> ('w locals, 'b) prog) \<Rightarrow> ('w locals, 'b) prog" where
  "assign m f k = try_else m
     (\<lambda>err. andthen (modify (errv_update (\<lambda>_. Some err))) (\<lambda>_. fail (f err)))
     (\<lambda>a. andthen (modify (errv_update (\<lambda>_. None))) (\<lambda>_. k a))"

definition with_locals :: "NetConf \<Rightarrow> ('w locals, 'a) prog \<Rightarrow> ('w, 'a) prog" where
  "with_locals n m = (\<lambda>w. case m \<lparr>conf = n, errv = None, world = w\<rparr> of (r, s) \<Rightarrow> (r, world s))"

definition set_logging :: "('w, 'r, 'x, 'y) cni_ext \<Rightarrow> CmdArgs \<Rightarrow> (log_state \<times> 'w, unit) prog" where
  "set_logging x args = (\<lambda>(s, w).
     case SetLogging (cni_log x) (Unmarshal x) (StdinData args) (ContainerID args) (Netns args) (IfName args) s of
       Inl err \<Rightarrow> (Err err, (s, w)) | Inr s' \<Rightarrow> (Ok (), (s', w)))"

section \<open>\<open>ADD\<close>\<close>

text \<open>The address: the runtime configuration before the environment before the configuration.\<close>

definition add_mac :: "string option \<Rightarrow> NetConf \<Rightarrow> NetConf" where
  "add_mac envArgs n =
    (let n = (case envArgs of None \<Rightarrow> n | Some mac \<Rightarrow> if mac \<noteq> [] then n\<lparr>MAC := mac\<rparr> else n);
         n = (if RuntimeMac n \<noteq> [] then n\<lparr>MAC := RuntimeMac n\<rparr> else n)
     in n\<lparr>MAC := ToLower (MAC n)\<rparr>)"

definition create_request :: "NetConf \<Rightarrow> byte list \<Rightarrow> BridgePort" where
  "create_request n mac =
     \<lparr>PortName = Master n @ Itoa (VFID n),
      Spec = Some \<lparr>Ptype = 1, MacAddress = mac, LogicalBridges = [Itoa (VFID n + 2)]\<rparr>,
      Status = None\<rparr>"

text \<open>The first deferred function of \<open>cmdAdd\<close>.\<close>

definition add_cleanup :: "('z os_scheme, 'r, 'x, 'y) cni_ext \<Rightarrow> CmdArgs \<Rightarrow> 'z os_scheme NetNS \<Rightarrow> ('z os_scheme locals, unit) prog" where
  "add_cleanup x args netns =
     andthen (gets errv) (\<lambda>err. if err = None then ret () else
     andthen (gets conf) (\<lambda>n.
     andthen (try_else (on_w (Do netns (andthen (call (LinkByName (cni_netlink x) (IfName args))) (\<lambda>_. ret ()))))
       (\<lambda>_. ret ())
       (\<lambda>_. ignore (on_w (ReleaseVF (sm x) n (IfName args) netns)))) (\<lambda>_.
     ignore (on_w (ResetVFConfig (sm x) n)))))"

text \<open>From the cache on: the files, then the request to the daemon, then the result.\<close>

definition add_register :: "('z os_scheme, 'r, 'x, 'y) cni_ext \<Rightarrow> CmdArgs \<Rightarrow> ('x, 'y) Result_scheme \<Rightarrow> ('z os_scheme locals, unit) prog" where
  "add_register x args result =
     andthen (gets conf) (\<lambda>n.
     assign (on_w (SaveNetConf (render_json x) (ContainerID args) DefaultCNIDir (IfName args) n))
       (\<lambda>err. Errorf ''error saving NetConf %q'' [E err]) (\<lambda>_.
     assign (on_w (SaveAllocatedPCI (NewPCIAllocator DefaultCNIDir) (DeviceID n) (Netns args)))
       (\<lambda>err. Errorf ''error saving the pci allocation for vf pci address %s: %v'' [S (DeviceID n), E err]) (\<lambda>_.
     try_else (on_w (call (Dial x (DpuDaemonAddress n)))) (\<lambda>err. exit_process ''did not connect'') (\<lambda>conn.
     deferring (on_w (call (ConnClose x conn)))
      (assign (of_res (of_sum (ParseMAC (EffectiveMAC (OrigVfState n)))))
         (\<lambda>err. Errorf ''error Parsing Mac Address %q'' [E err]) (\<lambda>mac.
       assign (on_w (call (rpc_Create x conn (create_request n mac))))
         (\<lambda>err. Errorf ''could not create bridge port: %v'' [E err]) (\<lambda>r.
       on_w (call (PrintResult x result (CNIVersion n))))))))))"

text \<open>The IPAM part; its deferred function runs before the one of \<open>cmdAdd\<close>.\<close>

definition add_ipam :: "('z os_scheme, 'r, 'x, 'y) cni_ext \<Rightarrow> CmdArgs \<Rightarrow> 'z os_scheme NetNS \<Rightarrow> ('x, 'y) Result_scheme \<Rightarrow> ('z os_scheme locals, unit) prog" where
  "add_ipam x args netns result =
     andthen (gets conf) (\<lambda>n.
     assign (on_w (call (ExecAdd x (IpamType n) (StdinData args))))
       (\<lambda>err. Errorf ''failed to set up IPAM plugin type %q from the device %q: %v'' [S (IpamType n), S (Master n), E err]) (\<lambda>r.
     deferring (andthen (gets errv) (\<lambda>err. if err \<noteq> None then ignore (on_w (call (ExecDel x (IpamType n) (StdinData args)))) else ret ()))
      (assign (of_res (of_sum (NewResultFromResult x r))) (\<lambda>err. err) (\<lambda>newResult.
       assign (if IPs newResult = [] then fail (Errorf ''IPAM plugin returned missing IP config'' []) else ret ()) (\<lambda>err. err) (\<lambda>_.
       let newResult = newResult\<lparr>Interfaces := Interfaces result, IPs := map (ipInterface_update (\<lambda>_. Some 0)) (IPs newResult)\<rparr> in
       andthen (if \<not> DPDKMode n
          then assign (on_w (Do netns
                 (andthen (call (ConfigureIface x (IfName args) newResult)) (\<lambda>_.
                  ignore (AnnounceIPs (cni_netlink x) (icmp_Marshal x) (cni_sockets x) (IfName args) (IPs newResult))))))
               (\<lambda>err. err) ret
          else ret ()) (\<lambda>_.
       add_register x args newResult))))))"

definition add_in_netns :: "('z os_scheme, 'r, 'x, 'y) cni_ext \<Rightarrow> CmdArgs \<Rightarrow> 'z os_scheme NetNS \<Rightarrow> ('z os_scheme locals, unit) prog" where
  "add_in_netns x args netns =
     deferring (add_cleanup x args netns)
      (andthen (gets conf) (\<lambda>n.
       check (on_w (ApplyVFConfig (sm x) n)) (\<lambda>err. Errorf ''SRIOV-CNI failed to configure VF %q'' [E err]) (\<lambda>_.
       andthen (if \<not> DPDKMode n
          then assign (on_conf_w (SetupVF (sm x) (IfName args) netns))
                 (\<lambda>err. Errorf ''failed to set up pod interface %q from the device %q: %v'' [S (IfName args), S (Master n), E err]) ret
          else ret ()) (\<lambda>_.
       andthen (gets conf) (\<lambda>n.
       let result = (empty_result x)\<lparr>Interfaces :=
             [\<lparr>ifcName = IfName args, ifcMac = GetMacAddressForResult n, Sandbox = Path netns\<rparr>]\<rparr> in
       if IpamType n \<noteq> [] then add_ipam x args netns result else add_register x args result)))))"

definition add_main :: "('z os_scheme, 'r, 'x, 'y) cni_ext \<Rightarrow> CmdArgs \<Rightarrow> ('z os_scheme, unit) prog" where
  "add_main x args =
     check (LoadConf (Unmarshal x) (GetNS x) (StdinData args))
       (\<lambda>err. Errorf ''SRIOV-CNI failed to load netconf: %v'' [E err]) (\<lambda>n.
     check (of_res (of_sum (getEnvArgs x (Args args))))
       (\<lambda>err. Errorf ''SRIOV-CNI failed to parse args: %v'' [E err]) (\<lambda>envArgs.
     check (ask (GetNS x (Netns args)))
       (\<lambda>err. Errorf ''failed to open netns %q: %v'' [NilErr, E err]) (\<lambda>netns.
     with_locals (add_mac envArgs n) (add_in_netns x args netns))))"

definition cmdAdd :: "('z os_scheme, 'r, 'x, 'y) cni_ext \<Rightarrow> CmdArgs \<Rightarrow> (log_state \<times> 'z os_scheme, unit) prog" where
  "cmdAdd x args = andthen (set_logging x args) (\<lambda>_. on_world (add_main x args))"

section \<open>\<open>DEL\<close> and \<open>CHECK\<close>\<close>

definition del_register :: "('z os_scheme, 'r, 'x, 'y) cni_ext \<Rightarrow> ('z os_scheme locals, unit) prog" where
  "del_register x =
     andthen (gets conf) (\<lambda>n.
     assign (on_w (DeleteAllocatedPCI (NewPCIAllocator DefaultCNIDir) (DeviceID n)))
       (\<lambda>err. Errorf ''error cleaning the pci allocation for vf pci address %s: %v'' [S (DeviceID n), E err]) (\<lambda>_.
     try_else (on_w (call (Dial x (DpuDaemonAddress n)))) (\<lambda>err. exit_process ''did not connect'') (\<lambda>conn.
     deferring (on_w (call (ConnClose x conn)))
      (assign (on_w (call (rpc_Delete x conn (Master n @ Itoa (VFID n)))))
         (\<lambda>err. Errorf ''could not delete bridge port: %v'' [E err]) ret))))"

definition del_cached :: "('z os_scheme, 'r, 'x, 'y) cni_ext \<Rightarrow> CmdArgs \<Rightarrow> string \<Rightarrow> ('z os_scheme locals, unit) prog" where
  "del_cached x args cRefPath =
     deferring (andthen (gets errv) (\<lambda>err.
         if err = None \<and> cRefPath \<noteq> [] then ignore (on_w (CleanCachedNetConf cRefPath)) else ret ()))
      (andthen (gets conf) (\<lambda>n.
       andthen (if IpamType n \<noteq> []
          then assign (on_w (call (ExecDel x (IpamType n) (StdinData args)))) (\<lambda>err. err) ret else ret ()) (\<lambda>_.
       if Netns args = [] then ret () else
       check (on_w (GetVfid (DeviceID n) (Master n))) (\<lambda>err. Errorf ''cmdDel() error obtaining VF ID: %q'' [E err]) (\<lambda>_.
       check (on_w (ResetVFConfig (sm x) n)) (\<lambda>err. Errorf ''cmdDel() error reseting VF: %q'' [E err]) (\<lambda>_.
       if \<not> DPDKMode n then
         try_else (on_w (ask (GetNS x (Netns args))))
           (\<lambda>err. if NSPathNotExistErr x err then ret ()
              else fail (Errorf ''failed to open netns %s: %q'' [NilErr, E err])) (\<lambda>netns.
         andthen (on_w (ReleaseVF (sm x) n (IfName args) netns)) (\<lambda>_. del_register x))
       else del_register x)))))"

definition del_main :: "('z os_scheme, 'r, 'x, 'y) cni_ext \<Rightarrow> CmdArgs \<Rightarrow> ('z os_scheme, unit) prog" where
  "del_main x args =
     try_else (LoadConfFromCache (Unmarshal x) (ContainerID args) (IfName args)) (\<lambda>err. ret ()) (\<lambda>(n, cRefPath).
     with_locals n (del_cached x args cRefPath))"

definition cmdDel :: "('z os_scheme, 'r, 'x, 'y) cni_ext \<Rightarrow> CmdArgs \<Rightarrow> (log_state \<times> 'z os_scheme, unit) prog" where
  "cmdDel x args = andthen (set_logging x args) (\<lambda>_. on_world (del_main x args))"

definition cmdCheck :: "CmdArgs \<Rightarrow> ('w, unit) prog" where
  "cmdCheck args = ret ()"

end
