(* ===== verification/CniProps.thy ===== *)
theory CniProps
  imports CniMain
begin

text \<open>
  What the commands of the CNI plugin do. \<open>env_keeps P x\<close> says that the libraries and the kernel
  leave a property \<open>P\<close> of the world alone, except in the requests to the daemon; every part of the
  commands then keeps it, and the runs that succeed are taken apart into their steps.
\<close>

section \<open>Frames\<close>

definition netlink_keeps :: "('w \<Rightarrow> bool) \<Rightarrow> 'w NetlinkManager \<Rightarrow> bool" where
  "netlink_keeps P nl \<longleftrightarrow>
     (\<forall>n. keeps_ext P (LinkByName nl n)) \<and>
     (\<forall>l v a q p. keeps_ext P (LinkSetVfVlanQosProto nl l v a q p)) \<and>
     (\<forall>l v h. keeps_ext P (LinkSetVfHardwareAddr nl l v h)) \<and> (\<forall>l h. keeps_ext P (LinkSetHardwareAddr nl l h)) \<and>
     (\<forall>l. keeps_ext P (LinkSetUp nl l)) \<and> (\<forall>l. keeps_ext P (LinkSetDown nl l)) \<and>
     (\<forall>l fd. keeps_ext P (LinkSetNsFd nl l fd)) \<and> (\<forall>l n. keeps_ext P (LinkSetName nl l n)) \<and>
     (\<forall>l v a b. keeps_ext P (LinkSetVfRate nl l v a b)) \<and> (\<forall>l v b. keeps_ext P (LinkSetVfSpoofchk nl l v b)) \<and>
     (\<forall>l v b. keeps_ext P (LinkSetVfTrust nl l v b)) \<and> (\<forall>l v st. keeps_ext P (LinkSetVfState nl l v st))"

definition sockets_keep :: "('w \<Rightarrow> bool) \<Rightarrow> 'w sockets \<Rightarrow> bool" where
  "sockets_keep P sk \<longleftrightarrow> (\<forall>d t p. keeps_ext P (Socket sk d t p)) \<and> (\<forall>fd l n v. keeps_ext P (SetsockoptInt sk fd l n v)) \<and>
     (\<forall>fd b f a. keeps_ext P (Sendto sk fd b f a)) \<and> (\<forall>fd. keeps_ext P (CloseFd sk fd))"

definition ns_keeps :: "('w \<Rightarrow> bool) \<Rightarrow> 'w NetNS \<Rightarrow> bool" where
  "ns_keeps P netns \<longleftrightarrow> (\<forall>m. keeps P m \<longrightarrow> keeps P (Do netns m))"

definition env_keeps :: "('w \<Rightarrow> bool) \<Rightarrow> ('w, 'r, 'x, 'y) cni_ext \<Rightarrow> bool" where
  "env_keeps P x \<longleftrightarrow> netlink_keeps P (cni_netlink x) \<and> sockets_keep P (cni_sockets x) \<and>
     (\<forall>n w. P w \<longrightarrow> P (cni_sleep x n w)) \<and> keeps_ext P (cni_GetCurrentNS x) \<and>
     (\<forall>p w netns. GetNS x p w = Inr netns \<longrightarrow> ns_keeps P netns) \<and>
     (\<forall>t b. keeps_ext P (ExecAdd x t b)) \<and> (\<forall>t b. keeps_ext P (ExecDel x t b)) \<and>
     (\<forall>n r. keeps_ext P (ConfigureIface x n r)) \<and> (\<forall>a. keeps_ext P (Dial x a)) \<and>
     (\<forall>c. keeps_ext P (ConnClose x c)) \<and> (\<forall>r v. keeps_ext P (PrintResult x r v))"

lemma keeps_zoom:
  assumes "keeps P m" "\<And>s. Q s \<Longrightarrow> P (get s)" "\<And>s w. Q s \<Longrightarrow> P w \<Longrightarrow> Q (upd (\<lambda>_. w) s)"
  shows "keeps Q (zoom get upd m)"
  using assms by (auto simp: keeps_def zoom_def split: prod.split) (metis snd_conv)

lemma keeps_on_world: "keeps P m \<Longrightarrow> keeps (\<lambda>s. P (snd s)) (on_world m)"
  by (erule keeps_zoom) (auto simp: apsnd_def map_prod_def)

lemma netlink_keepsD:
  assumes "netlink_keeps P nl"
  shows "keeps_ext P (LinkByName nl n)" "keeps_ext P (LinkSetVfHardwareAddr nl l v h)" "keeps_ext P (LinkSetHardwareAddr nl l h)"
    "keeps_ext P (LinkSetUp nl l)" "keeps_ext P (LinkSetDown nl l)" "keeps_ext P (LinkSetNsFd nl l i)" "keeps_ext P (LinkSetName nl l n)"
    "keeps_ext P (LinkSetVfRate nl l v i j)" "keeps_ext P (LinkSetVfSpoofchk nl l v b)" "keeps_ext P (LinkSetVfTrust nl l v b)"
    "keeps_ext P (LinkSetVfState nl l v st)"
  using assms by (simp_all add: netlink_keeps_def)

lemma mac_setters_keep:
  assumes "netlink_keeps P nl" "\<And>n w. P w \<Longrightarrow> P (sl n w)"
  shows "keeps P (SetVFEffectiveMAC sl nl d m)" "keeps P (SetVFHardwareMAC sl nl d v m)"
  unfolding SetVFEffectiveMAC_def SetVFHardwareMAC_def Retry_def
  by (intro keeps_intros keeps_retry_from netlink_keepsD [OF assms(1)] assms(2); assumption)+

definition manager_keeps :: "('w \<Rightarrow> bool) \<Rightarrow> 'w sriovManager \<Rightarrow> bool" where
  "manager_keeps P s \<longleftrightarrow> netlink_keeps P (nLink s) \<and> (\<forall>n w. P w \<longrightarrow> P (sleep s n w)) \<and> keeps_ext P (GetCurrentNS s)"

lemma manager_keep:
  assumes "manager_keeps P s"
  shows "keeps P (ApplyVFConfig s n)" "keeps P (ResetVFConfig s n)"
    and "ns_keeps P netns \<Longrightarrow> keeps P (ReleaseVF s n podif netns)"
    and "keeps P (util_EnableArpAndNdiscNotify (utils s) podif) \<Longrightarrow> keeps P (setup_in_pod s n a b podif l)"
proof -
  note k = assms [unfolded manager_keeps_def]
  note nl = netlink_keepsD [OF k [THEN conjunct1]]
  note m = mac_setters_keep [OF k [THEN conjunct1]] k [THEN conjunct2, THEN conjunct1, rule_format]
  show "keeps P (ApplyVFConfig s n)"
    unfolding ApplyVFConfig_def Let_def by (auto intro!: keeps_intros nl m split: option.split)
  show "keeps P (ResetVFConfig s n)"
    unfolding ResetVFConfig_def Let_def by (auto intro!: keeps_intros nl m)
  have "keeps P (release_in_pod s n podif i)" for i
    unfolding release_in_pod_def by (auto intro!: keeps_intros nl m)
  then show "keeps P (ReleaseVF s n podif netns)" if "ns_keeps P netns"
    unfolding ReleaseVF_def using that k by (auto intro!: keeps_intros simp: ns_keeps_def)
  show "keeps P (setup_in_pod s n a b podif l)" if "keeps P (util_EnableArpAndNdiscNotify (utils s) podif)"
    unfolding setup_in_pod_def by (auto intro!: keeps_intros nl m that)
qed

text \<open>\<open>SetupVF\<close> changes the configuration only in the effective address it records.\<close>

definition same_but_effective :: "NetConf \<Rightarrow> NetConf \<Rightarrow> bool" where
  "same_but_effective n n' \<longleftrightarrow> (\<exists>m. n' = n\<lparr>OrigVfState := (OrigVfState n)\<lparr>EffectiveMAC := m\<rparr>\<rparr>)"

lemma setup_keep:
  assumes "manager_keeps P s" "ns_keeps P netns" "keeps P (util_EnableArpAndNdiscNotify (utils s) podif)"
  shows "keeps (\<lambda>cw. P (snd cw) \<and> same_but_effective n (fst cw)) (SetupVF s podif netns)"
proof -
  let ?Q = "\<lambda>cw. P (snd cw) \<and> same_but_effective n (fst cw)"
  note nl = netlink_keepsD [OF assms(1) [unfolded manager_keeps_def, THEN conjunct1]]
  have w1: "keeps P m \<Longrightarrow> keeps ?Q (on_world m)" for m :: "('a, sriov_link) prog"
    by (erule keeps_zoom) (auto simp: apsnd_def map_prod_def split: prod.split)
  have w2: "keeps P m \<Longrightarrow> keeps ?Q (on_world m)" for m :: "('a, unit) prog"
    by (erule keeps_zoom) (auto simp: apsnd_def map_prod_def split: prod.split)
  have pod: "keeps P (Do netns (setup_in_pod s c a b podif l))" for c a b l
    using assms(2) manager_keep(4) [OF assms(1,3)] by (simp add: ns_keeps_def)
  have orig: "keeps ?Q (set_orig (EffectiveMAC_update (\<lambda>_. m)))" for m
    unfolding set_orig_def by (rule keeps_modify) (auto simp: same_but_effective_def)
  show ?thesis
    unfolding SetupVF_def Let_def by (intro keeps_intros w1 w2 nl pod orig)
qed

lemma announce_keep:
  assumes "netlink_keeps P nl" "sockets_keep P sk"
  shows "keeps P (AnnounceIPs nl Marshal sk ifn ipcs)"
proof -
  have sk: "keeps_ext P (Socket sk d t p)" "keeps_ext P (SetsockoptInt sk fd l o' v)"
      "keeps_ext P (Sendto sk fd b f a)" "keeps_ext P (CloseFd sk fd)" for d t p fd l o' v b f a
    using assms(2) by (simp_all add: sockets_keep_def)
  have "keeps P (announce_one Marshal sk ifn link ipc)" for link and ipc :: "'b IPConfig_scheme"
    unfolding announce_one_def SendGratuitousArp_def SendUnsolicitedNeighborAdvertisement_def Let_def
    by (auto intro!: keeps_intros sk)
  then show ?thesis
    unfolding AnnounceIPs_def by (auto intro!: keeps_intros netlink_keepsD [OF assms(1)])
qed

lemma env_keepsD:
  assumes "env_keeps P x"
  shows "netlink_keeps P (cni_netlink x)" "sockets_keep P (cni_sockets x)" "manager_keeps P (sm x)"
    "GetNS x p w = Inr netns \<Longrightarrow> ns_keeps P netns"
    "keeps_ext P (ExecAdd x t b)" "keeps_ext P (ExecDel x t b)" "keeps_ext P (ConfigureIface x n r)"
    "keeps_ext P (Dial x a)" "keeps_ext P (ConnClose x c)" "keeps_ext P (PrintResult x r v)"
  using assms by (auto simp: env_keeps_def manager_keeps_def sm_def NewSriovManager_def)

section \<open>Runs with a known first step\<close>

lemma run_Ok:
  assumes "m w = (Ok a, w1)"
  shows "try_else m h k w = k a w1" "check m f k w = k a w1" "andthen m k w = k a w1" "ignore m w = (Ok (), w1)"
  using assms by (simp_all add: check_def andthen_def ignore_def try_else_def)

lemma run_Err:
  assumes "m w = (Err e, w1)"
  shows "try_else m h k w = h e w1" "check m f k w = (Err (f e), w1)" "andthen m k w = (Err e, w1)" "ignore m w = (Ok (), w1)"
  using assms by (simp_all add: check_def andthen_def ignore_def try_else_def)

lemma run_deferring:
  assumes "m w = (r, w1)" "d w1 = (q, w2)" "\<not> abnormal r" "\<not> abnormal q"
  shows "deferring d m w = (r, w2)"
  using assms by (cases r; cases q; simp add: deferring_def)

lemma on_w_run: "m (world s) = (r, w1) \<Longrightarrow> on_w m s = (r, s\<lparr>world := w1\<rparr>)"
  by (simp add: zoom_def)

lemma on_conf_w_run: "m (conf s, world s) = (r, (n, w1)) \<Longrightarrow> on_conf_w m s = (r, s\<lparr>conf := n, world := w1\<rparr>)"
  by (simp add: zoom_def upd_conf_world_def)

lemma run_assign:
  "m s = (Ok a, s1) \<Longrightarrow> assign m f k s = k a (s1\<lparr>errv := None\<rparr>)"
  "m s = (Err e, s1) \<Longrightarrow> assign m f k s = (Err (f e), s1\<lparr>errv := Some e\<rparr>)"
  by (simp_all add: assign_def try_else_def)

section \<open>Successful runs, step by step\<close>

lemma try_else_Ok:
  "try_else m h k w = (Ok a, w') \<longleftrightarrow>
     (\<exists>b w1. m w = (Ok b, w1) \<and> k b w1 = (Ok a, w')) \<or> (\<exists>e w1. m w = (Err e, w1) \<and> h e w1 = (Ok a, w'))"
  by (auto simp: try_else_def split: prod.splits res.splits)

lemma assign_Ok:
  "assign m f k s = (Ok a, s') \<longleftrightarrow> (\<exists>b s1. m s = (Ok b, s1) \<and> k b (s1\<lparr>errv := None\<rparr>) = (Ok a, s'))"
  by (auto simp: assign_def try_else_Ok)

lemma locals_order [simp]: "errv_update f (world_update g s) = world_update g (errv_update f s)"
  by (cases s) simp

lemma on_w_Ok: "on_w m s = (Ok a, s') \<longleftrightarrow> (\<exists>w. m (world s) = (Ok a, w) \<and> s' = s\<lparr>world := w\<rparr>)"
  by (auto simp: zoom_Ok)

lemma add_register_Ok:
  assumes "add_register x args result s = (Ok (), s')"
  shows "\<exists>w1 w2 conn w3 mac r w4 w5.
    SaveNetConf (render_json x) (ContainerID args) DefaultCNIDir (IfName args) (conf s) (world s) = (Ok (), w1) \<and>
    SaveAllocatedPCI (NewPCIAllocator DefaultCNIDir) (DeviceID (conf s)) (Netns args) w1 = (Ok (), w2) \<and>
    Dial x (DpuDaemonAddress (conf s)) w2 = (Inr conn, w3) \<and>
    ParseMAC (EffectiveMAC (OrigVfState (conf s))) = Inr mac \<and>
    rpc_Create x conn (create_request (conf s) mac) w3 = (Inr r, w4) \<and>
    PrintResult x result (CNIVersion (conf s)) w4 = (Inr (), w5) \<and>
    s' = s\<lparr>errv := None, world := snd (ConnClose x conn w5)\<rparr>"
proof -
  from assms obtain w1 w2 conn w3 mac r w4 w5 q where
    a: "SaveNetConf (render_json x) (ContainerID args) DefaultCNIDir (IfName args) (conf s) (world s) = (Ok (), w1)"
    "SaveAllocatedPCI (NewPCIAllocator DefaultCNIDir) (DeviceID (conf s)) (Netns args) w1 = (Ok (), w2)"
    "Dial x (DpuDaemonAddress (conf s)) w2 = (Inr conn, w3)"
    "ParseMAC (EffectiveMAC (OrigVfState (conf s))) = Inr mac"
    "rpc_Create x conn (create_request (conf s) mac) w3 = (Inr r, w4)"
    "PrintResult x result (CNIVersion (conf s)) w4 = (Inr (), w5)"
    and close: "on_w (call (ConnClose x conn)) (s\<lparr>errv := None, world := w5\<rparr>) = (q, s')"
    unfolding add_register_def
    by (auto simp: andthen_Ok assign_Ok on_w_Ok try_else_Ok deferring_Ok call_Ok of_res_Ok of_sum_Ok)
  have "s' = s\<lparr>errv := None, world := snd (ConnClose x conn w5)\<rparr>"
    using close by (cases "ConnClose x conn w5") (auto simp: zoom_def call_def split: sum.splits)
  with a show ?thesis by blast
qed

text \<open>What holds in the world from the start of a part of \<open>ADD\<close> to \<open>add_register\<close>.\<close>

definition carries :: "('z os_scheme, 'r, 'x, 'y) cni_ext \<Rightarrow> CmdArgs \<Rightarrow> 'z os_scheme NetNS \<Rightarrow> 'z os_scheme \<Rightarrow> 'z os_scheme \<Rightarrow> bool" where
  "carries x args netns w w' \<longleftrightarrow> (\<forall>P. env_keeps P x \<and> ns_keeps P netns \<and>
     keeps P (EnableArpAndNdiscNotify (IfName args)) \<and> P w \<longrightarrow> P w')"

lemma carriesI:
  "(\<And>P. env_keeps P x \<Longrightarrow> ns_keeps P netns \<Longrightarrow> keeps P (EnableArpAndNdiscNotify (IfName args)) \<Longrightarrow> P w \<Longrightarrow> P w') \<Longrightarrow>
   carries x args netns w w'"
  by (auto simp: carries_def)

lemma carries_trans: "carries x args netns u v \<Longrightarrow> carries x args netns v w \<Longrightarrow> carries x args netns u w"
  by (auto simp: carries_def)

lemma keeps_extD: "keeps_ext P f \<Longrightarrow> P w \<Longrightarrow> f w = (r, w') \<Longrightarrow> P w'"
  by (auto simp: keeps_ext_def dest: spec [of _ w])

lemma add_ipam_Ok:
  assumes "add_ipam x args netns result s = (Ok (), s')"
  shows "\<exists>w1 res. carries x args netns (world s) w1 \<and>
    add_register x args res (s\<lparr>errv := None, world := w1\<rparr>) = (Ok (), s')"
proof -
  let ?n = "conf s"
  let ?res = "\<lambda>r. r\<lparr>Interfaces := Interfaces result, IPs := map (ipInterface_update (\<lambda>_. Some 0)) (IPs r)\<rparr>"
  let ?in = "\<lambda>r. Do netns (andthen (call (ConfigureIface x (IfName args) r)) (\<lambda>_.
     ignore (AnnounceIPs (cni_netlink x) (icmp_Marshal x) (cni_sockets x) (IfName args) (IPs r))))"
  from assms obtain r w1 where
    ex: "ExecAdd x (IpamType ?n) (StdinData args) (world s) = (Inr r, w1)" and
    rest: "deferring (andthen (gets errv) (\<lambda>err. if err \<noteq> None then ignore (on_w (call (ExecDel x (IpamType ?n) (StdinData args)))) else ret ()))
      (assign (of_res (of_sum (NewResultFromResult x r))) (\<lambda>err. err) (\<lambda>newResult.
       assign (if IPs newResult = [] then fail (Errorf ''IPAM plugin returned missing IP config'' []) else ret ()) (\<lambda>err. err) (\<lambda>_.
       andthen (if \<not> DPDKMode ?n then assign (on_w (?in (?res newResult))) (\<lambda>err. err) ret else ret ()) (\<lambda>_.
       add_register x args (?res newResult))))) (s\<lparr>errv := None, world := w1\<rparr>) = (Ok (), s')"
    unfolding add_ipam_def Let_def by (auto simp: andthen_Ok [of "gets _"] assign_Ok [of "on_w (call (ExecAdd _ _ _))"] on_w_Ok call_Ok)
  from rest obtain s1 q where
    del: "andthen (gets errv) (\<lambda>err. if err \<noteq> None then ignore (on_w (call (ExecDel x (IpamType ?n) (StdinData args)))) else ret ()) s1 = (q, s')" and
    body: "assign (of_res (of_sum (NewResultFromResult x r))) (\<lambda>err. err) (\<lambda>newResult.
       assign (if IPs newResult = [] then fail (Errorf ''IPAM plugin returned missing IP config'' []) else ret ()) (\<lambda>err. err) (\<lambda>_.
       andthen (if \<not> DPDKMode ?n then assign (on_w (?in (?res newResult))) (\<lambda>err. err) ret else ret ()) (\<lambda>_.
       add_register x args (?res newResult)))) (s\<lparr>errv := None, world := w1\<rparr>) = (Ok (), s1)"
    by (auto simp only: deferring_Ok)
  from body obtain res where
    body1: "andthen (if \<not> DPDKMode ?n then assign (on_w (?in (?res res))) (\<lambda>err. err) ret else ret ()) (\<lambda>_.
       add_register x args (?res res)) (s\<lparr>errv := None, world := w1\<rparr>) = (Ok (), s1)"
    by (auto simp: assign_Ok [of "of_res _"] assign_Ok [of "if _ then _ else _"] of_res_Ok of_sum_Ok split: if_splits)
  have "\<exists>w2. (DPDKMode ?n \<and> w2 = w1 \<or> \<not> DPDKMode ?n \<and> ?in (?res res) w1 = (Ok (), w2)) \<and>
      add_register x args (?res res) (s\<lparr>errv := None, world := w2\<rparr>) = (Ok (), s1)"
  proof (cases "DPDKMode ?n")
    case True
    with body1 show ?thesis by auto
  next
    case False
    with body1 show ?thesis by (auto simp: andthen_Ok [of "assign _ _ _"] assign_Ok on_w_Ok)
  qed
  then obtain w2 where
    pod: "DPDKMode ?n \<and> w2 = w1 \<or> \<not> DPDKMode ?n \<and> ?in (?res res) w1 = (Ok (), w2)" and
    reg: "add_register x args (?res res) (s\<lparr>errv := None, world := w2\<rparr>) = (Ok (), s1)" by blast
  from add_register_Ok [OF reg] have "errv s1 = None" by auto
  with del have "s' = s1" by simp
  have "carries x args netns (world s) w2"
  proof (rule carriesI)
    fix P assume P: "env_keeps P x" "ns_keeps P netns" "P (world s)"
    note k = env_keepsD [OF P(1)]
    have "P w1" by (rule keeps_extD [OF k(5) P(3) ex])
    moreover have "keeps P (?in (?res res))"
      by (rule P(2) [unfolded ns_keeps_def, rule_format]) (intro keeps_intros k announce_keep)
    ultimately show "P w2" using pod by (auto dest: keepsD)
  qed
  with reg \<open>s' = s1\<close> show ?thesis by blast
qed

lemma same_but_effective_refl: "same_but_effective n n"
  unfolding same_but_effective_def by (rule exI [of _ "EffectiveMAC (OrigVfState n)"]) simp

text \<open>Configuring and moving the function changes the effective address of the configuration only.\<close>

lemma apply_setup_carries:
  assumes app: "ApplyVFConfig (sm x) n w = (Ok (), w1)" and su: "SetupVF (sm x) (IfName args) netns (n, w1) = (Ok (), (n', w'))"
  shows "same_but_effective n n' \<and> carries x args netns w w'"
proof -
  have u: "utils (sm x) = pciUtilsImpl" by (simp add: sm_def NewSriovManager_def)
  have both: "P w' \<and> same_but_effective n n'"
    if P: "env_keeps P x" "ns_keeps P netns" "keeps P (EnableArpAndNdiscNotify (IfName args))" "P w" for P
  proof -
    note k = env_keepsD(3) [OF P(1)]
    have "P w1" using app P(4) by (auto dest: keepsD [OF manager_keep(1) [OF k]])
    moreover have "keeps (\<lambda>cw. P (snd cw) \<and> same_but_effective n (fst cw)) (SetupVF (sm x) (IfName args) netns)"
      by (rule setup_keep [OF k P(2)]) (simp add: u pciUtilsImpl_def P(3))
    ultimately show ?thesis
      using same_but_effective_refl [of n] su unfolding keeps_def by (metis fst_conv snd_conv)
  qed
  moreover have "env_keeps (\<lambda>_. True) x" by (simp add: env_keeps_def netlink_keeps_def sockets_keep_def ns_keeps_def keeps_def keeps_ext_def)
  moreover have "ns_keeps (\<lambda>_. True) netns" "keeps (\<lambda>_. True) m" for m :: "('a os_scheme, unit) prog" by (simp_all add: ns_keeps_def keeps_def)
  ultimately show ?thesis by (auto intro!: carriesI)
qed

lemma add_in_netns_Ok:
  assumes "add_in_netns x args netns s = (Ok (), s')"
  shows "\<exists>s1 res. carries x args netns (world s) (world s1) \<and> same_but_effective (conf s) (conf s1) \<and>
    (DPDKMode (conf s) \<longrightarrow> conf s1 = conf s) \<and>
    add_register x args res s1 = (Ok (), s')"
proof -
  let ?n = "conf s"
  let ?result = "\<lambda>n. (empty_result x)\<lparr>Interfaces := [\<lparr>ifcName = IfName args, ifcMac = GetMacAddressForResult n, Sandbox = Path netns\<rparr>]\<rparr>"
  let ?fin = "\<lambda>n. if IpamType n \<noteq> [] then add_ipam x args netns (?result n) else add_register x args (?result n)"
  let ?set_up = "if \<not> DPDKMode ?n then assign (on_conf_w (SetupVF (sm x) (IfName args) netns))
     (\<lambda>err. Errorf ''failed to set up pod interface %q from the device %q: %v'' [S (IfName args), S (Master ?n), E err]) ret else ret ()"
  from assms obtain w1 s3 q where
    app: "ApplyVFConfig (sm x) ?n (world s) = (Ok (), w1)" and
    rest: "andthen ?set_up (\<lambda>_. andthen (gets conf) ?fin) (s\<lparr>world := w1\<rparr>) = (Ok (), s3)" and
    cleanup: "add_cleanup x args netns s3 = (q, s')"
    unfolding add_in_netns_def Let_def deferring_Ok
    by (auto simp: check_Ok on_w_Ok)
  from rest obtain s2 where step: "?set_up (s\<lparr>world := w1\<rparr>) = (Ok (), s2)" and reg: "?fin (conf s2) s2 = (Ok (), s3)"
    by (auto simp: andthen_Ok [of ?set_up])
  have set: "DPDKMode ?n \<and> s2 = s\<lparr>world := w1\<rparr> \<or>
      \<not> DPDKMode ?n \<and> (\<exists>n' w'. SetupVF (sm x) (IfName args) netns (?n, w1) = (Ok (), (n', w')) \<and> s2 = s\<lparr>conf := n', errv := None, world := w'\<rparr>)"
    using step by (cases "DPDKMode ?n") (auto simp: assign_Ok zoom_Ok upd_conf_world_def)
  from reg obtain s4 res where s4: "carries x args netns (world s2) (world s4)" "conf s4 = conf s2"
    "add_register x args res s4 = (Ok (), s3)"
  proof (cases "IpamType (conf s2) \<noteq> []")
    case True
    with reg have "add_ipam x args netns (?result (conf s2)) s2 = (Ok (), s3)" by simp
    from add_ipam_Ok [OF this] obtain w res where "carries x args netns (world s2) w"
      "add_register x args res (s2\<lparr>errv := None, world := w\<rparr>) = (Ok (), s3)" by blast
    then show ?thesis by (intro that [of "s2\<lparr>errv := None, world := w\<rparr>" res]) simp_all
  next
    case False
    with reg that [of s2] show ?thesis by (auto simp: carries_def)
  qed
  from add_register_Ok [OF s4(3)] have "errv s3 = None" by auto
  with cleanup have "s' = s3" by (simp add: add_cleanup_def)
  have "carries x args netns (world s) w1"
    using app by (auto intro!: carriesI dest: keepsD [OF manager_keep(1) [OF env_keepsD(3)]])
  then have conf: "same_but_effective ?n (conf s2) \<and> carries x args netns (world s) (world s2)"
    using set same_but_effective_refl apply_setup_carries [OF app] by auto
  have "DPDKMode ?n \<longrightarrow> conf s2 = ?n" using set by auto
  with conf s4 \<open>s' = s3\<close> carries_trans show ?thesis by metis
qed

end
