(* ===== verification/CniFiles.thy ===== *)
theory CniFiles
  imports CniProps
begin

text \<open>
  The files below \<open>/var/lib/cni/sriov\<close> during a command: the cached configuration of the container
  and the lock files. \<open>cni_inv\<close> is the state of the file tree the commands expect and keep, \<open>cni_state\<close>
  all of the tree that matters to it, and the lemmas say what each file operation of a command does.
\<close>

section \<open>The state of the files\<close>

text \<open>No links at \<open>/proc\<close> and in \<open>/proc/sys\<close>.\<close>

definition proc_ok :: "'z os_scheme \<Rightarrow> bool" where
  "proc_ok w \<longleftrightarrow> (\<forall>p t. lookup w p = Some (Link t) \<longrightarrow> p \<noteq> [''proc''] \<and> take 2 p \<noteq> [''proc'', ''sys''])"

definition cni_inv :: "string \<Rightarrow> 'z os_scheme \<Rightarrow> bool" where
  "cni_inv c w \<longleftrightarrow> lock_inv lock_dir w \<and> cache_file w c \<and> proc_ok w"

definition cni_path :: "string list \<Rightarrow> bool" where
  "cni_path p \<longleftrightarrow> (\<exists>i \<le> length cni_dir. p = take i cni_dir) \<or> (\<exists>q. p = cni_dir @ q)"

definition cni_state :: "'z os_scheme \<Rightarrow> (string list \<Rightarrow> node option) \<times> bool \<times> bool" where
  "cni_state w = ((\<lambda>p. if cni_path p then lookup w p else None), (\<forall>op p. fault w op p \<noteq> Some ENOENT), proc_ok w)"

lemma cni_state_lookup: "cni_state w = cni_state u \<Longrightarrow> cni_path p \<Longrightarrow> lookup w p = lookup u p"
  by (auto simp: cni_state_def dest: fun_cong [of _ _ p])

lemma cni_path_simps [simp]: "cni_path (cni_dir @ q)" "cni_path (take i cni_dir)" "cni_path cni_dir"
proof -
  have "take i cni_dir = take (min i (length cni_dir)) cni_dir" by (simp add: min_def)
  then show "cni_path (take i cni_dir)" unfolding cni_path_def by (metis min.cobounded2)
qed (auto simp: cni_path_def intro: exI [of _ "[]"])

lemma cni_path_lock [simp]: "cni_path (lock_dir @ q)" "cni_path (take i lock_dir)"
proof -
  show "cni_path (lock_dir @ q)" by (simp add: lock_dir_def)
  show "cni_path (take i lock_dir)"
    by (cases "i \<le> length cni_dir") (simp_all add: lock_dir_def)
qed

lemma cni_inv_state: "cni_state w = cni_state u \<Longrightarrow> cni_inv c w = cni_inv c u"
proof -
  assume eq: "cni_state w = cni_state u"
  have l: "lookup w (cni_dir @ q) = lookup u (cni_dir @ q)" "lookup w (take i cni_dir) = lookup u (take i cni_dir)"
    "lookup w (take i lock_dir) = lookup u (take i lock_dir)" "lookup w (lock_dir @ q) = lookup u (lock_dir @ q)" for q i
    by (simp_all add: cni_state_lookup [OF eq])
  have "(\<forall>op p. fault w op p \<noteq> Some ENOENT) = (\<forall>op p. fault u op p \<noteq> Some ENOENT)" "proc_ok w = proc_ok u"
    using eq by (simp_all add: cni_state_def)
  with l show ?thesis
    by (simp add: cni_inv_def lock_inv_def cache_file_def dir_or_none_def real_dir_def)
qed

lemma lock_holder_state: "cni_state w = cni_state u \<Longrightarrow> lock_holder lock_dir w = lock_holder lock_dir u"
  using cni_state_lookup [of w u] by (auto simp: lock_holder_def fun_eq_iff)

lemma real_dir_state: "cni_state w = cni_state u \<Longrightarrow> real_dir w cni_dir = real_dir u cni_dir"
  using cni_state_lookup [of w u] by (auto simp: real_dir_def)

section \<open>Writing below \<open>/proc/sys\<close>\<close>

lemma walk_no_links:
  assumes "\<forall>c \<in> set cs. plain c" "\<forall>i \<le> length cs. \<forall>t. look (d @ take i cs) \<noteq> Some (Link t)"
    and "walk look h k d cs = Inr q"
  shows "q = d @ cs"
  using assms
proof (induction cs arbitrary: d)
  case (Cons c cs)
  have here: "\<forall>t. look (d @ [c]) \<noteq> Some (Link t)" using Cons.prems(2)[rule_format, of 1] by simp
  have rest: "\<forall>i \<le> length cs. \<forall>t. look ((d @ [c]) @ take i cs) \<noteq> Some (Link t)"
  proof (intro allI impI)
    fix i t assume "i \<le> length cs"
    then show "look ((d @ [c]) @ take i cs) \<noteq> Some (Link t)" using Cons.prems(2)[rule_format, of "Suc i"] by simp
  qed
  from Cons.prems(1,3) here have "q = d @ [c] \<and> cs = [] \<or> walk look h k (d @ [c]) cs = Inr q"
    by (auto simp: plain_def split: option.splits node.splits if_splits)
  with Cons.IH [OF _ rest] Cons.prems(1) show ?case by auto
qed simp

lemma WriteFile_world:
  assumes "\<forall>c \<in> set cs. plain c" "\<forall>i \<le> length cs. \<forall>t. lookup w (take i cs) \<noteq> Some (Link t)"
    and "os_WriteFile (abs_path cs) b w = (r, w')"
  shows "w' = w \<or> (\<exists>b'. w' = put cs (File b') w)"
proof -
  have "q = cs" if "resolve Create w (abs_path cs) = Inr q" for q
    using that walk_no_links [OF assms(1), of "lookup w" "[]" Create max_links q] assms(2)
    by (simp add: resolve_def components_abs_path [OF assms(1)])
  then show ?thesis using assms(3)
    by (auto simp: os_WriteFile_def split: option.splits sum.splits node.splits)
qed

lemma put_proc_sys:
  assumes "proc_ok w" "take 2 cs = [''proc'', ''sys'']"
  shows "cni_state (put cs (File b) w) = cni_state w"
proof -
  from assms(2) obtain r where cs: "cs = ''proc'' # ''sys'' # r"
    by (cases cs rule: list.exhaust; simp; cases "tl cs"; auto)
  then have "\<not> cni_path cs"
    by (auto simp: cni_path_def cni_dir_def take_Cons' split: if_splits)
  moreover have "proc_ok (put cs (File b) w)" using assms(1) cs by (auto simp: proc_ok_def)
  ultimately show ?thesis using assms(1) cs by (auto simp: cni_state_def fun_eq_iff)
qed

lemma proc_sys_path:
  assumes "\<forall>c \<in> set d. plain c" "plain a" "plain b"
  shows "Join [abs_path d @ ''/'', a, b] = abs_path (d @ [a, b])"
proof -
  have "components ((abs_path d @ ''/'') @ CHR ''/'' # a @ CHR ''/'' # b) = d @ [a, b]"
    using assms components_append_sep [of "abs_path d" "[]"] components_append_sep [of "abs_path d @ ''/''" "a @ CHR ''/'' # b"]
      components_append_sep [of a b]
    by (simp add: components_abs_path components_plain) (simp add: components_def)
  moreover have "is_abs ((abs_path d @ ''/'') @ CHR ''/'' # a @ CHR ''/'' # b)" by (simp add: is_abs_def abs_path_def)
  moreover have "a \<noteq> []" "b \<noteq> []" using assms by (simp_all add: plain_def)
  ultimately show ?thesis
    using assms by (simp add: Join_def Clean_def clean_comps_plain)
qed

lemma notify_paths:
  assumes "plain ifn"
  shows "Join [SysV4ArpNotify, ifn, ''arp_notify''] = abs_path [''proc'', ''sys'', ''net'', ''ipv4'', ''conf'', ifn, ''arp_notify'']"
    "Join [SysV6NdiscNotify, ifn, ''ndisc_notify''] = abs_path [''proc'', ''sys'', ''net'', ''ipv6'', ''conf'', ifn, ''ndisc_notify'']"
proof -
  have d: "SysV4ArpNotify = abs_path [''proc'', ''sys'', ''net'', ''ipv4'', ''conf''] @ ''/''"
    "SysV6NdiscNotify = abs_path [''proc'', ''sys'', ''net'', ''ipv6'', ''conf''] @ ''/''"
    by (simp_all add: SysV4ArpNotify_def SysV6NdiscNotify_def abs_path_def)
  show "Join [SysV4ArpNotify, ifn, ''arp_notify''] = abs_path [''proc'', ''sys'', ''net'', ''ipv4'', ''conf'', ifn, ''arp_notify'']"
    "Join [SysV6NdiscNotify, ifn, ''ndisc_notify''] = abs_path [''proc'', ''sys'', ''net'', ''ipv6'', ''conf'', ifn, ''ndisc_notify'']"
    unfolding d by (subst proc_sys_path; use assms in \<open>simp add: plain_def\<close>)+
qed

lemma proc_ok_prefix:
  assumes "proc_ok w" "take 2 cs = [''proc'', ''sys'']"
  shows "lookup w (take i cs) \<noteq> Some (Link t)"
proof -
  consider "i = 0" | "i = 1" | "2 \<le> i" by linarith
  then show ?thesis
  proof cases
    case 2
    have "take 1 cs = [''proc'']" using arg_cong [OF assms(2), of "take 1"] by simp
    with 2 assms(1) show ?thesis by (auto simp: proc_ok_def)
  next
    case 3
    then have "take 2 (take i cs) = [''proc'', ''sys'']" using assms(2) by (simp add: min_def)
    with assms(1) show ?thesis unfolding proc_ok_def by blast
  qed (simp add: lookup_def)
qed

lemma write_proc_sys_keeps:
  assumes "proc_ok w" "\<forall>c \<in> set cs. plain c" "take 2 cs = [''proc'', ''sys'']"
  shows "cni_state (snd (os_WriteFile (abs_path cs) b w)) = cni_state w"
proof -
  obtain r w' where run: "os_WriteFile (abs_path cs) b w = (r, w')" by fastforce
  with WriteFile_world [OF assms(2) _ run] proc_ok_prefix [OF assms(1,3)] put_proc_sys [OF assms(1,3)]
  show ?thesis by auto
qed

lemma EnableArp_keeps_state:
  assumes "plain ifn" "snd (snd v)"
  shows "keeps (\<lambda>w :: 'z os_scheme. cni_state w = v) (EnableArpAndNdiscNotify ifn)"
proof -
  have ok: "proc_ok w" if "cni_state w = v" for w :: "'z os_scheme" using that assms(2) by (auto simp: cni_state_def)
  have "keeps_ext (\<lambda>w :: 'z os_scheme. cni_state w = v) (os_WriteFile (abs_path cs) b)"
    if "\<forall>c \<in> set cs. plain c" "take 2 cs = [''proc'', ''sys'']" for cs b
    using write_proc_sys_keeps [OF ok that] by (auto simp: keeps_ext_def)
  from this [of "[''proc'', ''sys'', ''net'', ''ipv4'', ''conf'', ifn, ''arp_notify'']"]
    this [of "[''proc'', ''sys'', ''net'', ''ipv6'', ''conf'', ifn, ''ndisc_notify'']"]
  show ?thesis
    unfolding EnableArpAndNdiscNotify_def Let_def notify_paths [OF assms(1)]
    using assms(1) by (intro keeps_intros) (simp_all add: plain_def)
qed

text \<open>What depends on nothing in the tree is kept by every file operation.\<close>

definition treeless :: "('z os_scheme \<Rightarrow> 'a) \<Rightarrow> bool" where
  "treeless f \<longleftrightarrow> (\<forall>w ns. f (w\<lparr>nodes := ns\<rparr>) = f w)"

lemma treelessD: "treeless f \<Longrightarrow> f (put p n w) = f w" "treeless f \<Longrightarrow> f (del p w) = f w"
  by (simp_all add: treeless_def put_def del_def)

lemma mkdirs_treeless: "treeless f \<Longrightarrow> f (snd (mkdirs p d cs w)) = f w"
  by (induction p d cs w rule: mkdirs.induct)
     (auto simp: treelessD simp del: walk.simps split: sum.split option.split node.split)

lemma treeless_keeps [keeps_intros]:
  assumes "treeless f"
  shows "keeps_ext (\<lambda>w. f w = v) (os_WriteFile p b)" "keeps_ext (\<lambda>w. f w = v) (os_Remove p)"
    "keeps_ext (\<lambda>w. f w = v) (os_MkdirAll p)"
  using treelessD [OF assms] mkdirs_treeless [OF assms]
  by (auto simp: keeps_ext_def os_WriteFile_def os_Remove_def os_MkdirAll_def
      split: option.split sum.split node.split prod.split)

lemma treeless_keep_files [keeps_intros]:
  assumes "treeless f"
  shows "keeps (\<lambda>w. f w = v) (EnableArpAndNdiscNotify n)" "keeps (\<lambda>w. f w = v) (SaveAllocatedPCI a k b)"
    "keeps (\<lambda>w. f w = v) (DeleteAllocatedPCI a k)" "keeps (\<lambda>w. f w = v) (SaveNetConf r i d p c)"
    "keeps (\<lambda>w. f w = v) (CleanCachedNetConf p)"
  using assms
  by (auto simp: EnableArpAndNdiscNotify_def SaveAllocatedPCI_def DeleteAllocatedPCI_def SaveNetConf_def
      saveScratchNetConf_def CleanCachedNetConf_def Let_def intro!: keeps_intros)

section \<open>The lock directory and the cache\<close>

lemma cni_below: "cni_dir @ a # q \<noteq> take i cni_dir"
proof
  assume "cni_dir @ a # q = take i cni_dir"
  then have "length (cni_dir @ a # q) = length (take i cni_dir)" by (rule arg_cong)
  then show False by simp
qed

lemma Remove_world:
  assumes "lock_inv d w" "plain k" "os_Remove (abs_path (d @ [k])) w = (r, w')"
  shows "w' = w \<or> w' = del (d @ [k]) w"
proof (cases "lookup w (d @ [k])")
  case None
  with resolve_missing_dir [of w d k NoFollow] assms show ?thesis
    by (auto simp: os_Remove_def find_node_def lock_inv_def split: option.splits)
next
  case (Some n)
  then show ?thesis
    using Remove_entry [OF lock_entry(1) [OF assms(1) Some] assms(2)] lock_entry(2) [OF assms(1)] assms(3)
    by (auto split: option.splits)
qed

lemma run_read:
  assumes "snd (f w) = w"
  shows "try_else (call f) h k w = (case fst (f w) of Inl e \<Rightarrow> h e w | Inr a \<Rightarrow> k a w)"
    "check (call f) g k w = (case fst (f w) of Inl e \<Rightarrow> (Err (g e), w) | Inr a \<Rightarrow> k a w)"
  using assms by (cases "f w"; auto simp: run_call split: sum.split)+

lemma IsAllocated_world:
  assumes "lock_inv d w" "plain k" "IsAllocated opn \<lparr>dataDir = abs_path d\<rparr> k w = (r, w')"
  shows "w' = w \<or> w' = del (d @ [k]) w"
proof -
  obtain r1 w1 where d: "DeleteAllocatedPCI \<lparr>dataDir = abs_path d\<rparr> k w = (r1, w1)" by fastforce
  have "w1 = w \<or> w1 = del (d @ [k]) w"
    using d Remove_world [OF assms(1,2)]
    by (auto simp: DeleteAllocatedPCI_def Let_def lock_path [OF assms(1,2)] run_call split: prod.splits sum.splits)
  moreover have "snd (check (DeleteAllocatedPCI \<lparr>dataDir = abs_path d\<rparr> k) g (\<lambda>_. ret b) w) = w1" for g :: "error \<Rightarrow> error" and b :: bool
    using d by (auto simp: check_def try_else_def split: res.split)
  ultimately show ?thesis
    using assms(3)
    by (auto simp: IsAllocated_def Let_def run_read fail_def ret_def split: sum.splits if_splits)
       (metis snd_conv)+
qed

lemma cni_inv_del_lock:
  assumes "cni_inv c w" "lookup w (lock_dir @ [k]) \<noteq> None"
  shows "cni_inv c (del (lock_dir @ [k]) w)"
proof -
  have l: "lock_inv lock_dir w" using assms(1) by (simp add: cni_inv_def)
  then have "real_dir w lock_dir" using assms(2) lock_entry(1) by blast
  moreover have "lock_dir @ [k] \<noteq> take i cni_dir" for i by (simp add: lock_dir_def cni_below)
  moreover have "lock_dir @ [k] \<noteq> cni_dir @ [c]" by (simp add: lock_dir_def)
  ultimately show ?thesis
    using assms(1) lock_inv_del(1) [OF _ l] by (auto simp: cni_inv_def cache_file_def dir_or_none_def proc_ok_def)
qed

text \<open>Loading the configuration may drop a stale lock and does nothing else.\<close>

lemma LoadConf_world:
  assumes "cni_inv c w" "LoadConf parse opn bytes w = (Ok n, w')"
    and "\<And>n. then_dec (parse bytes) NetConf_of_json = Inr n \<Longrightarrow> plain (DeviceID n)"
  shows "cni_inv c w' \<and> (w' = w \<or> w' = del (lock_dir @ [DeviceID n]) w) \<and> plain (DeviceID n)"
proof -
  from assms(2) obtain n0 where n0: "then_dec (parse bytes) NetConf_of_json = Inr n0" by (auto simp: LoadConf_def ok_iffs)
  have k: "plain (DeviceID n0)" by (rule assms(3) [OF n0])
  have l: "lock_inv lock_dir w" using assms(1) by (simp add: cni_inv_def)
  let ?c = "if DpuDaemonAddress n0 = [] then n0\<lparr>DpuDaemonAddress := default_addr\<rparr> else n0"
  from assms(2) n0 obtain pf vf w1 w2 n1 where
    info: "config_getVfInfo (DeviceID n0) w = (Ok (pf, vf), w1)" and
    free: "IsAllocated opn (NewPCIAllocator DefaultCNIDir) (DeviceID n0) w1 = (Ok False, w2)" and
    device: "load_device (?c\<lparr>VFID := vf, Master := pf\<rparr>) w2 = (Ok n1, w')" and vlan: "load_vlan n1 = Inr n"
    unfolding LoadConf_def Let_def by (auto simp: ok_iffs split: if_splits prod.splits)
  have w1: "w1 = w" using config_getVfInfo_Ok [OF info] by simp
  note d = load_device_Ok [OF device]
  then have w': "w' = w2" by simp
  have n: "DeviceID n = DeviceID n0" using load_vlan_Inr [OF vlan] d by (cases n; cases n1; simp)
  have "w2 = w \<or> w2 = del (lock_dir @ [DeviceID n]) w"
    using IsAllocated_world [OF l k] free unfolding w1 default_allocator n by blast
  moreover have "cni_inv c w2"
  proof (cases "lookup w (lock_dir @ [DeviceID n]) = None")
    case True
    then have "lookup (del (lock_dir @ [DeviceID n]) w) = lookup w" by (auto simp: fun_eq_iff lock_dir_def cni_dir_def)
    then have "cni_state (del (lock_dir @ [DeviceID n]) w) = cni_state w"
      by (simp only: cni_state_def proc_ok_def) simp
    with calculation assms(1) show ?thesis using cni_inv_state by metis
  next
    case False
    with calculation assms(1) show ?thesis using cni_inv_del_lock by metis
  qed
  ultimately show ?thesis using k n by (simp add: w')
qed

text \<open>Writing the two files.\<close>

lemma lookup_cni_put_cache:
  "cache_ref i n \<noteq> ''pci''"
proof
  assume "cache_ref i n = ''pci''"
  then have "CHR ''-'' \<in> set ''pci''" by (metis cache_ref_def in_set_conv_decomp strings_Join.simps(3) append.assoc append_Cons append_Nil)
  then show False by simp
qed

lemma SaveNetConf_inv:
  assumes "cni_inv (cache_ref i n) w" "SaveNetConf render i DefaultCNIDir n c w = (Ok (), w1)"
  shows "cni_inv (cache_ref i n) w1" "real_dir w1 cni_dir" "lock_holder lock_dir w1 = lock_holder lock_dir w"
    "lookup w1 (cni_dir @ [cache_ref i n]) = Some (File (render (json_of_NetConf c)))"
proof -
  have "cache_file w (cache_ref i n)" using assms(1) by (simp add: cni_inv_def)
  note eff = SaveNetConf_Ok [OF this assms(2)]
  have other: "lookup w1 q = lookup w q \<or> lookup w1 q = Some Dir \<and> (\<exists>i \<le> length cni_dir. q = take i cni_dir)"
    if "q \<noteq> cni_dir @ [cache_ref i n]" for q using eff that by blast
  have locks: "lookup w1 (lock_dir @ q) = lookup w (lock_dir @ q)" for q
    using other [of "lock_dir @ q"] lookup_cni_put_cache [of i n] cni_below [of "''pci''" q]
    by (auto simp: lock_dir_def)
  show "real_dir w1 cni_dir" "lookup w1 (cni_dir @ [cache_ref i n]) = Some (File (render (json_of_NetConf c)))"
    "lock_holder lock_dir w1 = lock_holder lock_dir w"
    using eff locks by (simp_all add: lock_holder_def fun_eq_iff)
  have l: "lock_inv lock_dir w" and pr: "proc_ok w" using assms(1) by (simp_all add: cni_inv_def)
  have dirs: "lookup w1 (take j lock_dir) = lookup w (take j lock_dir) \<or> lookup w1 (take j lock_dir) = Some Dir" for j
  proof (cases "j \<le> length cni_dir")
    case True
    then show ?thesis using eff by (simp add: lock_dir_def real_dir_def)
  next
    case False
    then have "take j lock_dir = lock_dir @ []" by (simp add: lock_dir_def)
    then show ?thesis using locks [of "[]"] by simp
  qed
  have "dir_or_none w1 lock_dir"
  proof -
    have "dir_or_none w lock_dir" using l by (simp add: lock_inv_def)
    then have "\<forall>c \<in> set lock_dir. plain c" "\<And>j. j \<le> length lock_dir \<Longrightarrow> lookup w1 (take j lock_dir) \<in> {None, Some Dir}"
      using dirs by (simp add: dir_or_none_def, metis dir_or_none_def insert_iff)
    then show ?thesis by (simp add: dir_or_none_def)
  qed
  moreover have "real_dir w lock_dir \<Longrightarrow> real_dir w1 lock_dir"
  proof -
    assume "real_dir w lock_dir"
    then have "\<forall>c \<in> set lock_dir. plain c" "\<And>j. j \<le> length lock_dir \<Longrightarrow> lookup w1 (take j lock_dir) = Some Dir"
      using dirs by (simp add: real_dir_def, metis real_dir_def)
    then show ?thesis by (simp add: real_dir_def)
  qed
  moreover have "fault w1 = fault w" using eff by blast
  moreover have "lookup w1 (lock_dir @ [k]) = lookup w (lock_dir @ [k])" for k by (rule locks)
  moreover have "\<forall>op p. fault w op p \<noteq> Some ENOENT" "\<And>k a. lookup w (lock_dir @ [k]) = Some a \<Longrightarrow> real_dir w lock_dir \<and> (\<exists>b. a = File b)"
    using l unfolding lock_inv_def by blast+
  ultimately have "lock_inv lock_dir w1" unfolding lock_inv_def by simp
  moreover have "cache_file w1 (cache_ref i n)"
    using eff \<open>cache_file w (cache_ref i n)\<close> by (auto simp: cache_file_def dir_or_none_def real_dir_def)
  moreover have "proc_ok w1"
    unfolding proc_ok_def
  proof (intro allI impI)
    fix p t assume "lookup w1 p = Some (Link t)"
    with eff have "lookup w p = Some (Link t)" by (metis node.distinct(3) node.distinct(7) option.inject)
    with pr show "p \<noteq> [''proc''] \<and> take 2 p \<noteq> [''proc'', ''sys'']" unfolding proc_ok_def by blast
  qed
  ultimately show "cni_inv (cache_ref i n) w1" by (simp add: cni_inv_def)
qed

end
