(* ===== verification/CniAdd.thy ===== *)
theory CniAdd
  imports CniFiles
begin

text \<open>
  The \<open>ADD\<close> command: what a successful run leaves behind, what is undone when it fails and what is
  not, and the functions it cannot serve.
\<close>

section \<open>The daemon and the libraries\<close>

text \<open>The requests the daemon has accepted. A request whose answer is an error may have been accepted.\<close>

datatype dpu_request = Created BridgePort | Deleted string

definition daemon_log :: "('z os_scheme, 'r, 'x, 'y) cni_ext \<Rightarrow> ('z os_scheme \<Rightarrow> dpu_request list) \<Rightarrow> bool" where
  "daemon_log x reqs \<longleftrightarrow> treeless reqs \<and> (\<forall>v. env_keeps (\<lambda>w. reqs w = v) x) \<and>
     (\<forall>c p w r w'. rpc_Create x c p w = (r, w') \<longrightarrow>
        reqs w' = reqs w @ [Created p] \<or> (\<not> isl r \<longrightarrow> False) \<and> reqs w' = reqs w) \<and>
     (\<forall>c n w r w'. rpc_Delete x c n w = (r, w') \<longrightarrow>
        reqs w' = reqs w @ [Deleted n] \<or> (\<not> isl r \<longrightarrow> False) \<and> reqs w' = reqs w)"

text \<open>Nothing but the plugin itself touches its files.\<close>

definition spares_files :: "('z os_scheme, 'r, 'x, 'y) cni_ext \<Rightarrow> bool" where
  "spares_files x \<longleftrightarrow> (\<forall>v. env_keeps (\<lambda>w. cni_state w = v) x) \<and>
     (\<forall>v c p. keeps_ext (\<lambda>w. cni_state w = v) (rpc_Create x c p)) \<and>
     (\<forall>v c n. keeps_ext (\<lambda>w. cni_state w = v) (rpc_Delete x c n))"

lemma add_mac_fields [simp]:
  "DPDKMode (add_mac e n) = DPDKMode n" "OrigVfState (add_mac e n) = OrigVfState n" "DeviceID (add_mac e n) = DeviceID n"
  "VFID (add_mac e n) = VFID n" "Master (add_mac e n) = Master n" "IpamType (add_mac e n) = IpamType n"
  "Vlan (add_mac e n) = Vlan n" "VlanQoS (add_mac e n) = VlanQoS n" "VlanProto (add_mac e n) = VlanProto n"
  "LinkState (add_mac e n) = LinkState n" "MinTxRate (add_mac e n) = MinTxRate n" "MaxTxRate (add_mac e n) = MaxTxRate n"
  by (simp_all add: add_mac_def Let_def split: option.split)

section \<open>A successful \<open>ADD\<close>\<close>

text \<open>Saving a lock adds directories on the way to it, and the lock.\<close>

lemma SaveAllocatedPCI_writes:
  assumes l: "lock_inv lock_dir w" and k: "plain k" and save: "SaveAllocatedPCI (NewPCIAllocator DefaultCNIDir) k ns w = (Ok (), w')"
  obtains w1 where "dir_or_none w1 lock_dir" "w' = put (lock_dir @ [k]) (File ns) w1"
    "\<And>q. lookup w1 q = lookup w q \<or> (lookup w1 q = Some Dir \<and> (\<exists>i \<le> length lock_dir. q = take i lock_dir))"
    "\<And>q. lookup w q = Some Dir \<Longrightarrow> lookup w1 q = Some Dir"
proof -
  from l have dn: "dir_or_none w lock_dir" by (simp add: lock_inv_def)
  from save obtain w1 where mk: "os_MkdirAll (abs_path lock_dir) w = (Inr (), w1)"
    and wr: "os_WriteFile (Join [abs_path lock_dir, k]) ns w1 = (Inr (), w')"
    by (auto simp: default_allocator SaveAllocatedPCI_def Let_def ok_iffs)
  note eff = MkdirAll_effect [OF dn mk]
  have only: "\<exists>b. n = File b" if "lookup w1 (lock_dir @ [k]) = Some n" for n
    using that MkdirAll_entry [OF dn mk, of k] lock_entry(2) [OF l] by metis
  have "Join [abs_path lock_dir, k] = abs_path (lock_dir @ [k])" by (rule lock_path [OF l k])
  with wr WriteFile_entry [of w1 lock_dir k ns, OF _ k only] eff have "w' = put (lock_dir @ [k]) (File ns) w1"
    by (auto split: option.splits)
  with eff show thesis by (intro that [of w1]) metis+
qed

lemma SaveAllocatedPCI_cache:
  assumes inv: "cni_inv c w" and k: "plain k" and save: "SaveAllocatedPCI (NewPCIAllocator DefaultCNIDir) k ns w = (Ok (), w')"
    and "c \<noteq> ''pci''"
  shows "lookup w' (cni_dir @ [c]) = lookup w (cni_dir @ [c]) \<and> cni_inv c w' \<and> (real_dir w cni_dir \<longrightarrow> real_dir w' cni_dir)"
proof -
  have l: "lock_inv lock_dir w" using inv by (simp add: cni_inv_def)
  obtain w1 where w1: "dir_or_none w1 lock_dir" "w' = put (lock_dir @ [k]) (File ns) w1"
    "\<And>q. lookup w1 q = lookup w q \<or> (lookup w1 q = Some Dir \<and> (\<exists>i \<le> length lock_dir. q = take i lock_dir))"
    "\<And>q. lookup w q = Some Dir \<Longrightarrow> lookup w1 q = Some Dir"
    using SaveAllocatedPCI_writes [OF l k save] by blast
  have ne: "cni_dir @ [c] \<noteq> take i lock_dir" if "i \<le> length lock_dir" for i
  proof (cases "i \<le> length cni_dir")
    case True
    then show ?thesis using cni_below [of c "[]" i] by (simp add: lock_dir_def)
  next
    case False
    with that have "take i lock_dir = cni_dir @ [''pci'']" by (simp add: lock_dir_def)
    with assms(4) show ?thesis by simp
  qed
  have cw: "lookup w1 (cni_dir @ [c]) = lookup w (cni_dir @ [c])" using w1(3) ne by metis
  have look: "lookup w' q = (if q = lock_dir @ [k] then Some (File ns) else lookup w1 q)" for q by (simp add: w1(2))
  have cl: "cni_dir @ [c] \<noteq> lock_dir @ [k]" "take i cni_dir \<noteq> lock_dir @ [k]" for i
    using cni_below [of "''pci''" "[k]" i] by (simp_all add: lock_dir_def)
  have "lookup w' (take i cni_dir) \<in> {None, Some Dir}" if "i \<le> length cni_dir" for i
  proof -
    have "take i cni_dir = take i lock_dir" "i \<le> length lock_dir" using that by (simp_all add: lock_dir_def)
    with w1(1) have "lookup w1 (take i cni_dir) \<in> {None, Some Dir}" by (simp only: dir_or_none_def)
    with look cl show ?thesis by simp
  qed
  then have "cache_file w' c" using inv look cw cl by (auto simp: cni_inv_def cache_file_def dir_or_none_def)
  moreover have "proc_ok w'"
    using inv w1(3) unfolding proc_ok_def cni_inv_def look by (metis node.distinct(3,7) option.inject)
  moreover have "lookup w' (take i cni_dir) = Some Dir" if "real_dir w cni_dir" "i \<le> length cni_dir" for i
    using that w1(4) [of "take i cni_dir"] look cl by (simp add: real_dir_def)
  then have "real_dir w cni_dir \<longrightarrow> real_dir w' cni_dir" by (simp add: real_dir_def)
  moreover have "lock_inv lock_dir w'" using locks.save_ok [OF l k] save unfolding default_allocator by blast
  ultimately show ?thesis using look cw cl by (simp add: cni_inv_def lock_dir_def)
qed

lemma create_accepted:
  "daemon_log x reqs \<Longrightarrow> rpc_Create x c p w = (Inr r, w') \<Longrightarrow> reqs w' = reqs w @ [Created p]"
  by (fastforce simp: daemon_log_def)

text \<open>What the last part of a successful \<open>ADD\<close> leaves behind, from a state whose files satisfy the invariant.\<close>

lemma add_register_effect:
  fixes x :: "('z os_scheme, 'a, 'b, 'c) cni_ext"
  assumes files: "spares_files x" and daemon: "daemon_log x reqs"
    and inv: "cni_inv (cache_ref (ContainerID args) (IfName args)) (world s1)" and dev: "plain (DeviceID (conf s1))"
    and run: "add_register x args res s1 = (Ok (), s')"
  shows "\<exists>mac. ParseMAC (EffectiveMAC (OrigVfState (conf s1))) = Inr mac \<and>
    reqs (world s') = reqs (world s1) @ [Created (create_request (conf s1) mac)] \<and>
    lock_holder lock_dir (world s') = (lock_holder lock_dir (world s1))(DeviceID (conf s1) \<mapsto> Netns args) \<and>
    lookup (world s') (cni_dir @ [cache_ref (ContainerID args) (IfName args)]) = Some (File (render_json x (json_of_NetConf (conf s1)))) \<and>
    cni_inv (cache_ref (ContainerID args) (IfName args)) (world s') \<and> real_dir (world s') cni_dir"
proof -
  let ?c = "cache_ref (ContainerID args) (IfName args)"
  have ek: "env_keeps (\<lambda>w. cni_state w = v) x" for v using files unfolding spares_files_def by blast
  have tl: "treeless reqs" and rk: "env_keeps (\<lambda>w. reqs w = v) x" for v using daemon by (simp_all add: daemon_log_def)
  from add_register_Ok [OF run] obtain w1 w2 conn w3 mac r w4 w5 where
    save: "SaveNetConf (render_json x) (ContainerID args) DefaultCNIDir (IfName args) (conf s1) (world s1) = (Ok (), w1)" and
    lock: "SaveAllocatedPCI (NewPCIAllocator DefaultCNIDir) (DeviceID (conf s1)) (Netns args) w1 = (Ok (), w2)" and
    dial: "Dial x (DpuDaemonAddress (conf s1)) w2 = (Inr conn, w3)" and
    mac: "ParseMAC (EffectiveMAC (OrigVfState (conf s1))) = Inr mac" and
    create: "rpc_Create x conn (create_request (conf s1) mac) w3 = (Inr r, w4)" and
    print: "PrintResult x res (CNIVersion (conf s1)) w4 = (Inr (), w5)" and
    close: "s' = s1\<lparr>errv := None, world := snd (ConnClose x conn w5)\<rparr>" by blast
  obtain q w6 where cl: "ConnClose x conn w5 = (q, w6)" by fastforce
  then have w': "world s' = w6" by (simp add: close)
  note sv = SaveNetConf_inv [OF inv save]
  have l1: "lock_inv lock_dir w1" using sv(1) by (simp add: cni_inv_def)
  have lk: "lock_holder lock_dir w2 = (lock_holder lock_dir w1)(DeviceID (conf s1) \<mapsto> Netns args)"
    using locks.save_ok [OF l1 dev] lock unfolding default_allocator by blast
  have cache2: "lookup w2 (cni_dir @ [?c]) = Some (File (render_json x (json_of_NetConf (conf s1)))) \<and> cni_inv ?c w2 \<and> real_dir w2 cni_dir"
    using SaveAllocatedPCI_cache [OF sv(1) dev lock lookup_cni_put_cache] sv(2,4) by simp
  have rpck: "keeps_ext (\<lambda>w. cni_state w = v) (rpc_Create x c p)" for v c p
    using files unfolding spares_files_def by blast
  have "cni_state w3 = cni_state w2" by (rule keeps_extD [OF env_keepsD(8) [OF ek] refl dial])
  moreover have "cni_state w4 = cni_state w3" by (rule keeps_extD [OF rpck refl create])
  moreover have "cni_state w5 = cni_state w4" by (rule keeps_extD [OF env_keepsD(10) [OF ek] refl print])
  moreover have "cni_state w6 = cni_state w5" by (rule keeps_extD [OF env_keepsD(9) [OF ek] refl cl])
  ultimately have st6: "cni_state (world s') = cni_state w2" by (simp add: w')
  have "reqs w1 = reqs (world s1)" "reqs w2 = reqs w1"
    using keepsD [OF treeless_keep_files(4) [OF tl] refl save] keepsD [OF treeless_keep_files(2) [OF tl] refl lock] .
  moreover have "reqs w3 = reqs w2" by (rule keeps_extD [OF env_keepsD(8) [OF rk] refl dial])
  moreover have "reqs w4 = reqs w3 @ [Created (create_request (conf s1) mac)]" by (rule create_accepted [OF daemon create])
  moreover have "reqs w5 = reqs w4" by (rule keeps_extD [OF env_keepsD(10) [OF rk] refl print])
  moreover have "reqs w6 = reqs w5" by (rule keeps_extD [OF env_keepsD(9) [OF rk] refl cl])
  ultimately have "reqs (world s') = reqs (world s1) @ [Created (create_request (conf s1) mac)]" by (simp add: w')
  then show ?thesis
    using mac lk sv(3) lock_holder_state [OF st6] cache2 cni_state_lookup [OF st6] cni_inv_state [OF st6] real_dir_state [OF st6]
    by auto
qed

lemma add_main_Ok:
  assumes files: "spares_files x" "cni_inv (cache_ref (ContainerID args) (IfName args)) w" "plain (IfName args)"
    and ids: "\<And>n. then_dec (Unmarshal x (StdinData args)) NetConf_of_json = Inr n \<Longrightarrow> plain (DeviceID n)"
    and daemon: "daemon_log x reqs"
    and run: "add_main x args w = (Ok (), w')"
  shows "\<exists>n0 e n mac w0. LoadConf (Unmarshal x) (GetNS x) (StdinData args) w = (Ok n0, w0) \<and>
    getEnvArgs x (Args args) = Inr e \<and> same_but_effective (add_mac e n0) n \<and>
    (DPDKMode n0 \<longrightarrow> n = add_mac e n0) \<and>
    lookup w' (cni_dir @ [cache_ref (ContainerID args) (IfName args)]) = Some (File (render_json x (json_of_NetConf n))) \<and>
    lock_holder lock_dir w' = (lock_holder lock_dir w)(DeviceID n0 \<mapsto> Netns args) \<and>
    ParseMAC (EffectiveMAC (OrigVfState n)) = Inr mac \<and>
    reqs w' = reqs w @ [Created (create_request n mac)] \<and>
    cni_inv (cache_ref (ContainerID args) (IfName args)) w' \<and> real_dir w' cni_dir"
proof -
  let ?c = "cache_ref (ContainerID args) (IfName args)"
  from run obtain n0 w0 e netns where
    load: "LoadConf (Unmarshal x) (GetNS x) (StdinData args) w = (Ok n0, w0)" and
    env: "getEnvArgs x (Args args) = Inr e" and ns: "GetNS x (Netns args) w0 = Inr netns" and
    body: "with_locals (add_mac e n0) (add_in_netns x args netns) w0 = (Ok (), w')"
    unfolding add_main_def by (auto simp: ok_iffs simp del: try_else_ask)
  from body obtain s' where s': "add_in_netns x args netns \<lparr>conf = add_mac e n0, errv = None, world = w0\<rparr> = (Ok (), s')"
    "w' = world s'"
    by (auto simp: with_locals_def split: prod.splits)
  from add_in_netns_Ok [OF s'(1)] obtain s1 res where
    s1: "carries x args netns w0 (world s1)" "same_but_effective (add_mac e n0) (conf s1)"
      "DPDKMode (add_mac e n0) \<longrightarrow> conf s1 = add_mac e n0" "add_register x args res s1 = (Ok (), s')" by auto
  note load_w = LoadConf_world [OF files(2) load ids]
  have inv0: "cni_inv ?c w0" using load_w by blast
  have "keeps (\<lambda>w. cni_state w = cni_state w0) (EnableArpAndNdiscNotify (IfName args))"
    by (rule EnableArp_keeps_state [OF files(3)]) (use inv0 in \<open>simp add: cni_inv_def cni_state_def\<close>)
  moreover have ek: "env_keeps (\<lambda>w. cni_state w = v) x" for v using files(1) unfolding spares_files_def by blast
  ultimately have st1: "cni_state (world s1) = cni_state w0"
    using s1(1) env_keepsD(4) [OF ek ns] unfolding carries_def by blast
  have tl: "treeless reqs" and rk: "env_keeps (\<lambda>w. reqs w = v) x" for v using daemon by (simp_all add: daemon_log_def)
  have "reqs (world s1) = reqs w0"
    using s1(1) env_keepsD(4) [OF rk ns] rk treeless_keep_files(1) [OF tl] unfolding carries_def by blast
  also have "reqs w0 = reqs w" using load_w treelessD [OF tl] by metis
  finally have r1: "reqs (world s1) = reqs w" .
  have dev: "DeviceID (conf s1) = DeviceID n0"
    using s1(2) by (auto simp: same_but_effective_def add_mac_def Let_def split: option.splits)
  have inv1: "cni_inv ?c (world s1)" using cni_inv_state [OF st1] inv0 by simp
  have pk: "plain (DeviceID (conf s1))" using load_w dev by metis
  note reg = add_register_effect [OF files(1) daemon inv1 pk s1(4)]
  have "lock_holder lock_dir w0 = (lock_holder lock_dir w)(DeviceID n0 := None)"
    using LoadConf_Ok [OF load _ ids] files(2) by (simp add: cni_inv_def)
  moreover have "DPDKMode n0 \<longrightarrow> conf s1 = add_mac e n0" using s1(3) by (simp add: add_mac_def Let_def split: option.split)
  ultimately show ?thesis
    using load env s1(2) reg lock_holder_state [OF st1] by (intro exI [of _ n0]) (auto simp: s'(2) dev r1)
qed

text \<open>The run of a command after the logging part.\<close>

lemma cmdAdd_Ok:
  "cmdAdd x args (s, w) = (Ok (), (s', w')) \<longleftrightarrow>
     SetLogging (cni_log x) (Unmarshal x) (StdinData args) (ContainerID args) (Netns args) (IfName args) s = Inr s' \<and>
     add_main x args w = (Ok (), w')"
  by (auto simp: cmdAdd_def set_logging_def andthen_Ok zoom_Ok split: sum.splits)

text \<open>C14. A successful \<open>ADD\<close> has loaded a valid configuration for a virtual function that no live pod
  held, has cached that configuration (with the address \<open>SetupVF\<close> found) under the container and
  interface name, holds the lock on the function's PCI address for the pod's namespace and no other
  new lock, and the daemon has accepted exactly one request: the port is named by the physical function and
  the number, carries the effective address of the device, and the VLAN two above the number.\<close>

theorem add_success:
  assumes "spares_files x" "daemon_log x reqs" "cni_inv (cache_ref (ContainerID args) (IfName args)) w" "plain (IfName args)"
    and "\<And>n. then_dec (Unmarshal x (StdinData args)) NetConf_of_json = Inr n \<Longrightarrow> plain (DeviceID n)"
    and "cmdAdd x args (s, w) = (Ok (), (s', w'))"
  shows "\<exists>n mac. vlan_ok n \<and> 0 \<le> VFID n \<and> GetPciAddress (Master n) (VFID n) w = (Ok (DeviceID n), w) \<and>
    \<not> (\<exists>ns. lock_holder lock_dir w (DeviceID n) = Some ns \<and> ns_live (GetNS x) w ns) \<and>
    lock_holder lock_dir w' = (lock_holder lock_dir w)(DeviceID n \<mapsto> Netns args) \<and>
    lookup w' (cni_dir @ [cache_ref (ContainerID args) (IfName args)]) = Some (File (render_json x (json_of_NetConf n))) \<and>
    ParseMAC (EffectiveMAC (OrigVfState n)) = Inr mac \<and>
    reqs w' = reqs w @ [Created \<lparr>PortName = Master n @ Itoa (VFID n),
      Spec = Some \<lparr>Ptype = 1, MacAddress = mac, LogicalBridges = [Itoa (VFID n + 2)]\<rparr>, Status = None\<rparr>]"
proof -
  have run: "add_main x args w = (Ok (), w')" using assms(6) by (simp add: cmdAdd_Ok)
  from add_main_Ok [OF assms(1,3,4,5,2) run] obtain n0 e n mac w0 where
    a: "LoadConf (Unmarshal x) (GetNS x) (StdinData args) w = (Ok n0, w0)" "same_but_effective (add_mac e n0) n"
      "lookup w' (cni_dir @ [cache_ref (ContainerID args) (IfName args)]) = Some (File (render_json x (json_of_NetConf n)))"
      "lock_holder lock_dir w' = (lock_holder lock_dir w)(DeviceID n0 \<mapsto> Netns args)"
      "ParseMAC (EffectiveMAC (OrigVfState n)) = Inr mac" "reqs w' = reqs w @ [Created (create_request n mac)]" by blast
  have same: "DeviceID n = DeviceID n0" "VFID n = VFID n0" "Master n = Master n0"
    using a(2) by (auto simp: same_but_effective_def)
  have "Vlan n = Vlan n0" "VlanQoS n = VlanQoS n0" "VlanProto n = VlanProto n0" "LinkState n = LinkState n0"
    using a(2) by (auto simp: same_but_effective_def)
  then have v: "vlan_ok n = vlan_ok n0" by (simp only: vlan_ok_def)
  have "lock_inv lock_dir w" using assms(3) by (simp add: cni_inv_def)
  note l = LoadConf_Ok [OF a(1) this assms(5)]
  have g: "vlan_ok n \<and> 0 \<le> VFID n \<and> GetPciAddress (Master n) (VFID n) w = (Ok (DeviceID n), w) \<and>
    \<not> (\<exists>ns. lock_holder lock_dir w (DeviceID n) = Some ns \<and> ns_live (GetNS x) w ns)"
    unfolding same v using l by blast
  show ?thesis
    by (rule exI [of _ n], rule exI [of _ mac]) (use g a(3-6) in \<open>simp only: same create_request_def simp_thms\<close>)
qed

section \<open>Failures\<close>

text \<open>The first half of the cleanup: take the device back when it is in the pod.\<close>

definition take_back :: "('z os_scheme, 'r, 'x, 'y) cni_ext \<Rightarrow> CmdArgs \<Rightarrow> 'z os_scheme NetNS \<Rightarrow> NetConf \<Rightarrow> ('z os_scheme, unit) prog" where
  "take_back x args netns n =
     try_else (Do netns (andthen (call (LinkByName (cni_netlink x) (IfName args))) (\<lambda>_. ret ())))
       (\<lambda>_. ret ()) (\<lambda>_. ignore (ReleaseVF (sm x) n (IfName args) netns))"

lemma zoom_try_else:
  "zoom world world_update (try_else m h k) = try_else (on_w m) (\<lambda>e. on_w (h e)) (\<lambda>a. on_w (k a))"
  by (auto simp: zoom_def try_else_def fun_eq_iff split: prod.split res.split)

lemma zoom_ignore: "zoom world world_update (ignore m) = ignore (on_w m)"
  by (auto simp: ignore_def zoom_try_else) (auto simp: zoom_def ret_def)

lemma zoom_ret: "zoom world world_update (ret a) = ret a"
  by (auto simp: zoom_def ret_def)

lemma add_cleanup_none: "errv s = None \<Longrightarrow> add_cleanup x args netns s = (Ok (), s)"
  by (simp add: add_cleanup_def)

lemma add_cleanup_run:
  assumes "errv s = Some e"
  shows "add_cleanup x args netns s =
    andthen (on_w (take_back x args netns (conf s))) (\<lambda>_. ignore (on_w (ResetVFConfig (sm x) (conf s)))) s"
  using assms by (simp add: add_cleanup_def take_back_def zoom_try_else zoom_ignore zoom_ret)


text \<open>C27. An \<open>ADD\<close> for a function with a DPDK driver never succeeds, unless the configuration itself
  brings an effective address: in that mode nothing reads the address of the device, and the command
  goes on to parse the empty address, after it has cached the configuration and locked the function.\<close>

theorem add_dpdk_never_succeeds:
  assumes "LoadConf (Unmarshal x) (GetNS x) (StdinData args) w = (Ok n, w0)"
    and "DPDKMode n" "EffectiveMAC (OrigVfState n) = []"
  shows "\<not> is_Ok (fst (cmdAdd x args (s, w)))"
proof
  assume "is_Ok (fst (cmdAdd x args (s, w)))"
  then obtain s' w' where "cmdAdd x args (s, w) = (Ok (), (s', w'))" by (auto simp: is_Ok_iff) (metis prod.collapse)
  then have "add_main x args w = (Ok (), w')" by (simp add: cmdAdd_Ok)
  with assms(1) obtain e netns where "with_locals (add_mac e n) (add_in_netns x args netns) w0 = (Ok (), w')"
    unfolding add_main_def by (auto simp: ok_iffs simp del: try_else_ask)
  then obtain t where "add_in_netns x args netns \<lparr>conf = add_mac e n, errv = None, world = w0\<rparr> = (Ok (), t)"
    by (auto simp: with_locals_def split: prod.splits)
  from add_in_netns_Ok [OF this] assms(2) obtain t1 res where t1: "conf t1 = add_mac e n" "add_register x args res t1 = (Ok (), t)"
    by auto
  from add_register_Ok [OF t1(2)] obtain mac where "ParseMAC (EffectiveMAC (OrigVfState (conf t1))) = Inr mac" by blast
  with t1(1) assms(3) ParseMAC_empty show False by auto
qed

end
