(* ===== verification/CniDel.thy ===== *)
theory CniDel
  imports CniAdd
begin

text \<open>
  The \<open>DEL\<close> command and what links it to the \<open>ADD\<close> before it: the port it deletes is the one that was
  created, and the runs in which it gives up for good.
\<close>

section \<open>The integers of a loaded configuration\<close>

lemma then_dec_Inr: "then_dec r k = Inr b \<longleftrightarrow> (\<exists>a. r = Inr a \<and> k a = Inr b)"
  by (cases r) auto

lemma dec_range:
  "dec_int k obj = Inr i \<Longrightarrow> in_int64 i"
  "dec_int_ptr k obj = Inr p \<Longrightarrow> p = Some i \<Longrightarrow> in_int64 i"
  by (auto simp: dec_int_def dec_int_ptr_def in_int64_def split: option.splits json.splits if_splits)

lemma dec_VfState_ints:
  assumes "dec_VfState obj = Inr v"
  shows "in_int64 (vsVlan v)" "in_int64 (vsVlanQoS v)" "in_int64 (vsVlanProto v)" "in_int64 (vsMinTxRate v)" "in_int64 (vsMaxTxRate v)"
  using assms unfolding dec_VfState_def then_dec_Inr by (auto dest: dec_range(1))

lemma dec_NetConf_ints:
  assumes "dec_NetConf obj = Inr n"
  shows "ints_ok n"
proof -
  from assms obtain orig where d: "dec_VfState orig = Inr (OrigVfState n)" "dec_int ''VFID'' obj = Inr (VFID n)"
    "dec_int_ptr ''vlan'' obj = Inr (Vlan n)" "dec_int_ptr ''vlanQoS'' obj = Inr (VlanQoS n)"
    "dec_int_ptr ''min_tx_rate'' obj = Inr (MinTxRate n)" "dec_int_ptr ''max_tx_rate'' obj = Inr (MaxTxRate n)"
    unfolding dec_NetConf_def then_dec_Inr by auto
  then show ?thesis
    unfolding ints_ok_def using dec_VfState_ints [OF d(1)] dec_range(1) [OF d(2)]
      dec_range(2) [OF d(3)] dec_range(2) [OF d(4)] dec_range(2) [OF d(5)] dec_range(2) [OF d(6)] by auto
qed

lemma NetConf_of_json_ints: "NetConf_of_json j = Inr n \<Longrightarrow> ints_ok n"
  by (auto simp: NetConf_of_json_def split: json.splits dest: dec_NetConf_ints)

lemma GetVfid_range:
  assumes "GetVfid d pf w = (Ok v, w')"
  shows "in_int64 v"
proof -
  from assms obtain t w1 where t: "GetSriovNumVfs pf w = (Ok t, w1)"
    and l: "GetVfid_loop d pf (map int [0..<nat t]) w1 = (Ok v, w')"
    by (auto simp: GetVfid_def ok_iffs)
  have mem: "v \<in> set vs" if "GetVfid_loop d pf vs w1 = (Ok v, w')" for vs
    using that by (induction vs) (auto simp: Let_def run_read split: sum.splits if_splits)
  from mem [OF l] have "v \<in> int ` {0..<nat t}" by simp
  moreover have "in_int64 t" using t
    by (auto simp: GetSriovNumVfs_def Let_def ok_iffs dest: Atoi_range split: if_splits)
  ultimately show ?thesis by (auto simp: in_int64_def)
qed

lemma ints_ok_update [simp]:
  "ints_ok (n\<lparr>DPDKMode := m\<rparr>) = ints_ok n" "ints_ok (n\<lparr>Master := p\<rparr>) = ints_ok n"
  "ints_ok (n\<lparr>DpuDaemonAddress := a\<rparr>) = ints_ok n"
  "ints_ok (n\<lparr>OrigVfState := (OrigVfState n)\<lparr>HostIFName := h\<rparr>\<rparr>) = ints_ok n"
  "in_int64 v \<Longrightarrow> ints_ok n \<Longrightarrow> ints_ok (n\<lparr>VFID := v\<rparr>)"
  by (simp_all add: ints_ok_def)

lemma load_device_ints: "load_device n w = (Ok n', w') \<Longrightarrow> ints_ok n \<Longrightarrow> ints_ok n'"
  unfolding load_device_def Let_def by (auto simp: ok_iffs try_else_Ok split: if_splits)

lemma LoadConf_ints:
  assumes "LoadConf parse opn bytes w = (Ok n, w')"
  shows "ints_ok n"
proof -
  from assms obtain c where c: "then_dec (parse bytes) NetConf_of_json = Inr c" by (auto simp: LoadConf_def ok_iffs)
  then have "ints_ok c" by (auto simp: then_dec_Inr dest: NetConf_of_json_ints)
  then have c': "ints_ok (if DpuDaemonAddress c = [] then c\<lparr>DpuDaemonAddress := default_addr\<rparr> else c)"
    by (simp add: ints_ok_def)
  let ?c = "if DpuDaemonAddress c = [] then c\<lparr>DpuDaemonAddress := default_addr\<rparr> else c"
  from assms c obtain pf vf w1 w2 n1 where
    info: "config_getVfInfo (DeviceID c) w = (Ok (pf, vf), w1)" and
    device: "load_device (?c\<lparr>VFID := vf, Master := pf\<rparr>) w2 = (Ok n1, w')" and vlan: "load_vlan n1 = Inr n"
    unfolding LoadConf_def Let_def by (auto simp: ok_iffs split: if_splits prod.splits)
  have "in_int64 vf" using info by (auto simp: config_getVfInfo_def ok_iffs dest: GetVfid_range)
  then have n1: "ints_ok n1" using load_device_ints [OF device] c' by simp
  from load_vlan_Inr [OF vlan] have v: "vlan_ok n" and
    n: "n = n1\<lparr>Vlan := Vlan n, VlanQoS := VlanQoS n, VlanProto := VlanProto n\<rparr>" by simp_all
  from v obtain a b where ab: "Vlan n = Some a" "VlanQoS n = Some b" "0 \<le> a" "a \<le> 4094" "0 \<le> b" "b \<le> 7"
    unfolding vlan_ok_def by blast
  then have "in_int64 a" "in_int64 b" by (simp_all add: in_int64_def)
  with n1 ab show ?thesis by (subst n) (simp add: ints_ok_def)
qed

section \<open>The requests of a \<open>DEL\<close>\<close>

lemma sysfs_keeps_GetVfid: "keeps P (GetVfid d pf)"
proof -
  have "keeps P (GetVfid_loop d pf vs)" for vs
    by (induction vs) (auto simp: Let_def intro!: keeps_intros)
  then show ?thesis unfolding GetVfid_def by (intro keeps_intros)
qed

definition locals_at :: "('w \<Rightarrow> bool) \<Rightarrow> NetConf \<Rightarrow> 'w locals \<Rightarrow> bool" where
  "locals_at P n s \<longleftrightarrow> P (world s) \<and> conf s = n"

lemma locals_at_keeps [keeps_intros]:
  "keeps P m \<Longrightarrow> keeps (locals_at P n) (on_w m)"
  "keeps (locals_at P n) a \<Longrightarrow> (\<And>v. keeps (locals_at P n) (k v)) \<Longrightarrow> keeps (locals_at P n) (assign a f k)"
proof -
  show "keeps P m \<Longrightarrow> keeps (locals_at P n) (on_w m)"
    by (erule keeps_zoom) (auto simp: locals_at_def)
  assume k: "keeps (locals_at P n) a" "\<And>v. keeps (locals_at P n) (k v)"
  show "keeps (locals_at P n) (assign a f k)"
    unfolding assign_def by (intro keeps_intros k) (auto simp: locals_at_def)
qed

lemma del_register_Ok:
  assumes "del_register x s = (Ok (), s')"
  shows "\<exists>w1 conn w2 w3. DeleteAllocatedPCI (NewPCIAllocator DefaultCNIDir) (DeviceID (conf s)) (world s) = (Ok (), w1) \<and>
    Dial x (DpuDaemonAddress (conf s)) w1 = (Inr conn, w2) \<and>
    rpc_Delete x conn (Master (conf s) @ Itoa (VFID (conf s))) w2 = (Inr (), w3) \<and>
    s' = s\<lparr>errv := None, world := snd (ConnClose x conn w3)\<rparr>"
proof -
  from assms obtain w1 conn w2 w3 q where
    a: "DeleteAllocatedPCI (NewPCIAllocator DefaultCNIDir) (DeviceID (conf s)) (world s) = (Ok (), w1)"
    "Dial x (DpuDaemonAddress (conf s)) w1 = (Inr conn, w2)"
    "rpc_Delete x conn (Master (conf s) @ Itoa (VFID (conf s))) w2 = (Inr (), w3)"
    and close: "on_w (call (ConnClose x conn)) (s\<lparr>errv := None, world := w3\<rparr>) = (q, s')"
    unfolding del_register_def
    by (auto simp: andthen_Ok assign_Ok on_w_Ok try_else_Ok deferring_Ok call_Ok)
  have "s' = s\<lparr>errv := None, world := snd (ConnClose x conn w3)\<rparr>"
    using close by (cases "ConnClose x conn w3") (auto simp: zoom_def call_def split: sum.splits)
  with a show ?thesis by blast
qed

lemma del_register_requests:
  assumes log: "daemon_log x reqs" and run: "del_register x s = (Ok (), s')"
  shows "reqs (world s') = reqs (world s) @ [Deleted (Master (conf s) @ Itoa (VFID (conf s)))]"
proof -
  have tl: "treeless reqs" and rk: "env_keeps (\<lambda>w. reqs w = v) x" for v using log by (simp_all add: daemon_log_def)
  from del_register_Ok [OF run] obtain w1 conn w2 w3 where
    a: "DeleteAllocatedPCI (NewPCIAllocator DefaultCNIDir) (DeviceID (conf s)) (world s) = (Ok (), w1)"
      "Dial x (DpuDaemonAddress (conf s)) w1 = (Inr conn, w2)"
      "rpc_Delete x conn (Master (conf s) @ Itoa (VFID (conf s))) w2 = (Inr (), w3)"
    and s': "world s' = snd (ConnClose x conn w3)" by auto
  obtain q w4 where cl: "ConnClose x conn w3 = (q, w4)" by fastforce
  have "reqs w1 = reqs (world s)" by (rule keepsD [OF treeless_keep_files(3) [OF tl] refl a(1)])
  moreover have "reqs w2 = reqs w1" by (rule keeps_extD [OF env_keepsD(8) [OF rk] refl a(2)])
  moreover have "reqs w3 = reqs w2 @ [Deleted (Master (conf s) @ Itoa (VFID (conf s)))]"
    using log a(3) unfolding daemon_log_def by fastforce
  moreover have "reqs w4 = reqs w3" by (rule keeps_extD [OF env_keepsD(9) [OF rk] refl cl])
  ultimately show ?thesis by (simp add: s' cl)
qed

text \<open>The part of \<open>del_cached\<close> below its deferred function.\<close>

definition del_steps :: "('z os_scheme, 'r, 'x, 'y) cni_ext \<Rightarrow> CmdArgs \<Rightarrow> NetConf \<Rightarrow> ('z os_scheme locals, unit) prog" where
  "del_steps x args n =
     andthen (if IpamType n \<noteq> []
        then assign (on_w (call (ExecDel x (IpamType n) (StdinData args)))) (\<lambda>err. err) ret else ret ()) (\<lambda>_.
     if Netns args = [] then ret () else
     check (on_w (GetVfid (DeviceID n) (Master n))) (\<lambda>err. Errorf ''cmdDel() error obtaining VF ID: %q'' [E err]) (\<lambda>_.
     check (on_w (ResetVFConfig (sm x) n)) (\<lambda>err. Errorf ''cmdDel() error reseting VF: %q'' [E err]) (\<lambda>_.
     if \<not> DPDKMode n then
       try_else (on_w (ask (GetNS x (Netns args))))
         (\<lambda>err. if NSPathNotExistErr x err then ret ()
            else fail (Errorf ''failed to open netns %s: %q'' [NilErr, E err])) (\<lambda>netns.
       andthen (on_w (ReleaseVF (sm x) n (IfName args) netns)) (\<lambda>_. del_register x))
     else del_register x)))"

definition del_clean :: "string \<Rightarrow> ('z os_scheme locals, unit) prog" where
  "del_clean p = andthen (gets errv) (\<lambda>err. if err = None \<and> p \<noteq> [] then ignore (on_w (CleanCachedNetConf p)) else ret ())"

lemma del_cached_eq: "del_cached x args p = deferring (del_clean p) (andthen (gets conf) (del_steps x args))"
  unfolding del_cached_def del_steps_def [abs_def] del_clean_def ..

lemma on_w_read:
  assumes "keeps (\<lambda>u. u = world s) m" "on_w m s = (r, s')"
  shows "s' = s \<and> m (world s) = (r, world s)"
proof -
  obtain r1 w1 where run: "m (world s) = (r1, w1)" by fastforce
  have "w1 = world s" by (rule keepsD [OF assms(1) refl run])
  with run assms(2) show ?thesis by (simp add: zoom_def)
qed

text \<open>The part of a successful \<open>DEL\<close> that gives the function back and asks for the deletion.\<close>

lemma del_release_requests:
  assumes log: "daemon_log x reqs" and at: "locals_at (\<lambda>w. reqs w = v) n s"
    and run: "(if \<not> DPDKMode n then
       try_else (on_w (ask (GetNS x (Netns args))))
         (\<lambda>err. if NSPathNotExistErr x err then ret ()
            else fail (Errorf ''failed to open netns %s: %q'' [NilErr, E err])) (\<lambda>netns.
       andthen (on_w (ReleaseVF (sm x) n (IfName args) netns)) (\<lambda>_. del_register x))
       else del_register x) s = (Ok (), s')"
  shows "reqs (world s') = v \<and> isl (GetNS x (Netns args) (world s)) \<or>
    reqs (world s') = v @ [Deleted (Master n @ Itoa (VFID n))]"
proof -
  note k = env_keepsD [of "\<lambda>w. reqs w = v" x]
  have rk: "env_keeps (\<lambda>w. reqs w = v) x" using log by (simp add: daemon_log_def)
  have fin: "reqs (world s') = v @ [Deleted (Master n @ Itoa (VFID n))]"
    if "locals_at (\<lambda>w. reqs w = v) n t" "del_register x t = (Ok (), s')" for t
    using del_register_requests [OF log that(2)] that(1) by (simp add: locals_at_def)
  show ?thesis
  proof (cases "DPDKMode n")
    case True
    with run fin [OF at] show ?thesis by simp
  next
    case False
    show ?thesis
    proof (cases "GetNS x (Netns args) (world s)")
      case (Inl e)
      then have "s' = s" using run False by (auto simp: try_else_Ok on_w_Ok ask_def zoom_def split: if_splits)
      with at Inl show ?thesis by (simp add: locals_at_def)
    next
      case (Inr netns)
      with run False obtain s4 where s4: "on_w (ReleaseVF (sm x) n (IfName args) netns) s = (Ok (), s4)"
        "del_register x s4 = (Ok (), s')"
        by (auto simp: try_else_Ok andthen_Ok ask_def zoom_def)
      have "keeps (\<lambda>w. reqs w = v) (ReleaseVF (sm x) n (IfName args) netns)"
        by (rule manager_keep(3) [OF k(3) [OF rk] k(4) [OF rk Inr]])
      from keepsD [OF locals_at_keeps(1) [OF this] at s4(1)] have "locals_at (\<lambda>w. reqs w = v) n s4" .
      from fin [OF this s4(2)] show ?thesis by simp
    qed
  qed
qed

lemma del_steps_requests:
  assumes log: "daemon_log x reqs" and run: "del_steps x args n s = (Ok (), s')" and conf: "conf s = n"
  shows "reqs (world s') = reqs (world s) \<or> reqs (world s') = reqs (world s) @ [Deleted (Master n @ Itoa (VFID n))]"
    and "Netns args \<noteq> [] \<Longrightarrow> (\<And>w. \<not> isl (GetNS x (Netns args) w)) \<Longrightarrow>
      reqs (world s') = reqs (world s) @ [Deleted (Master n @ Itoa (VFID n))]"
proof -
  have rk: "env_keeps (\<lambda>w. reqs w = v) x" for v using log by (simp add: daemon_log_def)
  let ?P = "\<lambda>w. reqs w = reqs (world s)" and ?del = "[Deleted (Master n @ Itoa (VFID n))]"
  note k = env_keepsD [OF rk [of "reqs (world s)"]]
  have start: "locals_at ?P n s" by (simp add: locals_at_def conf)
  from run obtain s1 where
    ipam: "(if IpamType n \<noteq> [] then assign (on_w (call (ExecDel x (IpamType n) (StdinData args)))) (\<lambda>err. err) ret else ret ()) s = (Ok (), s1)"
    and rest: "Netns args = [] \<and> s' = s1 \<or> Netns args \<noteq> [] \<and> (\<exists>v s2 s3. on_w (GetVfid (DeviceID n) (Master n)) s1 = (Ok v, s2) \<and>
      on_w (ResetVFConfig (sm x) n) s2 = (Ok (), s3) \<and>
      (if \<not> DPDKMode n then
       try_else (on_w (ask (GetNS x (Netns args))))
         (\<lambda>err. if NSPathNotExistErr x err then ret ()
            else fail (Errorf ''failed to open netns %s: %q'' [NilErr, E err])) (\<lambda>netns.
       andthen (on_w (ReleaseVF (sm x) n (IfName args) netns)) (\<lambda>_. del_register x))
       else del_register x) s3 = (Ok (), s'))"
    unfolding del_steps_def andthen_Ok [of "if _ then _ else _"] by (auto simp: check_Ok split: if_splits)
  have "keeps (locals_at ?P n) (if IpamType n \<noteq> [] then assign (on_w (call (ExecDel x (IpamType n) (StdinData args)))) (\<lambda>err. err) ret else ret ())"
    by (intro keeps_intros k)
  from keepsD [OF this start ipam] have at1: "locals_at ?P n s1" .
  have "reqs (world s') = reqs (world s) \<and> (Netns args = [] \<or> (\<exists>w. isl (GetNS x (Netns args) w))) \<or>
      reqs (world s') = reqs (world s) @ ?del"
  proof (cases "Netns args = []")
    case True
    with rest at1 show ?thesis by (auto simp: locals_at_def)
  next
    case False
    with rest obtain v s2 s3 where steps: "on_w (GetVfid (DeviceID n) (Master n)) s1 = (Ok v, s2)"
      "on_w (ResetVFConfig (sm x) n) s2 = (Ok (), s3)"
      and release: "(if \<not> DPDKMode n then
       try_else (on_w (ask (GetNS x (Netns args))))
         (\<lambda>err. if NSPathNotExistErr x err then ret ()
            else fail (Errorf ''failed to open netns %s: %q'' [NilErr, E err])) (\<lambda>netns.
       andthen (on_w (ReleaseVF (sm x) n (IfName args) netns)) (\<lambda>_. del_register x))
       else del_register x) s3 = (Ok (), s')" by blast
    have "s2 = s1" using on_w_read [OF sysfs_keeps_GetVfid steps(1)] by simp
    have "locals_at ?P n s3"
      by (rule keepsD [OF locals_at_keeps(1) [OF manager_keep(2) [OF k(3)]] _ steps(2)]) (simp add: \<open>s2 = s1\<close> at1)
    from del_release_requests [OF log this release] show ?thesis by blast
  qed
  then show "reqs (world s') = reqs (world s) \<or> reqs (world s') = reqs (world s) @ ?del"
    and "Netns args \<noteq> [] \<Longrightarrow> (\<And>w. \<not> isl (GetNS x (Netns args) w)) \<Longrightarrow> reqs (world s') = reqs (world s) @ ?del" by auto
qed

section \<open>The port of the \<open>ADD\<close>\<close>

lemma load_cached:
  assumes "real_dir u cni_dir" "plain (cache_ref i n)"
    and "lookup u (cni_dir @ [cache_ref i n]) = Some (File (render (json_of_NetConf c)))"
    and "\<And>p. fault u ''open'' p = None" "parse (render (json_of_NetConf c)) = Inr (json_of_NetConf c)" "ints_ok c"
  shows "LoadConfFromCache parse i n u = (Ok (c\<lparr>DPDKMode := False\<rparr>, Join [DefaultCNIDir, cache_ref i n]), u)"
proof -
  have "os_ReadFile (abs_path (cni_dir @ [cache_ref i n])) u = (Inr (render (json_of_NetConf c)), u)"
    by (rule ReadFile_entry [OF assms(1,2,3,4)])
  then show ?thesis
    using netconf_roundtrip [OF assms(6)] assms(5) cache_path [OF assms(2)]
    by (simp add: LoadConfFromCache_def Let_def ok_iffs ReadScratchNetConf_def cache_ref_def)
qed

lemma cmdDel_run:
  assumes "SetLogging (cni_log x) (Unmarshal x) (StdinData args) (ContainerID args) (Netns args) (IfName args) s = Inr s'"
  shows "cmdDel x args (s, w) = (case del_main x args w of (r, w') \<Rightarrow> (r, (s', w')))"
  using assms by (simp add: cmdDel_def set_logging_def andthen_def try_else_def zoom_def split: prod.split)

lemma cmdDel_Ok:
  "cmdDel x args (s, w) = (Ok (), (s', w')) \<longleftrightarrow>
     SetLogging (cni_log x) (Unmarshal x) (StdinData args) (ContainerID args) (Netns args) (IfName args) s = Inr s' \<and>
     del_main x args w = (Ok (), w')"
  by (auto simp: cmdDel_def set_logging_def andthen_Ok zoom_Ok split: sum.splits)

lemma del_main_requests:
  assumes log: "daemon_log x reqs" and run: "del_main x args w = (Ok (), w')"
    and load: "LoadConfFromCache (Unmarshal x) (ContainerID args) (IfName args) w = (Ok (n, p), w)"
  shows "reqs w' = reqs w \<or> reqs w' = reqs w @ [Deleted (Master n @ Itoa (VFID n))]"
    and "Netns args \<noteq> [] \<Longrightarrow> (\<And>w. \<not> isl (GetNS x (Netns args) w)) \<Longrightarrow>
      reqs w' = reqs w @ [Deleted (Master n @ Itoa (VFID n))]"
proof -
  let ?s = "\<lparr>conf = n, errv = None, world = w\<rparr>"
  from run load obtain s' where "del_cached x args p ?s = (Ok (), s')" "w' = world s'"
    by (auto simp: del_main_def run_Ok with_locals_def split: prod.splits)
  then obtain s1 q where steps: "del_steps x args n ?s = (Ok (), s1)" and clean: "del_clean p s1 = (q, s')"
    by (auto simp: del_cached_eq deferring_Ok)
  have "treeless reqs" using log by (simp add: daemon_log_def)
  note k = treeless_keep_files(5) [OF this, of "reqs (world s1)" p]
  have "keeps (locals_at (\<lambda>w. reqs w = reqs (world s1)) (conf s1)) (del_clean p)"
    unfolding del_clean_def by (intro keeps_intros k)
  from keepsD [OF this _ clean] have "reqs w' = reqs (world s1)" by (simp add: locals_at_def \<open>w' = world s'\<close>)
  then show "reqs w' = reqs w \<or> reqs w' = reqs w @ [Deleted (Master n @ Itoa (VFID n))]"
    and "Netns args \<noteq> [] \<Longrightarrow> (\<And>w. \<not> isl (GetNS x (Netns args) w)) \<Longrightarrow>
      reqs w' = reqs w @ [Deleted (Master n @ Itoa (VFID n))]"
    using del_steps_requests [OF log steps] by simp_all
qed

lemma add_del_requests:
  assumes "spares_files x" "daemon_log x reqs" "cni_inv (cache_ref (ContainerID args) (IfName args)) w" "plain (IfName args)"
    and "\<And>n. then_dec (Unmarshal x (StdinData args)) NetConf_of_json = Inr n \<Longrightarrow> plain (DeviceID n)"
    and codec: "\<And>n. Unmarshal x (render_json x (json_of_NetConf n)) = Inr (json_of_NetConf n)"
    and add: "cmdAdd x args (s, w) = (Ok (), (s1, w1))"
    and between: "cni_state u = cni_state w1" "\<And>p. fault u ''open'' p = None"
    and same: "ContainerID args' = ContainerID args" "IfName args' = IfName args"
    and del: "cmdDel x args' (s2, u) = (Ok (), (s3, u'))"
  shows "\<exists>n mac. reqs w1 = reqs w @ [Created (create_request n mac)] \<and>
    (reqs u' = reqs u \<or> reqs u' = reqs u @ [Deleted (Master n @ Itoa (VFID n))]) \<and>
    (Netns args' \<noteq> [] \<and> (\<forall>v. \<not> isl (GetNS x (Netns args') v)) \<longrightarrow> reqs u' = reqs u @ [Deleted (Master n @ Itoa (VFID n))])"
proof -
  let ?c = "cache_ref (ContainerID args) (IfName args)"
  have "add_main x args w = (Ok (), w1)" using add by (simp add: cmdAdd_Ok)
  from add_main_Ok [OF assms(1,3,4,5,2) this] obtain n0 e n mac w0 where
    a: "LoadConf (Unmarshal x) (GetNS x) (StdinData args) w = (Ok n0, w0)" "same_but_effective (add_mac e n0) n"
      "lookup w1 (cni_dir @ [?c]) = Some (File (render_json x (json_of_NetConf n)))"
      "reqs w1 = reqs w @ [Created (create_request n mac)]" "cni_inv ?c w1" "real_dir w1 cni_dir" by blast
  have ints: "ints_ok n"
    using LoadConf_ints [OF a(1)] a(2)
    by (auto simp: same_but_effective_def ints_ok_def)
  have "plain ?c" using a(5) by (simp add: cni_inv_def cache_file_def)
  moreover have "real_dir u cni_dir" using real_dir_state [OF between(1)] a(6) by simp
  moreover have "lookup u (cni_dir @ [?c]) = Some (File (render_json x (json_of_NetConf n)))"
    using cni_state_lookup [OF between(1)] a(3) by simp
  ultimately have "LoadConfFromCache (Unmarshal x) (ContainerID args') (IfName args') u =
      (Ok (n\<lparr>DPDKMode := False\<rparr>, Join [DefaultCNIDir, ?c]), u)"
    using load_cached [where render = "render_json x" and parse = "Unmarshal x" and u = u and c = n
      and i = "ContainerID args" and n = "IfName args"] between(2) codec ints same by simp
  from del_main_requests [OF assms(2) _ this] del a(4) show ?thesis
    by (intro exI [of _ n] exI [of _ mac]) (auto simp: cmdDel_Ok)
qed

text \<open>C15. After a successful \<open>ADD\<close>, and as long as nobody touches the plugin's files, a successful \<open>DEL\<close> of the
  same container and interface asks the daemon to delete at most one port, the one the \<open>ADD\<close> had
  created; and it does ask when it is given a namespace that can be opened.\<close>

theorem add_then_del:
  assumes "spares_files x" "daemon_log x reqs" "cni_inv (cache_ref (ContainerID args) (IfName args)) w" "plain (IfName args)"
    and "\<And>n. then_dec (Unmarshal x (StdinData args)) NetConf_of_json = Inr n \<Longrightarrow> plain (DeviceID n)"
    and codec: "\<And>n. Unmarshal x (render_json x (json_of_NetConf n)) = Inr (json_of_NetConf n)"
    and add: "cmdAdd x args (s, w) = (Ok (), (s1, w1))"
    and between: "cni_state u = cni_state w1" "\<And>p. fault u ''open'' p = None"
    and same: "ContainerID args' = ContainerID args" "IfName args' = IfName args"
    and del: "cmdDel x args' (s2, u) = (Ok (), (s3, u'))"
  shows "\<exists>port. reqs w1 = reqs w @ [Created port] \<and>
    (reqs u' = reqs u \<or> reqs u' = reqs u @ [Deleted (PortName port)]) \<and>
    (Netns args' \<noteq> [] \<and> (\<forall>v. \<not> isl (GetNS x (Netns args') v)) \<longrightarrow> reqs u' = reqs u @ [Deleted (PortName port)])"
proof -
  obtain n mac where "reqs w1 = reqs w @ [Created (create_request n mac)]"
    "reqs u' = reqs u \<or> reqs u' = reqs u @ [Deleted (Master n @ Itoa (VFID n))]"
    "Netns args' \<noteq> [] \<and> (\<forall>v. \<not> isl (GetNS x (Netns args') v)) \<longrightarrow> reqs u' = reqs u @ [Deleted (Master n @ Itoa (VFID n))]"
    using add_del_requests [OF assms] by blast
  then show ?thesis by (intro exI [of _ "create_request n mac"]) (simp add: create_request_def)
qed

section \<open>A \<open>DEL\<close> that gives up\<close>

lemma total_GetVfid: "total (GetVfid d pf)"
proof -
  have "total (GetVfid_loop d pf vs)" for vs
    by (induction vs) (auto simp: Let_def intro!: total_intros)
  then show ?thesis unfolding GetVfid_def by (intro total_intros)
qed

lemma load_missing:
  assumes "real_dir u cni_dir" "plain (cache_ref i n)" "lookup u (cni_dir @ [cache_ref i n]) = None"
  shows "\<exists>e. LoadConfFromCache parse i n u = (Err e, u)"
proof -
  have "resolve Follow u (abs_path (cni_dir @ [cache_ref i n])) = Inl ENOENT"
    using resolve_entry [of u cni_dir "cache_ref i n" Follow] assms by simp
  then have "\<exists>e. fst (os_ReadFile (abs_path (cni_dir @ [cache_ref i n])) u) = Inl e"
    by (auto simp: os_ReadFile_def find_node_def split: option.split)
  then show ?thesis
    using cache_path [OF assms(2)]
    by (auto simp: LoadConfFromCache_def Let_def ReadScratchNetConf_def cache_ref_def check_def try_else_def os_calls fail_def)
qed

lemma del_steps_fail:
  assumes "MAC n \<noteq> []" "AdminMAC (OrigVfState n) = []" "IpamType n = []" "Netns args \<noteq> []"
  shows "\<exists>e w'. del_steps x args n s = (Err e, s\<lparr>world := w'\<rparr>) \<and>
    (\<forall>P. env_keeps P x \<and> P (world s) \<longrightarrow> P w')"
proof -
  obtain r w1 where v: "GetVfid (DeviceID n) (Master n) (world s) = (r, w1)" by fastforce
  then have w1: "w1 = world s" using sysfs_keeps_GetVfid [of "\<lambda>u. u = world s"] by (auto dest: keepsD)
  have "\<not> abnormal r" using total_GetVfid v by (rule totalD)
  then consider (err) e where "r = Err e" | (ok) i where "r = Ok i" by (cases r) auto
  then show ?thesis
  proof cases
    case err
    with v w1 have "on_w (GetVfid (DeviceID n) (Master n)) s = (Err e, s\<lparr>world := world s\<rparr>)" by (simp add: on_w_run)
    then have "del_steps x args n s = (Err (Errorf ''cmdDel() error obtaining VF ID: %q'' [E e]), s\<lparr>world := world s\<rparr>)"
      using assms by (simp add: del_steps_def run_Err)
    then show ?thesis by blast
  next
    case ok
    with v w1 have vf: "on_w (GetVfid (DeviceID n) (Master n)) s = (Ok i, s)" by (simp add: on_w_run)
    obtain e w2 where r: "ResetVFConfig (sm x) n (world s) = (Err e, w2)"
      using reset_unsaved_fails [OF assms(1,2), of "sm x" "world s"] by (metis prod.collapse)
    then have "on_w (ResetVFConfig (sm x) n) s = (Err e, s\<lparr>world := w2\<rparr>)" by (simp add: on_w_run)
    with vf have "del_steps x args n s = (Err (Errorf ''cmdDel() error reseting VF: %q'' [E e]), s\<lparr>world := w2\<rparr>)"
      using assms by (simp add: del_steps_def run_Ok run_Err)
    moreover have "P w2" if "env_keeps P x" "P (world s)" for P
      by (rule keepsD [OF manager_keep(2) [OF env_keepsD(3) [OF that(1)]] that(2) r])
    ultimately show ?thesis by blast
  qed
qed

text \<open>C26. \<open>DEL\<close> of a container whose cached configuration has an address but no saved administrative
  address (what \<open>ADD\<close> caches for every pod with a configured address) fails before it has released
  anything: the lock and the port at the daemon stay. The error is held in a variable of an inner
  scope, so the deferred function removes the cached configuration all the same, and every later
  \<open>DEL\<close> of the container reports success without doing anything.\<close>

theorem del_forgets:
  assumes "spares_files x" "daemon_log x reqs" "\<And>v. env_keeps (\<lambda>w. fault w = v) x"
    and "cni_inv (cache_ref (ContainerID args) (IfName args)) w" "real_dir w cni_dir" "\<And>p. fault w ''remove'' p = None"
    and "LoadConfFromCache (Unmarshal x) (ContainerID args) (IfName args) w = (Ok (n, p), w)"
    and "MAC n \<noteq> []" "AdminMAC (OrigVfState n) = []" "IpamType n = []" "Netns args \<noteq> []"
    and log: "\<And>s. \<exists>s'. SetLogging (cni_log x) (Unmarshal x) (StdinData args) (ContainerID args) (Netns args) (IfName args) s = Inr s'"
  shows "\<exists>e s' w'. cmdDel x args (s, w) = (Err e, (s', w')) \<and> reqs w' = reqs w \<and>
    lock_holder lock_dir w' = lock_holder lock_dir w \<and>
    (\<forall>t. \<exists>t'. cmdDel x args (t, w') = (Ok (), (t', w')))"
proof -
  let ?c = "cache_ref (ContainerID args) (IfName args)" and ?s = "\<lparr>conf = n, errv = None, world = w\<rparr>"
  have pc: "plain ?c" using assms(4) by (simp add: cni_inv_def cache_file_def)
  from del_steps_fail [OF assms(8-11), of x ?s] obtain e w1 where
    st: "del_steps x args n ?s = (Err e, ?s\<lparr>world := w1\<rparr>)" and
    k0: "\<forall>P. env_keeps P x \<and> P (world ?s) \<longrightarrow> P w1" by blast
  note k = k0 [simplified, rule_format, OF conjI]
  have cs: "cni_state w1 = cni_state w"
    using k [of "\<lambda>u. cni_state u = cni_state w"] assms(1) unfolding spares_files_def by blast
  have rq: "reqs w1 = reqs w" using k [of "\<lambda>u. reqs u = reqs w"] assms(2) unfolding daemon_log_def by blast
  have f: "fault w1 = fault w" using k [of "\<lambda>u. fault u = fault w"] assms(3) by blast
  have real: "real_dir w1 cni_dir" using real_dir_state [OF cs] assms(5) by simp
  have p: "p = Join [DefaultCNIDir, ?c]" "p \<noteq> []"
    using assms(7) cache_path [OF pc] by (auto simp: LoadConfFromCache_def Let_def ok_iffs cache_ref_def)
  have exists: "lookup w (cni_dir @ [?c]) \<noteq> None"
    using load_missing [OF assms(5) pc, where parse = "Unmarshal x"] assms(7) by auto
  then have ex1: "lookup w1 (cni_dir @ [?c]) \<noteq> None" using cni_state_lookup [OF cs] by simp
  have only: "\<exists>b. a = File b" if "lookup w1 (cni_dir @ [?c]) = Some a" for a
    using that cni_state_lookup [OF cs] assms(4) by (simp add: cni_inv_def cache_file_def)
  let ?w = "del (cni_dir @ [?c]) w1"
  have "CleanCachedNetConf p w1 = (Ok (), ?w)"
    using Remove_entry [OF real pc only] ex1 f assms(6) unfolding p(1) cache_path [OF pc]
    by (simp add: CleanCachedNetConf_def run_call)
  then have "del_clean p (?s\<lparr>world := w1\<rparr>) = (Ok (), ?s\<lparr>world := ?w\<rparr>)"
    using p(2) by (simp add: del_clean_def run_Ok on_w_run)
  from run_deferring [where d = "del_clean p" and m = "andthen (gets conf) (del_steps x args)", OF _ this] st
  have "del_cached x args p ?s = (Err e, ?s\<lparr>world := ?w\<rparr>)"
    unfolding del_cached_eq by (simp add: run_Ok)
  then have "del_main x args w = (Err e, ?w)"
    using assms(7) by (simp add: del_main_def run_Ok with_locals_def)
  with log [of s] obtain s' where first: "cmdDel x args (s, w) = (Err e, (s', ?w))" by (auto simp: cmdDel_run)
  have "real_dir ?w cni_dir" "lookup ?w (cni_dir @ [?c]) = None" using real by simp_all
  from load_missing [OF this(1) pc this(2)] obtain e2 where
    "LoadConfFromCache (Unmarshal x) (ContainerID args) (IfName args) ?w = (Err e2, ?w)" by blast
  then have "del_main x args ?w = (Ok (), ?w)" by (simp add: del_main_def run_Err)
  with log have second: "\<exists>t'. cmdDel x args (t, ?w) = (Ok (), (t', ?w))" for t by (metis cmdDel_run case_prod_conv)
  have "cni_dir \<noteq> lock_dir" by (simp add: lock_dir_def)
  then have "lock_holder lock_dir ?w = lock_holder lock_dir w"
    using lock_holder_state [OF cs] by (auto simp: lock_holder_def fun_eq_iff)
  moreover have "reqs ?w = reqs w" using rq assms(2) by (simp add: daemon_log_def treelessD)
  ultimately show ?thesis using first second by blast
qed

end
