(* ===== verification/Registry.thy ===== *)
theory Registry
  imports PluginExamples CniDel
begin

text \<open>
  The two programs together: the requests of the CNI plugin (\<open>sriov_cni\<close>) on the map of the bridge-port
  service (\<open>ipu-plugin\<close>). The contract of the service is a registry of ports; the service implements it
  for every log of accepted requests, whatever else happens in between.
\<close>

section \<open>The registry\<close>

fun reg_name :: "dpu_request \<Rightarrow> string" where
  "reg_name (Created bp) = PortName bp"
| "reg_name (Deleted n) = n"

text \<open>The specification: the first creation of a name counts, a deletion forgets it.\<close>

fun reg_step :: "(string \<rightharpoonup> BridgePort) \<Rightarrow> dpu_request \<Rightarrow> (string \<rightharpoonup> BridgePort)" where
  "reg_step R (Created bp) = (if R (PortName bp) \<noteq> None then R
     else R(PortName bp \<mapsto> bp\<lparr>Status := Some BP_OPER_STATUS_UP\<rparr>))"
| "reg_step R (Deleted n) = R(n := None)"

definition registry :: "(string \<rightharpoonup> BridgePort) \<Rightarrow> dpu_request list \<Rightarrow> (string \<rightharpoonup> BridgePort)" where
  "registry = foldl reg_step"

fun to_request :: "dpu_request \<Rightarrow> request" where
  "to_request (Created bp) = CreateReq (Some bp)"
| "to_request (Deleted n) = DeleteReq n"

text \<open>
  Runs of a service with the log of the requests it has accepted; steps that accept none of them
  come in between.
\<close>

inductive serves :: "('s \<Rightarrow> dpu_request \<Rightarrow> 's \<Rightarrow> bool) \<Rightarrow> ('s \<Rightarrow> 's \<Rightarrow> bool) \<Rightarrow> 's \<Rightarrow> dpu_request list \<Rightarrow> 's \<Rightarrow> bool"
  for accepts :: "'s \<Rightarrow> dpu_request \<Rightarrow> 's \<Rightarrow> bool" and passes :: "'s \<Rightarrow> 's \<Rightarrow> bool" and st :: 's where
  start: "serves accepts passes st [] st"
| accepted: "serves accepts passes st log st1 \<Longrightarrow> accepts st1 r st2 \<Longrightarrow> serves accepts passes st (log @ [r]) st2"
| passed: "serves accepts passes st log st1 \<Longrightarrow> passes st1 st2 \<Longrightarrow> serves accepts passes st log st2"

text \<open>A name's entry depends on the requests for that name alone.\<close>

lemma registry_local: "R k = R' k \<Longrightarrow> registry R log k = registry R' (filter (\<lambda>r. reg_name r = k) log) k"
proof (induction log arbitrary: R R')
  case (Cons r log)
  show ?case
  proof (cases "reg_name r = k")
    case True
    then have "reg_step R r k = reg_step R' r k" using Cons.prems by (cases r) auto
    with Cons.IH [of "reg_step R r" "reg_step R' r"] True show ?thesis by (simp add: registry_def)
  next
    case False
    then have "reg_step R r k = R' k" using Cons.prems by (cases r) auto
    with Cons.IH [of "reg_step R r" R'] False show ?thesis by (simp add: registry_def)
  qed
qed (simp add: registry_def)

text \<open>The contract the CNI plugin relies on, and what follows from it for every run.\<close>

locale port_service =
  fixes accepts :: "'s \<Rightarrow> dpu_request \<Rightarrow> 's \<Rightarrow> bool"
    and passes :: "'s \<Rightarrow> 's \<Rightarrow> bool"
    and ports :: "'s \<Rightarrow> (string \<rightharpoonup> BridgePort)"
  assumes accepts_step: "accepts st r st' \<Longrightarrow> ports st' = reg_step (ports st) r"
    and passes_step: "passes st st' \<Longrightarrow> ports st' = ports st"
begin

lemma run_registry: "serves accepts passes st log st' \<Longrightarrow> ports st' = registry (ports st) log"
  by (induction rule: serves.induct) (simp_all add: registry_def accepts_step passes_step)

lemma run_local:
  "serves accepts passes st log st' \<Longrightarrow> ports st' k = registry (ports st) (filter (\<lambda>r. reg_name r = k) log) k"
  using registry_local [of "ports st" k "ports st" log] by (simp add: run_registry)

lemma run_created:
  assumes "serves accepts passes st [Created p] st'" and "ports st (PortName p) = None"
  shows "ports st' = (ports st)(PortName p \<mapsto> p\<lparr>Status := Some BP_OPER_STATUS_UP\<rparr>)"
  using run_registry [OF assms(1)] assms(2) by (simp add: registry_def)

lemma run_deleted:
  assumes "serves accepts passes st [Deleted n] st'"
  shows "ports st' = (ports st)(n := None)"
  using run_registry [OF assms] by (simp add: registry_def)

end

section \<open>The service\<close>

definition accepts :: "'w netlink_fns \<Rightarrow> 'w server \<Rightarrow> 'w srv_state \<Rightarrow> dpu_request \<Rightarrow> 'w srv_state \<Rightarrow> bool" where
  "accepts nl s st r st' \<longleftrightarrow> (case handle nl s (to_request r) st of (q, st1) \<Rightarrow> is_Ok q \<and> st' = st1)"

text \<open>Requests the service refuses, requests that only ask, and changes of the world.\<close>

inductive passes :: "'w netlink_fns \<Rightarrow> 'w server \<Rightarrow> 'w srv_state \<Rightarrow> 'w srv_state \<Rightarrow> bool"
  for nl :: "'w netlink_fns" and s :: "'w server" and st :: "'w srv_state" where
  refused: "handle nl s req st = (Err e, st') \<Longrightarrow> passes nl s st st'"
| update: "handle nl s UpdateReq st = (r, st') \<Longrightarrow> passes nl s st st'"
| get: "handle nl s (GetReq n) st = (r, st') \<Longrightarrow> passes nl s st st'"
| listing: "handle nl s ListReq st = (r, st') \<Longrightarrow> passes nl s st st'"
| world: "passes nl s st (st\<lparr>env := w\<rparr>)"

inductive_cases passesE: "passes nl s st st'"

abbreviation served :: "'w netlink_fns \<Rightarrow> 'w server \<Rightarrow> 'w srv_state \<Rightarrow> dpu_request list \<Rightarrow> 'w srv_state \<Rightarrow> bool" where
  "served nl s \<equiv> serves (accepts nl s) (passes nl s)"

lemma served_one: "accepts nl s st r st' \<Longrightarrow> served nl s st [r] st'"
  using serves.accepted [OF serves.start, where r = r and accepts = "accepts nl s"] by simp

lemma accepted_step:
  assumes "handle nl s (to_request r) st = (Ok resp, st')"
  shows "Ports st' = reg_step (Ports st) r"
proof (cases r)
  case (Created bp)
  with assms obtain p where "CreateBridgePort nl s (Some bp) st = (Ok p, st')" by (auto simp: ok_iffs)
  then show ?thesis by (cases rule: create_cases) (auto simp: Created)
next
  case (Deleted n)
  with assms have "DeleteBridgePort nl s n st = (Ok (), st')" by (auto simp: ok_iffs)
  from delete_cases [OF this] show ?thesis by (auto simp: Deleted fun_eq_iff)
qed

lemma refused_step:
  assumes "handle nl s req st = (Err e, st')"
  shows "Ports st' = Ports st"
proof (cases req)
  case (CreateReq inp)
  with assms have "CreateBridgePort nl s inp st = (Err e, st')"
    by (auto simp: andthen_def try_else_def ret_def fail_def split: prod.splits res.splits)
  then show ?thesis by (cases rule: create_cases) auto
next
  case (DeleteReq n)
  with assms have "DeleteBridgePort nl s n st = (Err e, st')"
    by (auto simp: andthen_def try_else_def ret_def fail_def split: prod.splits res.splits)
  from delete_cases [OF this] show ?thesis by auto
qed (use assms in \<open>auto simp: UpdateBridgePort_def GetBridgePort_def ListBridgePorts_def\<close>)

interpretation bps: port_service "accepts nl s" "passes nl s" Ports
  for nl :: "'w netlink_fns" and s
proof unfold_locales
  show "Ports st' = reg_step (Ports st) r" if "accepts nl s st r st'" for st r st'
    using that accepted_step [of nl s r st] by (auto simp: accepts_def is_Ok_iff split: prod.splits)
  show "Ports st' = Ports st" if "passes nl s st st'" for st st'
    using that by (elim passesE) (auto simp: refused_step UpdateBridgePort_def GetBridgePort_def ListBridgePorts_def)
qed

text \<open>C7. The service refines the registry: after any run, with failed requests, queries and changes of the
  world in between, the port map is the registry of the requests that were accepted, in their order.\<close>

theorem service_refines_registry:
  assumes "served nl s st log st'"
  shows "Ports st' = foldl reg_step (Ports st) log"
  using bps.run_registry [OF assms] by (simp add: registry_def)

lemma service_refines_registry_witness:
  "\<exists>st'. served demo_nl demo_server demo_state [Created demo_port] st' \<and>
     Ports st' = [''pf0'' \<mapsto> demo_port\<lparr>Status := Some BP_OPER_STATUS_UP\<rparr>]"
proof -
  obtain st1 where "CreateBridgePort demo_nl demo_server (Some demo_port) demo_state =
      (Ok (demo_port\<lparr>Status := Some BP_OPER_STATUS_UP\<rparr>), st1)" using demo_create by blast
  then have "accepts demo_nl demo_server demo_state (Created demo_port) st1"
    by (simp add: accepts_def andthen_def try_else_def)
  then have "served demo_nl demo_server demo_state [Created demo_port] st1" by (rule served_one)
  with service_refines_registry [OF this] show ?thesis by (auto simp: demo_names)
qed

section \<open>The pods of a physical function\<close>

text \<open>What the CNI plugin asks for a pod: \<open>ADD\<close> with the address it has read, and \<open>DEL\<close>.\<close>

datatype pod_event = PodAdd NetConf "byte list" | PodDel NetConf

fun event_conf :: "pod_event \<Rightarrow> NetConf" where
  "event_conf (PodAdd n mac) = n"
| "event_conf (PodDel n) = n"

fun event_request :: "pod_event \<Rightarrow> dpu_request" where
  "event_request (PodAdd n mac) = Created (create_request n mac)"
| "event_request (PodDel n) = Deleted (Master n @ Itoa (VFID n))"

lemma event_request_name [simp]: "reg_name (event_request e) = Master (event_conf e) @ Itoa (VFID (event_conf e))"
  by (cases e) (simp_all add: create_request_def)

text \<open>When the request of an \<open>ADD\<close> is valid: the VLAN is the number of the function plus two.\<close>

lemma create_request_valid_iff:
  "(\<exists>spec vlan. valid_request (create_request n mac) spec vlan) \<longleftrightarrow>
     2 \<le> length mac \<and> length mac \<le> 6 \<and> mac ! 1 \<noteq> 0 \<and> 0 \<le> VFID n \<and> VFID n \<le> 4092"
proof -
  have minus: "split_sign (CHR ''-'' # ds) = (True, ds)" for ds by (simp add: split_sign_def)
  have "Atoi (Itoa i) = Inr v \<longleftrightarrow> in_int64 i \<and> v = i" for i v
    by (cases "in_int64 i") (auto simp: Atoi_Itoa, auto simp: Atoi_def Itoa_def minus parse_digits_digits Let_def split: if_splits)
  then show ?thesis
    by (auto simp: valid_request_def create_request_def in_int64_def)
qed

text \<open>C9. The pods of one physical function do not disturb each other: whatever the order in which their
  requests are accepted, the port of a virtual function is what the requests for that function alone
  make of it. The port names of two functions differ because their decimal numbers do.\<close>

theorem pods_independent:
  assumes "served nl s st (map event_request evs) st'" and "\<forall>e \<in> set evs. Master (event_conf e) = pf"
  shows "Ports st' (pf @ Itoa v) =
    foldl reg_step (Ports st) (map event_request (filter (\<lambda>e. VFID (event_conf e) = v) evs)) (pf @ Itoa v)"
proof -
  have "filter (\<lambda>r. reg_name r = pf @ Itoa v) (map event_request evs) =
      map event_request (filter (\<lambda>e. VFID (event_conf e) = v) evs)"
    using assms(2) by (induction evs) auto
  then show ?thesis
    using bps.run_local [OF assms(1), of "pf @ Itoa v"] by (simp add: registry_def)
qed

text \<open>On the plugin of the examples: function 0 is added, the unknown function 1 is deleted.\<close>

lemma pods_independent_witness:
  "\<exists>st'. served demo_nl demo_server demo_state
       (map event_request [PodAdd (zero_NetConf\<lparr>Master := ''pf'', VFID := 0\<rparr>) [0, 8], PodDel (zero_NetConf\<lparr>Master := ''pf'', VFID := 1\<rparr>)]) st' \<and>
     Ports st' (''pf'' @ Itoa 0) \<noteq> None \<and> Ports st' (''pf'' @ Itoa 1) = None"
proof -
  let ?a = "zero_NetConf\<lparr>Master := ''pf'', VFID := 0\<rparr>" and ?b = "zero_NetConf\<lparr>Master := ''pf'', VFID := 1\<rparr>"
  let ?evs = "[PodAdd ?a [0, 8], PodDel ?b]"
  have "\<exists>spec vlan. valid_request (create_request ?a [0, 8]) spec vlan" by (simp add: create_request_valid_iff)
  then obtain spec vlan where v: "valid_request (create_request ?a [0, 8]) spec vlan" by blast
  have "vlan_intf (''pf'' @ q) k \<noteq> ''br-tenant''" "vlan_intf (''pf'' @ q) k \<noteq> ''up0''" for q k
    by (simp_all add: vlan_intf_def)
  then obtain st1 where c: "CreateBridgePort demo_nl demo_server (Some (create_request ?a [0, 8])) demo_state =
      (Ok (create_request ?a [0, 8]\<lparr>Status := Some BP_OPER_STATUS_UP\<rparr>), st1)"
    "Ports st1 = [PortName (create_request ?a [0, 8]) \<mapsto> create_request ?a [0, 8]\<lparr>Status := Some BP_OPER_STATUS_UP\<rparr>]"
    using demo_create_valid [OF v] by (force simp: create_request_def)
  have "accepts demo_nl demo_server demo_state (event_request (PodAdd ?a [0, 8])) st1"
    by (simp add: accepts_def andthen_def try_else_def c)
  moreover have "DeleteBridgePort demo_nl demo_server (''pf'' @ Itoa 1) st1 = (Ok (), st1)"
    by (simp add: DeleteBridgePort_def c(2) create_request_def)
  then have "accepts demo_nl demo_server st1 (event_request (PodDel ?b)) st1"
    by (simp add: accepts_def andthen_def try_else_def)
  ultimately have run: "served demo_nl demo_server demo_state (map event_request ?evs) st1"
    using serves.accepted [OF served_one, of demo_nl demo_server demo_state] by fastforce
  have "Ports st1 (''pf'' @ Itoa v) = foldl reg_step (Ports demo_state)
      (map event_request (filter (\<lambda>e. VFID (event_conf e) = v) ?evs)) (''pf'' @ Itoa v)" for v
    by (rule pods_independent [OF run]) simp
  from run this [of 0] this [of 1] show ?thesis
    by (intro exI [of _ st1]) (simp add: demo_state_def create_request_def)
qed

text \<open>C16. The request of an \<open>ADD\<close> passes the checks of the service exactly when the number of the virtual
  function is from 0 to 4092 and the address has two to six bytes, the second not zero. Then the
  service goes on with the VLAN two above that number (unless it knows the port); otherwise it
  refuses the request and changes nothing.\<close>

theorem add_request_range:
  "if 2 \<le> length mac \<and> length mac \<le> 6 \<and> mac ! 1 \<noteq> 0 \<and> 0 \<le> VFID n \<and> VFID n \<le> 4092
   then CreateBridgePort nl s (Some (create_request n mac)) st =
     (case Ports st (Master n @ Itoa (VFID n)) of Some p \<Rightarrow> (Ok p, st)
      | None \<Rightarrow> create_body nl s (create_request n mac) (the (Spec (create_request n mac))) (VFID n + 2) st)
   else \<not> is_Ok (fst (CreateBridgePort nl s (Some (create_request n mac)) st)) \<and>
     snd (CreateBridgePort nl s (Some (create_request n mac)) st) = st"
proof (cases "\<exists>spec vlan. valid_request (create_request n mac) spec vlan")
  case True
  then obtain spec vlan where v: "valid_request (create_request n mac) spec vlan" by blast
  then have range: "0 \<le> VFID n" "VFID n \<le> 4092" using create_request_valid_iff by blast+
  from v have "spec = the (Spec (create_request n mac))" "Atoi (Itoa (VFID n + 2)) = Inr vlan"
    by (auto simp: valid_request_def create_request_def)
  then have "spec = the (Spec (create_request n mac))" "vlan = VFID n + 2"
    using range by (simp_all add: Atoi_Itoa in_int64_def)
  then have "CreateBridgePort nl s (Some (create_request n mac)) st =
     (case Ports st (PortName (create_request n mac)) of Some p \<Rightarrow> (Ok p, st)
      | None \<Rightarrow> create_body nl s (create_request n mac) (the (Spec (create_request n mac))) (VFID n + 2) st)"
    using create_valid [OF v, of nl s st] by (simp add: isBridgePortPresent_def split: option.split)
  moreover have "PortName (create_request n mac) = Master n @ Itoa (VFID n)" by (simp add: create_request_def)
  moreover note True [unfolded create_request_valid_iff]
  ultimately show ?thesis by (simp only: if_True simp_thms)
next
  case False
  from create_invalid [OF this, of nl s st] False show ?thesis
    unfolding create_request_valid_iff by auto
qed

text \<open>Two functions of different physical functions, \<open>ens1\<close> and \<open>ens11\<close>.\<close>

definition twelfth_of_ens1 :: "NetConf \<Rightarrow> NetConf" where
  "twelfth_of_ens1 n = n\<lparr>Master := ''ens1'', VFID := 12\<rparr>"

definition second_of_ens11 :: "NetConf \<Rightarrow> NetConf" where
  "second_of_ens11 n = n\<lparr>Master := ''ens11'', VFID := 2\<rparr>"

lemma colliding_name:
  "PortName (create_request (twelfth_of_ens1 n) mac) = PortName (create_request (second_of_ens11 m) mac')"
  by (simp add: create_request_def twelfth_of_ens1_def second_of_ens11_def) code_simp

text \<open>C17. Across physical functions the names are not unique: function 12 of \<open>ens1\<close> and function 2 of
  \<open>ens11\<close> share one. While the first has a port, an \<open>ADD\<close> of the second is answered with that port and
  changes nothing; and a \<open>DEL\<close> of the second that succeeds takes the first one's port away.\<close>

theorem port_names_collide:
  assumes "Ports st (PortName (create_request (twelfth_of_ens1 n) mac)) = Some p"
  shows "CreateBridgePort nl s (Some (create_request (second_of_ens11 m) [0, 8])) st = (Ok p, st) \<and>
    (case DeleteBridgePort nl s (PortName (create_request (second_of_ens11 m) [0, 8])) st of
       (Ok _, st') \<Rightarrow> Ports st' (PortName (create_request (twelfth_of_ens1 n) mac)) = None | _ \<Rightarrow> True)"
proof -
  note name = colliding_name [of n mac m "[0, 8]"]
  have "\<exists>spec vlan. valid_request (create_request (second_of_ens11 m) [0, 8]) spec vlan"
    by (simp add: create_request_valid_iff second_of_ens11_def)
  then obtain spec vlan where "valid_request (create_request (second_of_ens11 m) [0, 8]) spec vlan" by blast
  from create_valid [OF this, of nl s st] have "CreateBridgePort nl s (Some (create_request (second_of_ens11 m) [0, 8])) st = (Ok p, st)"
    using assms name by (simp add: isBridgePortPresent_def)
  moreover have "case DeleteBridgePort nl s (PortName (create_request (second_of_ens11 m) [0, 8])) st of
       (Ok _, st') \<Rightarrow> Ports st' (PortName (create_request (twelfth_of_ens1 n) mac)) = None | _ \<Rightarrow> True"
    using delete_cases [of nl s _ st] unfolding name by (fastforce split: prod.split res.split)
  ultimately show ?thesis by blast
qed

lemma port_names_collide_witness:
  "CreateBridgePort demo_nl demo_server (Some (create_request (second_of_ens11 zero_NetConf) [0, 8]))
     (demo_state\<lparr>Ports := [PortName (create_request (twelfth_of_ens1 zero_NetConf) [0, 9]) \<mapsto> demo_port]\<rparr>) =
   (Ok demo_port, demo_state\<lparr>Ports := [PortName (create_request (twelfth_of_ens1 zero_NetConf) [0, 9]) \<mapsto> demo_port]\<rparr>)"
  using port_names_collide [of "demo_state\<lparr>Ports := [PortName (create_request (twelfth_of_ens1 zero_NetConf) [0, 9]) \<mapsto> demo_port]\<rparr>"
      zero_NetConf "[0, 9]" demo_port demo_nl demo_server zero_NetConf] by simp

end
