(* ===== verification/ConcurrentPorts.thy ===== *)
theory ConcurrentPorts
  imports Threads Registry
begin

text \<open>
  The handlers of \<open>ipu-plugin/pkg/ipuplugin/bridgeport.go\<close> running at the same time. The server takes no
  lock: each access to \<open>s.Ports\<close> and each call of a collaborator is one step, so that the check
  whether a port is present and the write of the new port are separate steps. An access to the map is
  taken to be atomic, and so is a call of a collaborator, which works on the world and not on the map;
  the world may change in any way between two steps. The reads of the request, which no other handler
  sees, belong to the step before them.
\<close>

section \<open>The handlers, cut at their shared accesses\<close>

text \<open>A known port is returned by reading the map a second time, which gives nil (\<open>None\<close>) when the port
  has gone since.\<close>

definition create_thread :: "'w netlink_fns \<Rightarrow> 'w server \<Rightarrow> BridgePort option \<Rightarrow> ('w srv_state, BridgePort option) thread" where
  "create_thread nl s inp = (case inp of None \<Rightarrow> Finished (Panic nil_deref) | Some bp \<Rightarrow>
    (case Spec bp of None \<Rightarrow> Finished (Panic nil_deref) | Some spec \<Rightarrow>
     (let macAddrSize = length (MacAddress spec) in
      if macAddrSize < 1 \<or> macAddrSize > 6 then Finished (Err (Errorf ''invalid mac address provided'' []))
      else t_andthen (Finished (index (MacAddress spec) 1)) (\<lambda>octet.
       let vfVsi = int (unat octet) in
       if length (LogicalBridges spec) < 1 then Finished (Err (Errorf ''vlan id is not provided'' []))
       else t_andthen (Finished (getFirstVlanID (LogicalBridges spec))) (\<lambda>vlan.
        if vlan < 2 \<or> vlan > 4094 then
          Finished (Err (Errorf ''invalid vlan %d, vlan must be within 2-4094 range'' [I vlan]))
        else if vfVsi < 1 then
          Finished (Err (Errorf ''invalid VSI:%d in given mac address, the value in 2nd octed must be > 0'' [I vfVsi]))
        else t_andthen (atomic (gets Ports)) (\<lambda>ports.
         if isBridgePortPresent ports (PortName bp) then
           t_andthen (atomic (gets Ports)) (\<lambda>ports. Finished (Ok (ports (PortName bp))))
         else
           t_check (atomic (on_env (createAndSetUpVlan nl (uplinkInterface s) (PortName bp) (LogicalBridges spec))))
             (\<lambda>err. Errorf ''unable to create bridge port: %v'' [E err]) (\<lambda>vlanIntfName.
           t_check (atomic (on_env (AddPort (bridgeCtlr s) vlanIntfName)))
             (\<lambda>err. Errorf ''failed to add port to bridge: %v'' [E err]) (\<lambda>_.
           t_andthen (atomic (on_env (AddRules (p4RtClient s) (MacAddress spec) vlan))) (\<lambda>_.
           let resp = bp\<lparr>Status := Some BP_OPER_STATUS_UP\<rparr> in
           t_andthen (atomic (modify (Ports_update (\<lambda>m. m(PortName bp \<mapsto> resp))))) (\<lambda>_.
           Finished (Ok (Some resp))))))))))))"

definition delete_known :: "'w netlink_fns \<Rightarrow> 'w server \<Rightarrow> string \<Rightarrow> BridgePort \<Rightarrow> ('w srv_state, unit) thread" where
  "delete_known nl s name portInfo = (case Spec portInfo of None \<Rightarrow> Finished (Panic nil_deref) | Some spec \<Rightarrow>
      t_andthen (Finished (getFirstVlanID (LogicalBridges spec))) (\<lambda>vlan.
      let vlanIntfName = name @ ''_vlan'' @ Itoa vlan in
      t_check (atomic (on_env (DeletePort (bridgeCtlr s) vlanIntfName)))
        (\<lambda>err. Errorf ''failed to delete port from bridge: %v'' [E err]) (\<lambda>_.
      t_check (atomic (on_env (removeVlanInterface nl vlanIntfName)))
        (\<lambda>err. Errorf ''failed to remove interface from host: %v'' [E err]) (\<lambda>_.
      t_andthen (atomic (on_env (DeleteRules (p4RtClient s) (MacAddress spec) vlan))) (\<lambda>_.
      t_andthen (atomic (modify (Ports_update (\<lambda>m. m(name := None))))) (\<lambda>_.
      Finished (Ok ())))))))"

definition delete_thread :: "'w netlink_fns \<Rightarrow> 'w server \<Rightarrow> string \<Rightarrow> ('w srv_state, unit) thread" where
  "delete_thread nl s name = t_andthen (atomic (gets Ports)) (\<lambda>ports.
     case ports name of None \<Rightarrow> Finished (Ok ()) | Some portInfo \<Rightarrow> delete_known nl s name portInfo)"

text \<open>The reply to a request; a nil bridge port is \<open>None\<close>.\<close>

fun handler_thread :: "'w netlink_fns \<Rightarrow> 'w server \<Rightarrow> request \<Rightarrow> ('w srv_state, response option) thread" where
  "handler_thread nl s (CreateReq bp) = t_andthen (create_thread nl s bp) (\<lambda>p. Finished (Ok (map_option PortResp p)))"
| "handler_thread nl s (DeleteReq n) = t_andthen (delete_thread nl s n) (\<lambda>_. Finished (Ok (Some EmptyResp)))"
| "handler_thread nl s UpdateReq = Finished (Ok (Some (PortResp \<lparr>PortName = [], Spec = None, Status = None\<rparr>)))"
| "handler_thread nl s (GetReq n) = Finished (Ok (Some (PortResp \<lparr>PortName = n,
     Spec = Some \<lparr>Ptype = 0, MacAddress = [], LogicalBridges = []\<rparr>, Status = None\<rparr>)))"
| "handler_thread nl s ListReq = Finished (Ok (Some (ListResp [])))"

text \<open>The world may change in any way; the map belongs to the server.\<close>

definition world_moves :: "'w srv_state \<Rightarrow> 'w srv_state \<Rightarrow> bool" where
  "world_moves st st' \<longleftrightarrow> Ports st' = Ports st"

abbreviation any_time :: "('q, 's, 'a) config \<Rightarrow> 'q \<Rightarrow> bool" where
  "any_time \<equiv> \<lambda>c q. True"

section \<open>A handler alone is the sequential handler\<close>

text \<open>The part of \<open>create_thread\<close> after its checks.\<close>

definition create_body_thread :: "'w netlink_fns \<Rightarrow> 'w server \<Rightarrow> BridgePort \<Rightarrow> BridgePortSpec \<Rightarrow> int \<Rightarrow>
    ('w srv_state, BridgePort option) thread" where
  "create_body_thread nl s bp spec vlan =
     t_check (atomic (on_env (createAndSetUpVlan nl (uplinkInterface s) (PortName bp) (LogicalBridges spec))))
       (\<lambda>err. Errorf ''unable to create bridge port: %v'' [E err]) (\<lambda>vlanIntfName.
     t_check (atomic (on_env (AddPort (bridgeCtlr s) vlanIntfName)))
       (\<lambda>err. Errorf ''failed to add port to bridge: %v'' [E err]) (\<lambda>_.
     t_andthen (atomic (on_env (AddRules (p4RtClient s) (MacAddress spec) vlan))) (\<lambda>_.
     let resp = bp\<lparr>Status := Some BP_OPER_STATUS_UP\<rparr> in
     t_andthen (atomic (modify (Ports_update (\<lambda>m. m(PortName bp \<mapsto> resp))))) (\<lambda>_.
     Finished (Ok (Some resp))))))"

lemma create_thread_valid:
  assumes "valid_request bp spec vlan"
  shows "create_thread nl s (Some bp) = t_andthen (atomic (gets Ports)) (\<lambda>ports.
    if isBridgePortPresent ports (PortName bp)
    then t_andthen (atomic (gets Ports)) (\<lambda>ports. Finished (Ok (ports (PortName bp))))
    else create_body_thread nl s bp spec vlan)"
proof -
  from assms have facts: "Spec bp = Some spec" "2 \<le> length (MacAddress spec)" "length (MacAddress spec) \<le> 6"
    "MacAddress spec ! 1 \<noteq> 0" "LogicalBridges spec \<noteq> []" "getFirstVlanID (LogicalBridges spec) = Ok vlan"
    "2 \<le> vlan" "vlan \<le> 4094"
    by (auto simp: valid_request_def getFirstVlanID_valid)
  then show ?thesis
    using index_1 [OF facts(2)] octet_pos [OF facts(4)]
    by (auto simp: create_thread_def create_body_thread_def Let_def cong: if_cong)
qed

text \<open>A request that is refused is refused before the first access.\<close>

lemma create_thread_invalid:
  assumes "\<nexists>spec vlan. valid_request bp spec vlan"
  shows "\<exists>r. create_thread nl s (Some bp) = Finished r \<and> \<not> is_Ok r \<and>
    (\<forall>st. run_thread (Finished r) st = andthen (CreateBridgePort nl s (Some bp)) (\<lambda>p. ret (Some p)) st) \<and>
    (abnormal r \<longleftrightarrow> Spec bp = None \<or> (\<exists>spec. Spec bp = Some spec \<and> length (MacAddress spec) = 1))"
proof (cases "Spec bp")
  case None
  then show ?thesis by (simp add: create_thread_def CreateBridgePort_def run_finished)
next
  case (Some spec)
  show ?thesis
  proof (cases "2 \<le> length (MacAddress spec) \<and> length (MacAddress spec) \<le> 6")
    case False
    then have "MacAddress spec = [] \<or> length (MacAddress spec) = 1 \<or> 6 < length (MacAddress spec)"
      by (cases "MacAddress spec" rule: remdups_adj.cases) auto
    with Some show ?thesis
      by (auto simp: create_thread_def CreateBridgePort_def Let_def index_def run_finished)
  next
    case True
    then have i: "index (MacAddress spec) 1 = Ok (MacAddress spec ! 1)" by (simp add: index_1)
    show ?thesis
    proof (cases "LogicalBridges spec = []")
      case True
      with Some i \<open>2 \<le> _ \<and> _\<close> show ?thesis by (auto simp: create_thread_def CreateBridgePort_def Let_def run_finished)
    next
      case False
      then obtain v where v: "getFirstVlanID (LogicalBridges spec) = Ok v"
        and z: "Atoi (hd (LogicalBridges spec)) = Inr v \<or> v = 0"
        by (cases "Atoi (hd (LogicalBridges spec))") (auto simp: getFirstVlanID_def index_0)
      have "v < 2 \<or> v > 4094 \<or> MacAddress spec ! 1 = 0"
        using assms Some True False z by (fastforce simp: valid_request_def)
      with Some i v True False show ?thesis
        by (auto simp: create_thread_def CreateBridgePort_def Let_def run_finished)
    qed
  qed
qed

lemma create_body_alone:
  "run_thread (create_body_thread nl s bp spec vlan) st = andthen (create_body nl s bp spec vlan) (\<lambda>p. ret (Some p)) st"
  by (simp add: create_body_thread_def create_body_def alone Let_def run_unfold split: prod.split res.split)

lemma create_alone:
  "run_thread (create_thread nl s inp) st = andthen (CreateBridgePort nl s inp) (\<lambda>p. ret (Some p)) st"
proof (cases inp)
  case None
  then show ?thesis by (simp add: create_thread_def CreateBridgePort_def alone)
next
  case (Some bp)
  show ?thesis
  proof (cases "\<exists>spec vlan. valid_request bp spec vlan")
    case True
    then obtain spec vlan where v: "valid_request bp spec vlan" by blast
    have seq: "andthen (CreateBridgePort nl s (Some bp)) (\<lambda>p. ret (Some p)) st =
       (if isBridgePortPresent (Ports st) (PortName bp) then (Ok (Ports st (PortName bp)), st)
        else andthen (create_body nl s bp spec vlan) (\<lambda>p. ret (Some p)) st)"
      using create_valid [OF v, of nl s st]
      by (auto simp: andthen_def try_else_def isBridgePortPresent_def)
    show ?thesis unfolding Some seq
      by (simp add: create_thread_valid [OF v] run_t_andthen run_atomic run_finished create_body_alone)
  next
    case False
    with create_thread_invalid [OF False, of nl s] Some show ?thesis by metis
  qed
qed

lemma delete_alone: "run_thread (delete_thread nl s name) st = DeleteBridgePort nl s name st"
proof (cases "Ports st name")
  case (Some p)
  then show ?thesis
    by (cases "Spec p"; cases "getFirstVlanID (LogicalBridges (the (Spec p)))")
       (simp_all add: delete_thread_def delete_known_def DeleteBridgePort_def alone Let_def run_unfold ret_def modify_def split: prod.split res.split)
qed (simp add: delete_thread_def DeleteBridgePort_def alone)


section \<open>Any interleaving\<close>

lemma unfinished_first [simp]:
  "unfinished (t_check (atomic m) f k)" "unfinished (t_andthen (atomic m) k)"
  unfolding t_chain by (simp_all add: atomic_def)

text \<open>A call of a collaborator in a thread whose rely and guarantee are about the map.\<close>

lemma meets_on_env:
  assumes "\<And>st w. J st \<Longrightarrow> G st (st\<lparr>env := w\<rparr>)"
    and "\<And>st r w. J st \<Longrightarrow> \<not> is_Ok r \<Longrightarrow> abnormal r \<longrightarrow> \<not> total m \<Longrightarrow> C st r (st\<lparr>env := w\<rparr>)"
    and "\<And>a. unfinished (k a)" and "\<And>a. meets J G C (k a)"
  shows "meets J G C (t_check (atomic (on_env m)) f k)" "meets J G C (t_andthen (atomic (on_env m)) k)"
proof -
  have ends: "ends G C st (k a) (st\<lparr>env := w\<rparr>)" if "J st" for st a w
    using assms(1) [OF that] assms(3) [of a] by (cases "k a") auto
  have "\<not> total m" if "m w = (Panic p, w')" for w p w' using that totalD by fastforce
  moreover have "\<not> total m" if "m w = (Exit p, w')" for w p w' using that totalD by fastforce
  ultimately show "meets J G C (t_check (atomic (on_env m)) f k)" "meets J G C (t_andthen (atomic (on_env m)) k)"
    unfolding t_chain
    by (auto intro!: meets_first wpI ends assms(2,4) simp: zoom_def split: prod.splits res.splits dest: totalD)
qed

lemma meets_read:
  assumes "\<And>st. J st \<Longrightarrow> ends G C st (k (Ports st)) st \<and> meets J G C (k (Ports st))"
  shows "meets J G C (t_andthen (atomic (gets Ports)) k)"
  unfolding t_chain by (rule meets_first) (use assms in \<open>simp add: wp_gets\<close>)

lemma meets_write:
  assumes "\<And>st. J st \<Longrightarrow> C st (Ok a) (g st)"
  shows "meets J G C (t_andthen (atomic (modify g)) (\<lambda>_. Finished (Ok a)))"
  unfolding t_chain by (rule meets_first) (use assms in \<open>simp add: wp_modify\<close>)

text \<open>
  The two handlers meet a contract when it allows the steps that leave the map alone, the failures,
  and the answers at the last step. \<open>T\<close> says that the collaborators never panic.
\<close>

lemma meets_create:
  assumes v: "valid_request bp spec vlan"
    and stay: "\<And>st. J st \<Longrightarrow> G st st" "\<And>st w. J st \<Longrightarrow> G st (st\<lparr>env := w\<rparr>)"
    and fails: "\<And>st r w. J st \<Longrightarrow> \<not> is_Ok r \<Longrightarrow> abnormal r \<longrightarrow> \<not> T \<Longrightarrow> C st r (st\<lparr>env := w\<rparr>)"
    and known: "\<And>st st'. J st \<Longrightarrow> J st' \<Longrightarrow> Ports st (PortName bp) \<noteq> None \<Longrightarrow>
       C st' (Ok (map_option PortResp (Ports st' (PortName bp)))) st'"
    and commit: "\<And>st st'. J st \<Longrightarrow> J st' \<Longrightarrow> Ports st (PortName bp) = None \<Longrightarrow>
       C st' (Ok (Some (PortResp (bp\<lparr>Status := Some BP_OPER_STATUS_UP\<rparr>))))
         (Ports_update (\<lambda>m. m(PortName bp \<mapsto> bp\<lparr>Status := Some BP_OPER_STATUS_UP\<rparr>)) st')"
    and T: "T \<Longrightarrow> total (createAndSetUpVlan nl (uplinkInterface s) (PortName bp) (LogicalBridges spec))"
      "\<And>i. T \<Longrightarrow> total (AddPort (bridgeCtlr s) i)" "T \<Longrightarrow> total (AddRules (p4RtClient s) (MacAddress spec) vlan)"
  shows "meets J G C (handler_thread nl s (CreateReq (Some bp)))"
proof -
  let ?body = "t_andthen (create_body_thread nl s bp spec vlan) (\<lambda>p. Finished (Ok (map_option PortResp p)))"
  let ?k = "\<lambda>ports. t_andthen (if isBridgePortPresent ports (PortName bp)
      then t_andthen (atomic (gets Ports)) (\<lambda>ports. Finished (Ok (ports (PortName bp))))
      else create_body_thread nl s bp spec vlan) (\<lambda>p. Finished (Ok (map_option PortResp p)))"
  have fail: "C st r (st\<lparr>env := w\<rparr>)"
    if "J st" "\<not> is_Ok r" "abnormal r \<longrightarrow> \<not> total m" "T \<Longrightarrow> total m" for st r w and m :: "('a, 'b) prog"
    using fails that by blast
  have body: "meets J G C ?body" if "J st" "Ports st (PortName bp) = None" for st
    unfolding create_body_thread_def Let_def t_andthen_assoc t_known option.map
    by (intro meets_on_env meets_write stay fail) (auto simp: commit [OF that(1) _ that(2)] intro: T)
  have ends: "ends G C st t st" if "unfinished t" "J st" for st and t :: "('a srv_state, response option) thread"
    using that stay(1) by (cases t) auto
  have u: "unfinished (?k ports)" for ports
    by (simp add: create_body_thread_def Let_def t_andthen_assoc)
  have "meets J G C (?k (Ports st))" if "J st" for st
  proof (cases "Ports st (PortName bp)")
    case None
    then show ?thesis using body [OF that] by (simp add: isBridgePortPresent_def)
  next
    case (Some p)
    then have "meets J G C (t_andthen (atomic (gets Ports)) (\<lambda>ports. Finished (Ok (map_option PortResp (ports (PortName bp))))))"
      by (intro meets_read) (use known [OF that] in simp)
    then show ?thesis using Some by (simp add: isBridgePortPresent_def t_andthen_assoc)
  qed
  then show ?thesis
    unfolding handler_thread.simps create_thread_valid [OF v] t_andthen_assoc
    by (intro meets_read) (use ends u in blast)
qed

lemma meets_refused:
  "\<nexists>spec vlan. valid_request bp spec vlan \<Longrightarrow> meets J G C (handler_thread nl s (CreateReq (Some bp)))"
proof -
  assume "\<nexists>spec vlan. valid_request bp spec vlan"
  from create_thread_invalid [OF this] obtain r where "create_thread nl s (Some bp) = Finished r" "\<not> is_Ok r" by blast
  then show ?thesis by (cases r) simp_all
qed

lemma meets_delete:
  assumes stay: "\<And>st. J st \<Longrightarrow> G st st" "\<And>st w. J st \<Longrightarrow> G st (st\<lparr>env := w\<rparr>)"
    and fails: "\<And>st r w. J st \<Longrightarrow> \<not> is_Ok r \<Longrightarrow> abnormal r \<longrightarrow> \<not> T \<Longrightarrow> C st r (st\<lparr>env := w\<rparr>)"
    and unknown: "\<And>st. J st \<Longrightarrow> Ports st n = None \<Longrightarrow> C st (Ok (Some EmptyResp)) st"
    and commit: "\<And>st. J st \<Longrightarrow> C st (Ok (Some EmptyResp)) (Ports_update (\<lambda>m. m(n := None)) st)"
    and T: "\<And>st p. T \<Longrightarrow> J st \<Longrightarrow> Ports st n = Some p \<Longrightarrow> \<exists>spec vlan. valid_request p spec vlan"
      "\<And>i. T \<Longrightarrow> total (DeletePort (bridgeCtlr s) i)" "\<And>i. T \<Longrightarrow> total (removeVlanInterface nl i)"
      "\<And>mac vlan. T \<Longrightarrow> mac_usable mac \<Longrightarrow> total (DeleteRules (p4RtClient s) mac vlan)"
  shows "meets J G C (handler_thread nl s (DeleteReq n))"
proof -
  have fail: "C st r (st\<lparr>env := w\<rparr>)"
    if "J st" "\<not> is_Ok r" "abnormal r \<longrightarrow> \<not> total m" "T \<Longrightarrow> total m" for st r w and m :: "('a, unit) prog"
    using fails that by blast
  have quit: "C st r st" if "J st" "\<not> is_Ok r" "abnormal r \<longrightarrow> \<not> T" for st r
    using fails [OF that, of "env st"] by simp
  let ?k = "\<lambda>ports. t_andthen (case ports n of None \<Rightarrow> Finished (Ok ()) | Some p \<Rightarrow> delete_known nl s n p) (\<lambda>_. Finished (Ok (Some EmptyResp)))"
  have "ends G C st (?k (Ports st)) st \<and> meets J G C (?k (Ports st))" if J: "J st" for st
  proof (cases "Ports st n")
    case None
    then show ?thesis using unknown J by simp
  next
    case (Some p)
    show ?thesis
    proof (cases "\<exists>spec vlan. Spec p = Some spec \<and> getFirstVlanID (LogicalBridges spec) = Ok vlan")
      case True
      then obtain spec vlan where sp: "Spec p = Some spec" "getFirstVlanID (LogicalBridges spec) = Ok vlan" by blast
      have tot: "T \<Longrightarrow> total (DeleteRules (p4RtClient s) (MacAddress spec) vlan)"
        using T(1) [OF _ J Some] sp(1) by (intro T(4)) (auto simp: valid_request_def mac_usable_def)
      have "meets J G C (t_andthen (delete_known nl s n p) (\<lambda>_. Finished (Ok (Some EmptyResp))))"
        unfolding delete_known_def sp option.case t_known Let_def t_andthen_assoc
        by (intro meets_on_env meets_write stay fail) (auto simp: commit intro: T(2,3) tot)
      moreover have "unfinished (t_andthen (delete_known nl s n p) (\<lambda>_. Finished (Ok (Some EmptyResp))))"
        by (simp add: delete_known_def sp Let_def t_andthen_assoc)
      ultimately show ?thesis using Some stay(1) [OF J]
        by (cases "t_andthen (delete_known nl s n p) (\<lambda>_. Finished (Ok (Some EmptyResp :: response option)))") auto
    next
      case False
      then have "\<not> T" using T(1) [OF _ J Some] by (auto simp: valid_request_def getFirstVlanID_valid)
      with False Some show ?thesis using quit [OF J]
        by (cases "Spec p"; cases "getFirstVlanID (LogicalBridges (the (Spec p)))") (simp_all add: delete_known_def)
    qed
  qed
  then show ?thesis
    unfolding handler_thread.simps delete_thread_def t_andthen_assoc by (intro meets_read)
qed

text \<open>What a handler may answer, and when it may bring the process down.\<close>

fun bad_create :: "request \<Rightarrow> bool" where
  "bad_create (CreateReq inp) \<longleftrightarrow> (case inp of None \<Rightarrow> True | Some bp \<Rightarrow>
     (case Spec bp of None \<Rightarrow> True | Some spec \<Rightarrow> length (MacAddress spec) = 1))"
| "bad_create _ \<longleftrightarrow> False"

fun answer_ok :: "request \<Rightarrow> response option res \<Rightarrow> bool" where
  "answer_ok (CreateReq inp) (Ok (Some resp)) \<longleftrightarrow>
     (\<exists>bp p. inp = Some bp \<and> resp = PortResp p \<and> port_ok (PortName bp) p)"
| "answer_ok req (Ok None) \<longleftrightarrow> (\<exists>inp. req = CreateReq inp)"
| "answer_ok req r \<longleftrightarrow> (abnormal r \<longrightarrow> bad_create req)"

lemma answer_ok_not_Ok: "\<not> is_Ok r \<Longrightarrow> answer_ok req r \<longleftrightarrow> (abnormal r \<longrightarrow> bad_create req)"
  by (cases "(req, r)" rule: answer_ok.cases) auto

lemma answer_ok_known:
  "ports_wf ports \<Longrightarrow> answer_ok (CreateReq (Some bp)) (Ok (map_option PortResp (ports (PortName bp))))"
  by (cases "ports (PortName bp)") (auto simp: ports_wf_def)

lemma handler_at_once:
  assumes "handler_thread nl s req = Finished r"
  shows "answer_ok req r"
proof (cases req)
  case (CreateReq inp)
  show ?thesis
  proof (cases inp)
    case None
    then show ?thesis using assms CreateReq by (auto simp: create_thread_def)
  next
    case (Some bp)
    show ?thesis
    proof (cases "\<exists>spec vlan. valid_request bp spec vlan")
      case True
      then obtain spec vlan where "valid_request bp spec vlan" by blast
      then have "unfinished (handler_thread nl s req)"
        by (simp add: CreateReq Some create_thread_valid t_andthen_assoc)
      then show ?thesis using assms by simp
    next
      case False
      from create_thread_invalid [OF False, of nl s] obtain q where q: "create_thread nl s (Some bp) = Finished q"
        "\<not> is_Ok q" "abnormal q \<longrightarrow> bad_create req"
        by (auto simp: CreateReq Some)
      with assms show ?thesis by (cases q) (auto simp: CreateReq Some)
    qed
  qed
next
  case (DeleteReq n)
  have "unfinished (handler_thread nl s req)" by (simp add: DeleteReq delete_thread_def t_andthen_assoc)
  then show ?thesis using assms by simp
qed (use assms in auto)

sublocale port_server \<subseteq> safe: safe_threads "handler_thread nl s" world_moves "\<lambda>st. ports_wf (Ports st)" answer_ok
proof
  show "ports_wf (Ports st')" if "world_moves st st'" "ports_wf (Ports st)" for st st' :: "'a srv_state"
    using that by (simp add: world_moves_def)
  show "answer_ok req r" if "handler_thread nl s req = Finished r" for req r by (rule handler_at_once [OF that])
  show "meets (\<lambda>st. ports_wf (Ports st)) (\<lambda>_ st. ports_wf (Ports st)) (\<lambda>_ r st. answer_ok req r \<and> ports_wf (Ports st))
      (handler_thread nl s req)" for req
  proof (cases req)
    case (CreateReq inp)
    show ?thesis
    proof (cases "\<exists>bp spec vlan. inp = Some bp \<and> valid_request bp spec vlan")
      case True
      then obtain bp spec vlan where inp: "inp = Some bp" and v: "valid_request bp spec vlan" by blast
      then have bs: "LogicalBridges spec \<noteq> []" "mac_usable (MacAddress spec)"
        by (auto simp: valid_request_def mac_usable_def)
      show ?thesis unfolding CreateReq inp
        by (rule meets_create [OF v, where T = True])
           (simp_all add: answer_ok_not_Ok answer_ok_known ports_wf_upd port_ok_created [OF v]
             createAndSetUpVlan_total bs ctl.add_total rules_total)
    next
      case False
      then show ?thesis using meets_refused CreateReq by (cases inp) (auto simp: create_thread_def)
    qed
  next
    case (DeleteReq n)
    show ?thesis unfolding DeleteReq
      by (rule meets_delete [where T = True])
         (auto simp: answer_ok_not_Ok ports_wf_del ports_wf_def port_ok_def removeVlanInterface_total ctl.del_total rules_total)
  qed simp_all
qed


section \<open>One request per name at a time\<close>

fun touched :: "request \<Rightarrow> string set" where
  "touched (CreateReq (Some bp)) = {PortName bp}"
| "touched (DeleteReq n) = {n}"
| "touched _ = {}"

text \<open>The service as a sequential object: the registry, with its replies.\<close>

fun port_spec :: "request \<Rightarrow> (string \<rightharpoonup> BridgePort) \<Rightarrow> response option \<times> (string \<rightharpoonup> BridgePort)" where
  "port_spec (CreateReq (Some bp)) R = (map_option PortResp (reg_step R (Created bp) (PortName bp)), reg_step R (Created bp))"
| "port_spec (CreateReq None) R = (None, R)"
| "port_spec (DeleteReq n) R = (Some EmptyResp, reg_step R (Deleted n))"
| "port_spec UpdateReq R = (Some (PortResp \<lparr>PortName = [], Spec = None, Status = None\<rparr>), R)"
| "port_spec (GetReq n) R = (Some (PortResp \<lparr>PortName = n,
     Spec = Some \<lparr>Ptype = 0, MacAddress = [], LogicalBridges = []\<rparr>, Status = None\<rparr>), R)"
| "port_spec ListReq R = (Some (ListResp []), R)"

interpretation bpl: linear_threads "handler_thread nl s" world_moves Ports touched port_spec
  for nl :: "'w netlink_fns" and s
proof
  show "Ports st' = Ports st" if "world_moves st st'" for st st' :: "'w srv_state" using that by (simp add: world_moves_def)
  show "snd (port_spec q R) k = R k" if "k \<notin> touched q" for k q R
    using that by (cases "(q, R)" rule: port_spec.cases) auto
  show "port_spec q R = (a, R)" if "handler_thread nl s q = Finished (Ok a)" for q a R
    using that
  proof (cases "(q, R)" rule: port_spec.cases)
    case (1 bp R)
    from that show ?thesis
    proof (cases "\<exists>spec vlan. valid_request bp spec vlan")
      case True
      then obtain spec vlan where "valid_request bp spec vlan" by blast
      then have "unfinished (handler_thread nl s q)" using 1 by (simp add: create_thread_valid t_andthen_assoc)
      then show ?thesis using that by simp
    next
      case False
      from create_thread_invalid [OF this, of nl s] obtain q' where "create_thread nl s (Some bp) = Finished q'" "\<not> is_Ok q'"
        by blast
      with that 1 show ?thesis by (cases q') auto
    qed
  next
    case (3 n R)
    then have "unfinished (handler_thread nl s q)" by (simp add: delete_thread_def t_andthen_assoc)
    then show ?thesis using that by simp
  qed (auto simp: create_thread_def)
  show "meets (\<lambda>st. \<forall>k \<in> touched q. Ports st k = v k) (\<lambda>st st'. Ports st' = Ports st)
     (\<lambda>st r st'. case r of Ok a \<Rightarrow> port_spec q (Ports st) = (a, Ports st') | _ \<Rightarrow> Ports st' = Ports st)
     (handler_thread nl s q)" for q v
  proof (cases "(q, v)" rule: port_spec.cases)
    case (1 bp R)
    show ?thesis
    proof (cases "\<exists>spec vlan. valid_request bp spec vlan")
      case True
      then obtain spec vlan where "valid_request bp spec vlan" by blast
      then have "meets (\<lambda>st. \<forall>k \<in> touched q. Ports st k = v k) (\<lambda>st st'. Ports st' = Ports st)
         (\<lambda>st r st'. case r of Ok a \<Rightarrow> port_spec q (Ports st) = (a, Ports st') | _ \<Rightarrow> Ports st' = Ports st)
         (handler_thread nl s (CreateReq (Some bp)))"
        by (rule meets_create [where T = False]) (use 1 in \<open>auto split: res.split\<close>)
      then show ?thesis using 1 by simp
    qed (use 1 meets_refused in auto)
  next
    case (3 n R)
    have "meets (\<lambda>st. \<forall>k \<in> touched q. Ports st k = v k) (\<lambda>st st'. Ports st' = Ports st)
       (\<lambda>st r st'. case r of Ok a \<Rightarrow> port_spec q (Ports st) = (a, Ports st') | _ \<Rightarrow> Ports st' = Ports st)
       (handler_thread nl s (DeleteReq n))"
      by (rule meets_delete [where T = False]) (use 3 in \<open>auto split: res.split\<close>)
    then show ?thesis using 3 by simp
  qed (auto simp: create_thread_def)
qed


section \<open>Two creates of one name at the same time\<close>

abbreviation create_rest :: "'w netlink_fns \<Rightarrow> 'w server \<Rightarrow> BridgePort \<Rightarrow> BridgePortSpec \<Rightarrow> int \<Rightarrow>
    ('w srv_state, response option) thread" where
  "create_rest nl s bp spec vlan \<equiv> t_andthen (create_body_thread nl s bp spec vlan) (\<lambda>p. Finished (Ok (map_option PortResp p)))"

lemma read_step: "\<exists>f. t_andthen (atomic (gets Ports)) k = Atomic f \<and> f st = (k (Ports st), st)"
  unfolding t_chain(2) by (auto simp: atomic_def gets_def)

lemma create_first_read:
  assumes "valid_request bp spec vlan" "Ports st (PortName bp) = None"
  shows "\<exists>f. handler_thread nl s (CreateReq (Some bp)) = Atomic f \<and> f st = (create_rest nl s bp spec vlan, st)"
  unfolding handler_thread.simps create_thread_valid [OF assms(1)] t_andthen_assoc
  using read_step [of _ st] assms(2) by (fastforce simp: isBridgePortPresent_def)

lemma create_rest_run:
  assumes "create_body nl s bp spec vlan st = (Ok p, st')"
  shows "run_thread (create_rest nl s bp spec vlan) st = (Ok (Some (PortResp p)), st')" "unfinished (create_rest nl s bp spec vlan)"
  using assms by (simp_all add: run_t_andthen run_finished create_body_alone andthen_def try_else_def ret_def)
    (simp add: create_body_thread_def Let_def t_andthen_assoc)

lemma creates_interleaved:
  assumes v: "valid_request bp spec vlan" "valid_request bq specq vlanq"
    and n: "Ports st (PortName bp) = None" "Ports st (PortName bq) = None"
    and c1: "create_body nl s bp spec vlan st = (Ok p, st1)" and c2: "create_body nl s bq specq vlanq st1 = (Ok q, st2)"
  shows "runs (handler_thread nl s) any_time moves st
    \<lparr>procs = [(CreateReq (Some bp), Finished (Ok (Some (PortResp p)))), (CreateReq (Some bq), Finished (Ok (Some (PortResp q))))],
     mem = st2, log = [(CreateReq (Some bp), Some (PortResp p)), (CreateReq (Some bq), Some (PortResp q))]\<rparr>"
proof -
  let ?step = "step (handler_thread nl s) any_time moves"
  obtain f where f: "handler_thread nl s (CreateReq (Some bp)) = Atomic f" "f st = (create_rest nl s bp spec vlan, st)"
    using create_first_read [OF v(1) n(1)] by blast
  obtain g where g: "handler_thread nl s (CreateReq (Some bq)) = Atomic g" "g st = (create_rest nl s bq specq vlanq, st)"
    using create_first_read [OF v(2) n(2)] by blast
  note r1 = create_rest_run [OF c1] and r2 = create_rest_run [OF c2]
  let ?P = "CreateReq (Some bp)" and ?Q = "CreateReq (Some bq)"
  have ok: "\<not> ends_abnormally (create_rest nl s bp spec vlan)" "\<not> ends_abnormally (create_rest nl s bq specq vlanq)"
    using r1(2) r2(2) by (cases "create_rest nl s bp spec vlan"; cases "create_rest nl s bq specq vlanq"; simp)+
  have none: "reply_of x t = []" if "unfinished t" for x :: request and t :: "('a srv_state, response option) thread"
    using that by (cases t) auto
  let ?T = "create_rest nl s bp spec vlan" and ?U = "create_rest nl s bq specq vlanq"
  let ?F = "Finished (Ok (Some (PortResp p)))" and ?G = "Finished (Ok (Some (PortResp q)))"
  have "?step\<^sup>*\<^sup>* \<lparr>procs = [], mem = st, log = []\<rparr> \<lparr>procs = [], mem = st, log = []\<rparr>" by simp
  also have "?step \<dots> \<lparr>procs = [(?P, Atomic f)], mem = st, log = []\<rparr>"
    using arrive_step [of "[]" any_time st "[]" ?P "handler_thread nl s", OF _ _ f(1)] by simp
  also have "?step \<dots> \<lparr>procs = [(?P, Atomic f), (?Q, Atomic g)], mem = st, log = []\<rparr>"
    using arrive_step [of "[(?P, Atomic f)]" any_time st "[]" ?Q "handler_thread nl s", OF _ _ g(1)] by simp
  also have "?step \<dots> \<lparr>procs = [(?P, ?T), (?Q, Atomic g)], mem = st, log = []\<rparr>"
    using thread_step [of "[(?P, Atomic f), (?Q, Atomic g)]" 0 ?P f st ?T st "handler_thread nl s" any_time moves "[]"]
      f(2) none [OF r1(2)] by simp
  also have "?step \<dots> \<lparr>procs = [(?P, ?T), (?Q, ?U)], mem = st, log = []\<rparr>"
    using thread_step [of "[(?P, ?T), (?Q, Atomic g)]" 1 ?Q g st ?U st "handler_thread nl s" any_time moves "[]"]
      g(2) none [OF r2(2)] ok by simp
  also have "?step\<^sup>*\<^sup>* \<dots> \<lparr>procs = [(?P, ?F), (?Q, ?U)], mem = st1, log = [(?P, Some (PortResp p))]\<rparr>"
    using steps_to_end [of "[(?P, ?T), (?Q, ?U)]" 0 ?P ?T st "Ok (Some (PortResp p))" st1 "handler_thread nl s" any_time moves "[]"]
      r1 ok by simp
  also have "?step\<^sup>*\<^sup>* \<dots> \<lparr>procs = [(?P, ?F), (?Q, ?G)], mem = st2, log = [(?P, Some (PortResp p)), (?Q, Some (PortResp q))]\<rparr>"
    using steps_to_end [of "[(?P, ?F), (?Q, ?U)]" 1 ?Q ?U st1 "Ok (Some (PortResp q))" st2 "handler_thread nl s" any_time moves
        "[(?P, Some (PortResp p))]"] r2 ok by simp
  finally show ?thesis .
qed

text \<open>C5. The check of \<open>CreateBridgePort\<close> whether the port is known is not atomic with the write. Let two
  different valid requests for one new name be served at the same time, with collaborators that accept
  both. Then there is a run, in which nothing panics and everything ends, where both callers are told
  their own port was created, though the second has overwritten the first in the map (the first one's
  VLAN interface and rules stay behind, unknown to any later delete). No order of the two requests,
  served one after the other, gives these replies.\<close>

theorem concurrent_creates_not_linearizable:
  assumes v: "valid_request bp spec vlan" "valid_request bq specq vlanq"
    and same: "PortName bq = PortName bp" and differ: "bq\<lparr>Status := None\<rparr> \<noteq> bp\<lparr>Status := None\<rparr>"
    and new: "Ports st (PortName bp) = None"
    and c1: "create_body nl s bp spec vlan st = (Ok p, st1)" and c2: "create_body nl s bq specq vlanq st1 = (Ok q, st2)"
  shows "\<exists>c. runs (handler_thread nl s) any_time (world_moves :: 'w srv_state \<Rightarrow> 'w srv_state \<Rightarrow> bool) st c \<and>
    procs c = [(CreateReq (Some bp), Finished (Ok (Some (PortResp (bp\<lparr>Status := Some BP_OPER_STATUS_UP\<rparr>))))),
      (CreateReq (Some bq), Finished (Ok (Some (PortResp (bq\<lparr>Status := Some BP_OPER_STATUS_UP\<rparr>)))))] \<and>
    Ports (mem c) = (Ports st)(PortName bp \<mapsto> bq\<lparr>Status := Some BP_OPER_STATUS_UP\<rparr>) \<and>
    (\<forall>l R. mset l = mset (replies c) \<longrightarrow> \<not> explains port_spec (Ports st) l R)"
proof -
  let ?up = "\<lambda>b. b\<lparr>Status := Some BP_OPER_STATUS_UP\<rparr>"
  let ?P = "CreateReq (Some bp)" and ?Q = "CreateReq (Some bq)"
  have pq: "p = ?up bp" "q = ?up bq" "Ports st2 = (Ports st)(PortName bp \<mapsto> ?up bq)"
    using create_body_cases [OF c1] create_body_cases [OF c2] same by auto
  have "?up bq\<lparr>Status := None\<rparr> \<noteq> ?up bp\<lparr>Status := None\<rparr>" using differ by simp
  then have ne: "?up bq \<noteq> ?up bp" by metis
  let ?c = "\<lparr>procs = [(?P, Finished (Ok (Some (PortResp p)))), (?Q, Finished (Ok (Some (PortResp q))))],
     mem = st2, log = [(?P, Some (PortResp p)), (?Q, Some (PortResp q))]\<rparr>"
  have "\<not> explains port_spec (Ports st) l R" if "mset l = mset (replies ?c)" for l R
  proof -
    have "mset l = {#(?P, Some (PortResp p)), (?Q, Some (PortResp q))#}" using that by (simp add: replies_def)
    then have "l = [(?P, Some (PortResp p)), (?Q, Some (PortResp q))] \<or> l = [(?Q, Some (PortResp q)), (?P, Some (PortResp p))]"
      by (rule mset_pair)
    then show ?thesis using ne new same by (auto simp: pq)
  qed
  then show ?thesis
    using creates_interleaved [OF v new _ c1 c2, where moves = world_moves] new same pq
    by (intro exI [of _ ?c]) simp
qed

text \<open>The second read of a create that found its port: when a delete of the name is served in between, the
  answer is nil without an error.\<close>

lemma known_port_second_read:
  assumes v: "valid_request bp spec vlan" and known: "Ports st (PortName bp) = Some p"
    and del: "DeleteBridgePort nl s (PortName bp) st = (Ok (), st1)"
  shows "runs (handler_thread nl s) any_time moves st
    \<lparr>procs = [(CreateReq (Some bp), Finished (Ok None)), (DeleteReq (PortName bp), Finished (Ok (Some EmptyResp)))],
     mem = st1, log = [(DeleteReq (PortName bp), Some EmptyResp), (CreateReq (Some bp), None)]\<rparr>"
proof -
  let ?step = "step (handler_thread nl s) any_time moves" and ?P = "CreateReq (Some bp)" and ?D = "DeleteReq (PortName bp)"
  let ?T = "t_andthen (atomic (gets Ports)) (\<lambda>ports. Finished (Ok (map_option PortResp (ports (PortName bp)))))"
    and ?U = "handler_thread nl s ?D"
  obtain f where f: "handler_thread nl s ?P = Atomic f" "f st = (?T, st)"
    unfolding handler_thread.simps create_thread_valid [OF v] t_andthen_assoc
    using read_step [of _ st] known by (fastforce simp: isBridgePortPresent_def t_andthen_assoc)
  have gone: "Ports st1 (PortName bp) = None" using delete_cases [OF del] known by auto
  have T: "unfinished ?T" "run_thread ?T st1 = (Ok None, st1)"
    by (simp_all add: run_t_andthen run_atomic run_finished gone ret_def)
  have U: "unfinished ?U" "run_thread ?U st = (Ok (Some EmptyResp), st1)"
    by (simp_all add: delete_thread_def t_andthen_assoc)
      (simp add: delete_thread_def [symmetric] t_andthen_assoc [symmetric] run_t_andthen run_finished delete_alone del andthen_def try_else_def ret_def)
  have none: "reply_of x t = []" "\<not> ends_abnormally t" if "unfinished t" for x :: request and t :: "('a srv_state, response option) thread"
    using that by (cases t; simp)+
  have "?step\<^sup>*\<^sup>* \<lparr>procs = [], mem = st, log = []\<rparr> \<lparr>procs = [], mem = st, log = []\<rparr>" by simp
  also have "?step \<dots> \<lparr>procs = [(?P, Atomic f)], mem = st, log = []\<rparr>"
    using arrive_step [of "[]" any_time st "[]" ?P "handler_thread nl s", OF _ _ f(1)] by simp
  also have "?step \<dots> \<lparr>procs = [(?P, Atomic f), (?D, ?U)], mem = st, log = []\<rparr>"
    using arrive_step [of "[(?P, Atomic f)]" any_time st "[]" ?D "handler_thread nl s", OF _ _ refl U(1)] by simp
  also have "?step \<dots> \<lparr>procs = [(?P, ?T), (?D, ?U)], mem = st, log = []\<rparr>"
    using thread_step [of "[(?P, Atomic f), (?D, ?U)]" 0 ?P f st ?T st "handler_thread nl s" any_time moves "[]"]
      f(2) none [OF T(1)] none [OF U(1)] by simp
  also have "?step\<^sup>*\<^sup>* \<dots> \<lparr>procs = [(?P, ?T), (?D, Finished (Ok (Some EmptyResp)))], mem = st1, log = [(?D, Some EmptyResp)]\<rparr>"
    using steps_to_end [of "[(?P, ?T), (?D, ?U)]" 1 ?D ?U st "Ok (Some EmptyResp)" st1 "handler_thread nl s" any_time moves "[]"]
      U none [OF T(1)] none [OF U(1)] by simp
  also have "?step\<^sup>*\<^sup>* \<dots> \<lparr>procs = [(?P, Finished (Ok None)), (?D, Finished (Ok (Some EmptyResp)))], mem = st1,
      log = [(?D, Some EmptyResp), (?P, None)]\<rparr>"
    using steps_to_end [of "[(?P, ?T), (?D, Finished (Ok (Some EmptyResp)))]" 0 ?P ?T st1 "Ok None" st1 "handler_thread nl s"
        any_time moves "[(?D, Some EmptyResp)]"] T none [OF T(1)] by simp
  finally show ?thesis .
qed

section \<open>Runs of the example plugin\<close>

text \<open>A second port of the same name and VLAN, with another address.\<close>

definition demo_twin :: BridgePort where
  "demo_twin = demo_port\<lparr>Spec := Some \<lparr>Ptype = 1, MacAddress = [0, 9, 0, 0, 3, 20], LogicalBridges = [''05'']\<rparr>\<rparr>"

definition demo_vlan_link :: link where
  "demo_vlan_link = new_Vlan\<lparr>ParentIndex := 0, Name := vlan_intf ''pf0'' 5, VlanId := 5\<rparr>"

lemma demo_twin_valid: "valid_request demo_twin (the (Spec demo_twin)) 5"
  by (simp add: valid_request_def demo_twin_def demo_port_def Atoi_05)

lemma demo_AddRules: "mac_usable mac \<Longrightarrow> AddRules (p4RtClient demo_server) mac v w = (Ok (), w)"
proof -
  assume "mac_usable mac"
  then obtain w' where a: "AddRules (p4RtClient demo_server) mac v w = (Ok (), w')" using demo_rules(1) by blast
  have "keeps (\<lambda>u. u = w) (AddRules (p4RtClient demo_server) mac v)"
    unfolding demo_server_def rootCmd_plugin_fields
    by (rule p4cli.rules_add_keeps) (simp add: p4_stable_def keeps_ext_def)
  from keepsD [OF this refl a] a show ?thesis by simp
qed

lemma demo_body:
  assumes v: "valid_request bp spec 5" and n: "PortName bp = ''pf0''"
    and st: "env st = env demo_state \<or> env st = env demo_state @ [demo_vlan_link]"
  shows "create_body demo_nl demo_server bp spec 5 st =
    (Ok (bp\<lparr>Status := Some BP_OPER_STATUS_UP\<rparr>), st\<lparr>Ports := (Ports st)(''pf0'' \<mapsto> bp\<lparr>Status := Some BP_OPER_STATUS_UP\<rparr>),
      env := env demo_state @ [demo_vlan_link]\<rparr>)"
proof -
  have facts: "mac_usable (MacAddress spec)" "index (LogicalBridges spec) 0 = Ok (hd (LogicalBridges spec))"
    "Atoi (hd (LogicalBridges spec)) = Inr 5"
    using v by (auto simp: valid_request_def mac_usable_def index_0)
  show ?thesis
    using st facts(2,3)
    by (cases st) (auto simp: create_body_def n demo_AddRules [OF facts(1)] run_unfold demo_ctl createAndSetUpVlan_def call_def
      Let_def demo_nl_def createVlanInterface_def NewLinuxBridgeController_def demo_state_def demo_vlan_link_def
      linuxBridge_AddPort_def new_Vlan_def new_Bridge_def zero_link_def vlan_intf_def)
qed

abbreviation demo_up :: "BridgePort \<Rightarrow> BridgePort" where
  "demo_up b \<equiv> b\<lparr>Status := Some BP_OPER_STATUS_UP\<rparr>"

lemma demo_bodies:
  "\<exists>st1. create_body demo_nl demo_server demo_port (the (Spec demo_port)) 5 demo_state = (Ok (demo_up demo_port), st1) \<and>
    Ports st1 = [''pf0'' \<mapsto> demo_up demo_port] \<and>
    (\<exists>st2. create_body demo_nl demo_server demo_twin (the (Spec demo_twin)) 5 st1 = (Ok (demo_up demo_twin), st2) \<and>
      Ports st2 = [''pf0'' \<mapsto> demo_up demo_twin])"
proof -
  have "PortName demo_twin = ''pf0''" by (simp add: demo_twin_def demo_port_def)
  then show ?thesis
    using demo_body [OF demo_valid demo_names(2), of demo_state] demo_body [OF demo_twin_valid]
    by (simp add: demo_names)
qed

lemma concurrent_creates_not_linearizable_witness:
  "\<exists>c. runs (handler_thread demo_nl demo_server) any_time world_moves demo_state c \<and>
    Ports (mem c) = [''pf0'' \<mapsto> demo_up demo_twin] \<and>
    (\<forall>l R. mset l = mset (replies c) \<longrightarrow> \<not> explains port_spec (Ports demo_state) l R)"
proof -
  obtain st1 st2 where b: "create_body demo_nl demo_server demo_port (the (Spec demo_port)) 5 demo_state = (Ok (demo_up demo_port), st1)"
    "create_body demo_nl demo_server demo_twin (the (Spec demo_twin)) 5 st1 = (Ok (demo_up demo_twin), st2)"
    using demo_bodies by blast
  have "PortName demo_twin = PortName demo_port" "demo_twin\<lparr>Status := None\<rparr> \<noteq> demo_port\<lparr>Status := None\<rparr>"
    by (simp_all add: demo_twin_def demo_port_def)
  from concurrent_creates_not_linearizable [OF demo_valid demo_twin_valid this _ b] show ?thesis
    by (auto simp: demo_names)
qed



end
