(* ===== verification/CniExamples.thy ===== *)
theory CniExamples
  imports CniDel
begin

text \<open>
  The properties of the CNI commands at a concrete environment: the tree of \<open>SysFs\<close>, a link library in
  which every call succeeds, namespaces that can always be entered, a codec for JSON trees and a
  daemon that records the requests it accepts in the extension of the world.
\<close>

section \<open>A codec\<close>

fun str_code :: "string \<Rightarrow> string" where
  "str_code [] = ''.''"
| "str_code (c # s) = CHR ''+'' # c # str_code s"

fun str_read :: "string \<Rightarrow> string \<times> string" where
  "str_read (t # c # r) = (if t = CHR ''.'' then ([], c # r) else apfst ((#) c) (str_read r))"
| "str_read r = ([], [])"

lemma str_read_code [simp]: "str_read (str_code s @ r) = (s, r)"
proof (induction s)
  case Nil
  then show ?case by (cases r) auto
qed simp

definition int_code :: "int \<Rightarrow> string" where
  "int_code i = (if i < 0 then CHR ''-'' else CHR ''i'') # str_code (replicate (nat \<bar>i\<bar>) CHR ''1'')"

fun json_code :: "json \<Rightarrow> string" where
  "json_code JNull = ''n''"
| "json_code (JBool b) = (if b then ''t'' else ''f'')"
| "json_code (JInt i) = int_code i"
| "json_code (JReal s) = CHR ''r'' # str_code s"
| "json_code (JStr s) = CHR ''s'' # str_code s"
| "json_code (JArr js) = CHR ''a'' # concat (map (\<lambda>j. CHR ''+'' # json_code j) js) @ ''.''"
| "json_code (JObj kvs) = CHR ''o'' # concat (map (\<lambda>(k, j). CHR ''+'' # str_code k @ json_code j) kvs) @ ''.''"

fun json_read :: "nat \<Rightarrow> string \<Rightarrow> json \<times> string"
  and arr_read :: "nat \<Rightarrow> string \<Rightarrow> json list \<times> string"
  and obj_read :: "nat \<Rightarrow> string \<Rightarrow> (string \<times> json) list \<times> string" where
  "json_read (Suc k) (t # r) =
    (if t = CHR ''n'' then (JNull, r)
     else if t = CHR ''t'' then (JBool True, r)
     else if t = CHR ''f'' then (JBool False, r)
     else if t = CHR ''i'' then apfst (\<lambda>s. JInt (int (length s))) (str_read r)
     else if t = CHR ''-'' then apfst (\<lambda>s. JInt (- int (length s))) (str_read r)
     else if t = CHR ''r'' then apfst JReal (str_read r)
     else if t = CHR ''s'' then apfst JStr (str_read r)
     else if t = CHR ''a'' then apfst JArr (arr_read k r)
     else apfst JObj (obj_read k r))"
| "json_read _ r = (JNull, r)"
| "arr_read (Suc k) (t # r) =
    (if t = CHR ''.'' then ([], r)
     else case json_read k r of (j, r1) \<Rightarrow> apfst ((#) j) (arr_read k r1))"
| "arr_read _ r = ([], r)"
| "obj_read (Suc k) (t # r) =
    (if t = CHR ''.'' then ([], r)
     else case str_read r of (n, r1) \<Rightarrow> (case json_read k r1 of (j, r2) \<Rightarrow> apfst ((#) (n, j)) (obj_read k r2)))"
| "obj_read _ r = ([], r)"

lemma json_read_code: "length (json_code j) \<le> k \<Longrightarrow> json_read k (json_code j @ r) = (j, r)"
proof (induction j arbitrary: k r)
  case (JInt i)
  then show ?case by (cases k) (auto simp: int_code_def)
next
  case (JBool b)
  then show ?case by (cases k) (auto split: if_splits)
next
  case (JReal s)
  then show ?case by (cases k) auto
next
  case (JStr s)
  then show ?case by (cases k) auto
next
  case (JArr js)
  have "arr_read k (concat (map (\<lambda>j. CHR ''+'' # json_code j) js) @ CHR ''.'' # r) = (js, r)"
    if "length (concat (map (\<lambda>j. CHR ''+'' # json_code j) js)) < k" for k
    using JArr.IH that
  proof (induction js arbitrary: k)
    case (Cons j js)
    from Cons.prems(2) obtain k' where "k = Suc k'" by (cases k) auto
    with Cons show ?case by simp
  qed (auto simp: less_eq_Suc_le dest!: Suc_le_D)
  with JArr.prems show ?case by (cases k) auto
next
  case (JObj kvs)
  have "obj_read k (concat (map (\<lambda>(k, j). CHR ''+'' # str_code k @ json_code j) kvs) @ CHR ''.'' # r) = (kvs, r)"
    if "length (concat (map (\<lambda>(k, j). CHR ''+'' # str_code k @ json_code j) kvs)) < k" for k
    using JObj.IH that
  proof (induction kvs arbitrary: k)
    case (Cons kv kvs)
    from Cons.prems(2) obtain k' where "k = Suc k'" by (cases k) auto
    with Cons show ?case by (cases kv) fastforce
  qed (auto simp: less_eq_Suc_le dest!: Suc_le_D)
  with JObj.prems show ?case by (cases k) auto
qed (case_tac k; auto)

section \<open>The environment\<close>

definition demo_netns :: "string \<Rightarrow> 'w NetNS" where
  "demo_netns p = \<lparr>Fd = 5, Path = p, Do = \<lambda>m. m\<rparr>"

definition demo_log :: cnilog where
  "demo_log = \<lparr>StringToLevel = \<lambda>_. 0, InvalidLevel = 0, InfoLevel = 1, ErrorLevel = 2\<rparr>"

definition demo_unmarshal :: "string \<Rightarrow> error + json" where
  "demo_unmarshal s = (if s = [] then demo_stdin [] else Inr (fst (json_read (length s) s)))"

definition demo_request :: "dpu_request \<Rightarrow> dpu_request list os_scheme \<Rightarrow> dpu_request list os_scheme" where
  "demo_request q w = os.more_update (\<lambda>l. l @ [q]) w"

definition demo_env :: "dpu_request list os_scheme NetlinkManager \<Rightarrow> (dpu_request list os_scheme, unit, unit, unit) cni_ext" where
  "demo_env nl =
     \<lparr>cni_log = demo_log, Unmarshal = demo_unmarshal, render_json = json_code, LoadArgs = \<lambda>_. Inr [],
      GetNS = \<lambda>p _. Inr (demo_netns p), NSPathNotExistErr = \<lambda>_. False, cni_netlink = nl,
      cni_sleep = \<lambda>_ w. w, cni_GetCurrentNS = \<lambda>w. (Inr (demo_netns ''self''), w), icmp_Marshal = \<lambda>m. Inr (icmpBody m),
      cni_sockets = \<lparr>Socket = \<lambda>_ _ _ w. (Inr 3, w), SetsockoptInt = \<lambda>_ _ _ _ w. (Inr (), w),
        Sendto = \<lambda>_ _ _ _ w. (Inr (), w), CloseFd = \<lambda>_ w. (Inr (), w)\<rparr>,
      ExecAdd = \<lambda>_ _ w. (Inr (), w), ExecDel = \<lambda>_ _ w. (Inr (), w),
      NewResultFromResult = \<lambda>_. Inr \<lparr>Interfaces = [], IPs = []\<rparr>, ConfigureIface = \<lambda>_ _ w. (Inr (), w),
      Dial = \<lambda>_ w. (Inr 1, w), ConnClose = \<lambda>_ w. (Inr (), w),
      rpc_Create = \<lambda>_ p w. (Inr p, demo_request (Created p) w),
      rpc_Delete = \<lambda>_ n w. (Inr (), demo_request (Deleted n) w),
      PrintResult = \<lambda>_ _ w. (Inr (), w), empty_result = \<lparr>Interfaces = [], IPs = []\<rparr>\<rparr>"

definition demo_args :: CmdArgs where
  "demo_args = \<lparr>ContainerID = ''c1'', Netns = ''/proc/7/ns/net'', IfName = ''net1'', Args = [], StdinData = []\<rparr>"

lemma demo_env_simps [simp]:
  "cni_log (demo_env nl) = demo_log" "Unmarshal (demo_env nl) = demo_unmarshal" "render_json (demo_env nl) = json_code"
  "GetNS (demo_env nl) = (\<lambda>p _. Inr (demo_netns p))" "cni_netlink (demo_env nl) = nl" "NSPathNotExistErr (demo_env nl) = (\<lambda>_. False)"
  "Dial (demo_env nl) = (\<lambda>_ w. (Inr 1, w))" "ConnClose (demo_env nl) = (\<lambda>_ w. (Inr (), w))"
  "rpc_Create (demo_env nl) = (\<lambda>_ p w. (Inr p, demo_request (Created p) w))"
  "rpc_Delete (demo_env nl) = (\<lambda>_ n w. (Inr (), demo_request (Deleted n) w))"
  "PrintResult (demo_env nl) = (\<lambda>_ _ w. (Inr (), w))" "nLink (sm (demo_env nl)) = nl" "utils (sm (demo_env nl)) = pciUtilsImpl"
  by (simp_all add: demo_env_def sm_def NewSriovManager_def)

lemma demo_args_simps [simp]:
  "ContainerID demo_args = ''c1''" "Netns demo_args = ''/proc/7/ns/net''" "IfName demo_args = ''net1''"
  "Args demo_args = []" "StdinData demo_args = []"
  by (simp_all add: demo_args_def)

lemma demo_request_simps [simp]:
  "lookup (demo_request q w) p = lookup w p" "fault (demo_request q w) = fault w"
  "os.more (demo_request q w) = os.more w @ [q]" "cni_state (demo_request q w) = cni_state w"
  by (simp_all add: demo_request_def lookup_def cni_state_def proc_ok_def fun_eq_iff)

lemma demo_netlink_keeps: "netlink_keeps P pod_nl"
  by (simp add: netlink_keeps_def pod_nl_def keeps_ext_def)

lemma demo_env_keeps:
  assumes "netlink_keeps P nl"
  shows "env_keeps P (demo_env nl)"
  using assms
  by (simp add: env_keeps_def demo_env_def sockets_keep_def ns_keeps_def keeps_ext_def demo_netns_def)

lemma demo_spares_files: "(\<And>P. netlink_keeps P nl) \<Longrightarrow> spares_files (demo_env nl)"
  by (simp add: spares_files_def demo_env_keeps keeps_ext_def)

lemma demo_daemon_log: "(\<And>P. netlink_keeps P nl) \<Longrightarrow> daemon_log (demo_env nl) os.more"
  by (auto simp: daemon_log_def demo_env_keeps treeless_def)

lemma demo_codec: "demo_unmarshal (json_code (json_of_NetConf n)) = Inr (json_of_NetConf n)"
proof -
  have "json_code (json_of_NetConf n) \<noteq> []" by (simp add: json_of_NetConf_def)
  then show ?thesis using json_read_code [of "json_of_NetConf n" _ "[]"] by (simp add: demo_unmarshal_def)
qed

lemma demo_unmarshal_stdin: "demo_unmarshal [] = demo_stdin []"
  by (simp add: demo_unmarshal_def)

lemma pod_plain: "then_dec (demo_unmarshal []) NetConf_of_json = Inr n \<Longrightarrow> plain (DeviceID n)"
  by (auto simp: demo_unmarshal_stdin demo_stdin_conf plain_def)

lemma demo_cni_inv: "cni_inv (cache_ref ''c1'' ''net1'') (test_os e)"
proof -
  have "dir_or_none (test_os e) cni_dir"
    using test_lock_inv [of e] by (auto simp: lock_inv_def lock_dir_def dir_or_none_def nth_append)
      (metis take_append diff_is_0_eq take0 append_Nil2 le_SucI)
  moreover have "lookup (test_os e) (cni_dir @ [cache_ref ''c1'' ''net1'']) = None"
    by (simp add: cni_dir_def test_var)
  moreover have "proc_ok (test_os e)"
    by (auto simp: proc_ok_def lookup_def test_os_def test_tree_def pf_dir_def vf_dir_def split: if_splits)
  ultimately show ?thesis
    using test_lock_inv [of e] by (simp add: cni_inv_def cache_file_def plain_def cache_ref_def)
qed

section \<open>A run of \<open>ADD\<close>\<close>

lemma dirs_in_var: "cni_dir \<noteq> []" "hd cni_dir = ''var''" "lock_dir \<noteq> []" "hd lock_dir = ''var''"
  by (simp_all add: cni_dir_def lock_dir_def)

text \<open>Making a directory below \<open>/var\<close> and a file in it, in a world without faults.\<close>

lemma save_in_var:
  assumes "dir_or_none w d" "d \<noteq> []" "hd d = ''var''" "plain c" "fault w = (\<lambda>_ _. None)"
    and "\<And>n. lookup w (d @ [c]) = Some n \<Longrightarrow> \<exists>b. n = File b"
  shows "\<exists>w0 w1. os_MkdirAll (abs_path d) w = (Inr (), w0) \<and> os_WriteFile (abs_path (d @ [c])) b w0 = (Inr (), w1) \<and>
    fault w1 = fault w \<and> os.more w1 = os.more w \<and> (\<forall>p. lookup w1 (''sys'' # p) = lookup w (''sys'' # p))"
proof -
  obtain w0 where mk: "os_MkdirAll (abs_path d) w = (Inr (), w0)"
    using MkdirAll_succeeds [OF assms(1)] assms(5) by auto
  note eff = MkdirAll_effect [OF assms(1) mk]
  have real: "real_dir w0 d" and f: "fault w0 = (\<lambda>_ _. None)" "os.more w0 = os.more w" using eff assms(5) by auto
  have written: "os_WriteFile (abs_path (d @ [c])) b w0 = (Inr (), put (d @ [c]) (File b) w0)"
    using WriteFile_entry [OF real assms(4)] assms(6) MkdirAll_entry [OF assms(1) mk] f by simp
  have "lookup (put (d @ [c]) (File b) w0) (''sys'' # p) = lookup w (''sys'' # p)" for p
  proof -
    obtain d' where d: "d = ''var'' # d'" using assms(2,3) by (cases d) auto
    then have "''sys'' # p \<noteq> take i d" for i by (cases i) auto
    with eff have "lookup w0 (''sys'' # p) = lookup w (''sys'' # p)" by metis
    then show ?thesis using d by simp
  qed
  with mk written f assms(5) show ?thesis by simp
qed

lemma save_conf_runs:
  assumes "cni_inv (cache_ref i n) w" "fault w = (\<lambda>_ _. None)" "sys_like w"
  shows "\<exists>w1. SaveNetConf r i DefaultCNIDir n c w = (Ok (), w1) \<and> cni_inv (cache_ref i n) w1 \<and> sys_like w1 \<and> os.more w1 = os.more w"
proof -
  have cf: "dir_or_none w cni_dir" "plain (cache_ref i n)" "\<And>x. lookup w (cni_dir @ [cache_ref i n]) = Some x \<Longrightarrow> \<exists>b. x = File b"
    using assms(1) by (auto simp: cni_inv_def cache_file_def)
  from save_in_var [OF cf(1) dirs_in_var(1,2) cf(2) assms(2) cf(3), of "r (json_of_NetConf c)"] obtain w0 w1 where
    "os_MkdirAll (abs_path cni_dir) w = (Inr (), w0)"
    "os_WriteFile (abs_path (cni_dir @ [cache_ref i n])) (r (json_of_NetConf c)) w0 = (Inr (), w1)"
    and like: "fault w1 = fault w" "os.more w1 = os.more w" "\<forall>p. lookup w1 (''sys'' # p) = lookup w (''sys'' # p)"
    by blast
  then have run: "SaveNetConf r i DefaultCNIDir n c w = (Ok (), w1)"
    by (simp add: SaveNetConf_def saveScratchNetConf_def Let_def ok_iffs cache_ref_def [symmetric] cache_path [OF cf(2)])
       (simp add: DefaultCNIDir_path cni_dir_def)
  moreover have "sys_like w1" using like assms(3) by (simp add: sys_like_def)
  ultimately show ?thesis using SaveNetConf_inv(1) [OF assms(1)] like(2) by blast
qed

lemma save_lock_runs:
  assumes "lock_inv lock_dir w" "plain k" "fault w = (\<lambda>_ _. None)" "sys_like w"
  shows "\<exists>w1. SaveAllocatedPCI (NewPCIAllocator DefaultCNIDir) k ns w = (Ok (), w1) \<and> sys_like w1 \<and> os.more w1 = os.more w"
proof -
  have dn: "dir_or_none w lock_dir" and only: "\<And>x. lookup w (lock_dir @ [k]) = Some x \<Longrightarrow> \<exists>b. x = File b"
    using assms(1) by (auto simp: lock_inv_def)
  from save_in_var [OF dn dirs_in_var(3,4) assms(2,3) only, of ns] obtain w0 w1 where
    "os_MkdirAll (abs_path lock_dir) w = (Inr (), w0)" "os_WriteFile (abs_path (lock_dir @ [k])) ns w0 = (Inr (), w1)"
    and like: "fault w1 = fault w" "os.more w1 = os.more w" "\<forall>p. lookup w1 (''sys'' # p) = lookup w (''sys'' # p)"
    by blast
  then have "SaveAllocatedPCI (NewPCIAllocator DefaultCNIDir) k ns w = (Ok (), w1)"
    unfolding default_allocator by (simp add: SaveAllocatedPCI_def Let_def ok_iffs lock_path [OF assms(1,2)])
  moreover have "sys_like w1" using like assms(4) by (simp add: sys_like_def)
  ultimately show ?thesis using like(2) by blast
qed

lemma demo_enable_arp: "\<exists>e. EnableArpAndNdiscNotify ''net1'' (test_os l) = (Err e, test_os l)"
proof -
  have "components (abs_path [''proc'', ''sys'', ''net'', ''ipv4'', ''conf'', ''net1'', ''arp_notify'']) =
      [''proc'', ''sys'', ''net'', ''ipv4'', ''conf'', ''net1'', ''arp_notify'']"
    by (rule components_abs_path) (auto simp: plain_def)
  moreover have "lookup (test_os l) [''proc''] = None"
    by (simp add: lookup_def test_os_def test_tree_def pf_dir_def vf_dir_def)
  ultimately have "resolve Create (test_os l) (abs_path [''proc'', ''sys'', ''net'', ''ipv4'', ''conf'', ''net1'', ''arp_notify'']) = Inl ENOENT"
    by (simp add: resolve_def is_abs_def abs_path_def max_links_def)
  moreover have "plain ''net1''" by (simp add: plain_def)
  ultimately show ?thesis
    by (auto simp: EnableArpAndNdiscNotify_def Let_def notify_paths run_call os_WriteFile_def split: option.split)
qed

lemma pod_nl_simps [simp]:
  "LinkByName pod_nl = (\<lambda>_ w. (Inr demo_pod_link, w))" "LinkSetUp pod_nl = (\<lambda>_ w. (Inr (), w))"
  "LinkSetDown pod_nl = (\<lambda>_ w. (Inr (), w))" "LinkSetNsFd pod_nl = (\<lambda>_ _ w. (Inr (), w))"
  "LinkSetName pod_nl = (\<lambda>_ _ w. (Inr (), w))"
  by (simp_all add: pod_nl_def)

definition pod_conf :: NetConf where
  "pod_conf = demo_loaded\<lparr>OrigVfState := zero_VfState\<lparr>HostIFName := ''enp175s7'', EffectiveMAC := MacString [2, 8, 0, 0, 0, 5]\<rparr>\<rparr>"

lemma pod_conf_simps [simp]:
  "MAC demo_loaded = []" "MinTxRate demo_loaded = None" "MaxTxRate demo_loaded = None" "SpoofChk demo_loaded = []"
  "Trust demo_loaded = []" "LinkState demo_loaded = []" "DPDKMode demo_loaded = False" "IpamType demo_loaded = []"
  "RuntimeMac demo_loaded = []" "DeviceID demo_loaded = ''0000:af:06.1''"
  "OrigVfState demo_loaded = zero_VfState\<lparr>HostIFName := ''enp175s7''\<rparr>" "Master demo_loaded = ''enp175s0f1''" "VFID demo_loaded = 1"
  "HostIFName zero_VfState = []" "MAC pod_conf = []" "DeviceID pod_conf = ''0000:af:06.1''" "IpamType pod_conf = []"
  "EffectiveMAC (OrigVfState pod_conf) = MacString [2, 8, 0, 0, 0, 5]"
  "Master pod_conf = ''enp175s0f1''" "VFID pod_conf = 1" "DPDKMode pod_conf = False"
  by (simp_all add: demo_loaded_def zero_NetConf_def zero_VfState_def pod_conf_def)

lemma demo_add_mac [simp]: "add_mac None demo_loaded = demo_loaded"
  by (simp add: add_mac_def Let_def ToLower_def)

lemma pod_apply: "ApplyVFConfig (sm (demo_env pod_nl)) demo_loaded w = (Ok (), w)"
  by (simp add: ApplyVFConfig_def Let_def run_call)

lemma run_on_world:
  assumes "m w = (Ok a, w1)"
  shows "check (on_world m) f k (c, w) = k a (c, w1)"
  using assms by (simp add: check_def try_else_def zoom_def)

lemma pod_setup: "SetupVF (sm (demo_env pod_nl)) ''net1'' (demo_netns p) (demo_loaded, test_os l) = (Ok (), (pod_conf, test_os l))"
proof -
  obtain e where arp: "EnableArpAndNdiscNotify ''net1'' (test_os l) = (Err e, test_os l)"
    using demo_enable_arp [of l] by (elim exE) (rule that)
  have arp': "andthen (ignore (EnableArpAndNdiscNotify ''net1'')) k (test_os l) = k () (test_os l)"
    for k :: "unit \<Rightarrow> (dpu_request list os_scheme, unit) prog"
    by (rule run_Ok(3) [OF run_Err(4)]) (rule arp)
  have pod: "setup_in_pod (sm (demo_env pod_nl)) pod_conf a b ''net1'' k (test_os l) = (Ok (), test_os l)" for a b k
    by (simp add: setup_in_pod_def run_call pciUtilsImpl_def arp')
  have conf: "demo_loaded\<lparr>OrigVfState := zero_VfState\<lparr>HostIFName := ''enp175s7'', EffectiveMAC := MacString [2, 8, 0, 0, 0, 5]\<rparr>\<rparr> = pod_conf"
    by (simp add: pod_conf_def)
  have hw: "HardwareAddr demo_pod_link = [2, 8, 0, 0, 0, 5]" by (simp add: demo_pod_link_def)
  have pod': "check (on_world (setup_in_pod (sm (demo_env pod_nl)) pod_conf a b ''net1'' k)) f ret (c, test_os l) = (Ok (), (c, test_os l))"
    for a b k f and c :: NetConf
    by (subst run_on_world) (rule pod, simp)
  have c: "call (\<lambda>w. (Inr v, w)) w = (Ok v, w)" for v :: 'v and w :: "dpu_request list os_scheme" by (simp add: call_def)
  have orig: "andthen (set_orig f) k (c, w) = k () (c\<lparr>OrigVfState := f (OrigVfState c)\<rparr>, w)" for f k c and w :: "dpu_request list os_scheme"
    by (simp add: set_orig_def)
  show ?thesis
    by (simp add: SetupVF_def Let_def run_on_world [OF c] orig hw conf) (simp add: demo_netns_def pod')
qed

lemma step_assign:
  assumes "m w = (Ok a, w1)"
  shows "assign (on_w m) f k \<lparr>conf = c, errv = e, world = w\<rparr> = k a \<lparr>conf = c, errv = None, world = w1\<rparr>"
  using assms by (subst run_assign(1) [OF on_w_run]) simp_all

definition pod_request :: dpu_request where
  "pod_request = Created (create_request pod_conf [2, 8, 0, 0, 0, 5])"

lemma demo_register:
  assumes "cni_inv (cache_ref ''c1'' ''net1'') w" "sys_like w"
  shows "\<exists>w'. add_register (demo_env pod_nl) demo_args result \<lparr>conf = pod_conf, errv = None, world = w\<rparr> =
      (Ok (), \<lparr>conf = pod_conf, errv = None, world = w'\<rparr>) \<and> sys_like w' \<and> os.more w' = os.more w @ [pod_request]"
proof -
  obtain w1 where w1: "SaveNetConf json_code ''c1'' DefaultCNIDir ''net1'' pod_conf w = (Ok (), w1)"
    "cni_inv (cache_ref ''c1'' ''net1'') w1" "sys_like w1" "os.more w1 = os.more w"
    using save_conf_runs [OF assms(1) sys_likeD(2) [OF assms(2)] assms(2), of json_code pod_conf] by auto
  obtain w2 where w2: "SaveAllocatedPCI (NewPCIAllocator DefaultCNIDir) ''0000:af:06.1'' ''/proc/7/ns/net'' w1 = (Ok (), w2)"
    "sys_like w2" "os.more w2 = os.more w"
    using save_lock_runs [of w1 "''0000:af:06.1''" "''/proc/7/ns/net''"] w1 by (auto simp: cni_inv_def sys_likeD(2) plain_def)
  have mac: "of_res (of_sum (ParseMAC (MacString [2, 8, 0, 0, 0, 5]))) = ret [2, 8, 0, 0, 0, 5]"
    by (simp add: ParseMAC_MacString)
  let ?s = "\<lambda>w. \<lparr>conf = pod_conf, errv = None, world = w\<rparr>"
  have dial: "try_else (on_w (call (\<lambda>w. (Inr 1, w)))) h k (?s w2) = k 1 (?s w2)"
    for h and k :: "int \<Rightarrow> (dpu_request list os_scheme locals, unit) prog"
    by (rule run_Ok(1)) (simp add: zoom_def call_def)
  let ?rpc = "\<lambda>b q f mac. assign (on_w (call (\<lambda>w. (Inr (b mac), demo_request (q mac) w)))) f (\<lambda>r. on_w (call (\<lambda>w. (Inr (), w))))"
  have rpc: "?rpc b q f mac (?s w2) = (Ok (), ?s (demo_request (q mac) w2))" for b :: "byte list \<Rightarrow> BridgePort" and q f mac
    by (subst step_assign) (simp_all add: call_def zoom_def)
  have "assign (ret mac) g (?rpc b q f) (?s w2) = (Ok (), ?s (demo_request (q mac) w2))"
    for b :: "byte list \<Rightarrow> BridgePort" and q f g mac
    using rpc [of b mac q f] by (subst assign_def) simp
  then have close: "deferring (on_w (call (\<lambda>w. (Inr (), w)))) (assign (ret mac) g (?rpc b q f)) (?s w2) =
      (Ok (), ?s (demo_request (q mac) w2))" for b :: "byte list \<Rightarrow> BridgePort" and q f g mac
    by (rule run_deferring, simp add: call_def zoom_def, simp_all)
  note saved = step_assign [where m = "SaveNetConf json_code ''c1'' DefaultCNIDir ''net1'' pod_conf", OF w1(1)]
    and locked = step_assign [where m = "SaveAllocatedPCI (NewPCIAllocator DefaultCNIDir) ''0000:af:06.1'' ''/proc/7/ns/net''", OF w2(1)]
  have "add_register (demo_env pod_nl) demo_args result (?s w) = (Ok (), ?s (demo_request pod_request w2))"
    by (simp add: add_register_def saved locked dial mac close pod_request_def)
  then show ?thesis using w2 by (auto simp: sys_like_def)
qed

lemma demo_load_stdin: "LoadConf demo_unmarshal opn [] (test_os l) = (Ok demo_loaded, test_os l)"
  using demo_load [of opn "[]" l] by (simp add: LoadConf_def demo_unmarshal_stdin)

lemma demo_set_logging: "\<exists>s'. SetLogging demo_log demo_unmarshal [] a b c s = Inr s'"
  by (simp add: SetLogging_def demo_unmarshal_stdin demo_stdin_conf)

lemma demo_envArgs: "getEnvArgs (demo_env nl) [] = Inr None"
  by (simp add: getEnvArgs_def)

lemma demo_add_main:
  "\<exists>w'. add_main (demo_env pod_nl) demo_args (test_os l) = (Ok (), w') \<and> sys_like w' \<and> os.more w' = l @ [pod_request]"
proof -
  let ?x = "demo_env pod_nl" and ?s = "\<lambda>c w. \<lparr>conf = c, errv = None, world = w\<rparr>"
  let ?ns = "demo_netns ''/proc/7/ns/net'' :: dpu_request list os_scheme NetNS"
  let ?res = "(empty_result ?x)\<lparr>Interfaces :=
      [\<lparr>ifcName = ''net1'', ifcMac = GetMacAddressForResult pod_conf, Sandbox = Path ?ns\<rparr>]\<rparr>"
  obtain w' where reg: "add_register ?x demo_args ?res (?s pod_conf (test_os l)) = (Ok (), ?s pod_conf w')"
    and w': "sys_like w'" "os.more w' = l @ [pod_request]"
    using demo_register [OF demo_cni_inv test_sys_like, of ?res l] by (auto simp: test_os_def)
  have apply1: "on_w (ApplyVFConfig (sm ?x) demo_loaded) (?s demo_loaded (test_os l)) = (Ok (), ?s demo_loaded (test_os l))"
    using pod_apply [of "test_os l"] by (simp add: zoom_def)
  have setup1: "on_conf_w (SetupVF (sm ?x) ''net1'' ?ns) (?s demo_loaded (test_os l)) = (Ok (), ?s pod_conf (test_os l))"
    using pod_setup [of "''/proc/7/ns/net''" l] by (simp add: zoom_def upd_conf_world_def)
  have moved: "andthen (assign (on_conf_w (SetupVF (sm ?x) ''net1'' ?ns)) f ret) k (?s demo_loaded (test_os l)) = k () (?s pod_conf (test_os l))"
    for f and k :: "unit \<Rightarrow> (dpu_request list os_scheme locals, unit) prog"
    by (simp add: andthen_def assign_def try_else_def setup1)
  note applied = run_Ok(2) [where m = "on_w (ApplyVFConfig (sm ?x) demo_loaded)", OF apply1]
  have clean: "add_cleanup ?x demo_args ?ns (?s pod_conf w') = (Ok (), ?s pod_conf w')"
    by (simp add: add_cleanup_def)
  have "add_in_netns ?x demo_args ?ns (?s demo_loaded (test_os l)) = (Ok (), ?s pod_conf w')"
    unfolding add_in_netns_def
    by (rule run_deferring [where d = "add_cleanup ?x demo_args ?ns" and ?w1.0 = "?s pod_conf w'"],
        simp add: applied moved Let_def reg, rule clean, simp_all)
  then show ?thesis
    using w' by (simp add: add_main_def with_locals_def demo_load_stdin check_def try_else_def demo_envArgs ask_def)
qed

section \<open>A run of \<open>DEL\<close>\<close>

lemma pod_release:
  assumes "MAC n = []"
  shows "ReleaseVF (sm (demo_env pod_nl)) n p (demo_netns q) w = (Ok (), w)"
proof -
  have g: "GetCurrentNS (sm (demo_env pod_nl)) = (\<lambda>w. (Inr (demo_netns ''self''), w))"
    by (simp add: sm_def NewSriovManager_def demo_env_def)
  show ?thesis
    using assms by (simp add: ReleaseVF_def run_call g demo_netns_def release_in_pod_def)
qed

lemma pod_reset:
  assumes "MAC n = []" "SpoofChk n = []" "Trust n = []" "MinTxRate n = None" "MaxTxRate n = None" "LinkState n = []"
  shows "ResetVFConfig (sm (demo_env pod_nl)) n w = (Ok (), w)"
  using assms by (simp add: ResetVFConfig_def Let_def run_call)

lemma unlock_runs:
  assumes "lock_inv lock_dir w" "plain k" "fault w = (\<lambda>_ _. None)" "lookup w (lock_dir @ [k]) \<noteq> None"
  shows "DeleteAllocatedPCI (NewPCIAllocator DefaultCNIDir) k w = (Ok (), del (lock_dir @ [k]) w)"
  using assms lock_entry [OF assms(1)] Remove_entry [of w lock_dir k]
  by (auto simp: default_allocator DeleteAllocatedPCI_def Let_def lock_path [OF assms(1,2)] run_call)

lemma demo_del_register:
  assumes "lock_inv lock_dir w" "fault w = (\<lambda>_ _. None)" "lookup w (lock_dir @ [DeviceID n]) \<noteq> None" "plain (DeviceID n)"
  shows "del_register (demo_env nl) \<lparr>conf = n, errv = None, world = w\<rparr> =
    (Ok (), \<lparr>conf = n, errv = None, world = demo_request (Deleted (Master n @ Itoa (VFID n))) (del (lock_dir @ [DeviceID n]) w)\<rparr>)"
proof -
  let ?s = "\<lambda>w. \<lparr>conf = n, errv = None, world = w\<rparr>" and ?w = "del (lock_dir @ [DeviceID n]) w"
  note unlocked = step_assign [where m = "DeleteAllocatedPCI (NewPCIAllocator DefaultCNIDir) (DeviceID n)",
      OF unlock_runs [OF assms(1,4,2,3)]]
  have dial: "try_else (on_w (call (\<lambda>w. (Inr 1, w)))) h k (?s ?w) = k 1 (?s ?w)"
    for h and k :: "int \<Rightarrow> (dpu_request list os_scheme locals, unit) prog"
    by (rule run_Ok(1)) (simp add: zoom_def call_def)
  have "assign (on_w (call (\<lambda>w. (Inr (), demo_request q w)))) f ret (?s ?w) = (Ok (), ?s (demo_request q ?w))" for q f
    by (subst step_assign) (simp_all add: call_def zoom_def)
  then have "deferring (on_w (call (\<lambda>w. (Inr (), w)))) (assign (on_w (call (\<lambda>w. (Inr (), demo_request q w)))) f ret) (?s ?w) =
      (Ok (), ?s (demo_request q ?w))" for q f
    by (rule run_deferring, simp add: call_def zoom_def, simp_all)
  then show ?thesis by (simp add: del_register_def unlocked dial)
qed

lemma demo_del_main:
  assumes "LoadConfFromCache demo_unmarshal ''c1'' ''net1'' w = (Ok (n, p), w)"
    and "MAC n = []" "SpoofChk n = []" "Trust n = []" "MinTxRate n = None" "MaxTxRate n = None" "LinkState n = []" "IpamType n = []"
    and "DeviceID n = ''0000:af:06.1''" "Master n = ''enp175s0f1''" "sys_like w"
    and "lock_inv lock_dir w" "lookup w (lock_dir @ [DeviceID n]) \<noteq> None"
  shows "\<exists>w'. del_main (demo_env pod_nl) demo_args w = (Ok (), w')"
proof -
  let ?x = "demo_env pod_nl" and ?s = "\<lparr>conf = n, errv = None, world = w\<rparr>"
  let ?s' = "\<lparr>conf = n, errv = None, world = demo_request (Deleted (Master n @ Itoa (VFID n))) (del (lock_dir @ [DeviceID n]) w)\<rparr>"
  have vf: "on_w (GetVfid (DeviceID n) (Master n)) ?s = (Ok 1, ?s)"
    using test_vfid [OF assms(11)] assms(9,10) by (simp add: zoom_def)
  have reset: "on_w (ResetVFConfig (sm ?x) n) ?s = (Ok (), ?s)"
    using pod_reset [of n w] assms by (simp add: zoom_def)
  have release: "on_w (ReleaseVF (sm ?x) n ''net1'' (demo_netns q)) ?s = (Ok (), ?s)" for q
    using pod_release [of n "''net1''" q w] assms by (simp add: zoom_def)
  have "plain (DeviceID n)" using assms(9) by (simp add: plain_def)
  from demo_del_register [OF assms(12) sys_likeD(2) [OF assms(11)] assms(13) this]
  have reg: "del_register ?x ?s = (Ok (), ?s')" .
  have open_ns: "on_w (ask (\<lambda>w. Inr (demo_netns q :: dpu_request list os_scheme NetNS))) ?s = (Ok (demo_netns q), ?s)" for q by (simp add: zoom_def ask_def)
  have steps: "del_steps ?x demo_args n ?s = (Ok (), ?s')"
    using assms(8) release [of "''/proc/7/ns/net''"] open_ns [of "''/proc/7/ns/net''"]
    by (cases "DPDKMode n") (simp_all add: del_steps_def check_def andthen_def try_else_def vf reset reg)
  have "total (del_clean p :: (dpu_request list os_scheme locals, unit) prog)"
    unfolding del_clean_def CleanCachedNetConf_def by (intro total_intros)
  then obtain q s2 where clean: "del_clean p ?s' = (q, s2)" "\<not> abnormal q"
    by (cases "del_clean p ?s'") (auto dest: totalD)
  have "del_cached ?x demo_args p ?s = (Ok (), s2)"
    unfolding del_cached_eq
    by (rule run_deferring [where d = "del_clean p" and ?w1.0 = ?s' and q = q]) (simp_all add: steps clean)
  then show ?thesis using assms(1) by (auto simp: del_main_def try_else_def with_locals_def)
qed

section \<open>Witnesses\<close>

definition pod_start :: log_state where
  "pod_start = \<lparr>level = 1, to_stderr = True, logFile = [], containerID = [], netNS = [], ifName = []\<rparr>"

abbreviation demo_x :: "(dpu_request list os_scheme, unit, unit, unit) cni_ext" where
  "demo_x \<equiv> demo_env pod_nl"

lemma demo_laws: "spares_files demo_x" "daemon_log demo_x os.more"
  by (rule demo_spares_files demo_daemon_log, rule demo_netlink_keeps)+

lemma demo_hyps:
  "cni_inv (cache_ref (ContainerID demo_args) (IfName demo_args)) (test_os l)" "plain (IfName demo_args)"
  "then_dec (Unmarshal demo_x (StdinData demo_args)) NetConf_of_json = Inr n \<Longrightarrow> plain (DeviceID n)"
  using demo_cni_inv [of l] pod_plain [of n] by (simp_all add: plain_def)

lemma demo_add:
  "\<exists>s' w'. cmdAdd demo_x demo_args (pod_start, test_os l) = (Ok (), (s', w')) \<and> sys_like w' \<and> os.more w' = l @ [pod_request]"
  using demo_set_logging [of "''c1''" "''/proc/7/ns/net''" "''net1''" pod_start] demo_add_main [of l]
  by (auto simp: cmdAdd_Ok)

lemma demo_pod_request: "pod_request = Created \<lparr>PortName = ''enp175s0f1'' @ Itoa 1,
    Spec = Some \<lparr>Ptype = 1, MacAddress = [2, 8, 0, 0, 0, 5], LogicalBridges = [Itoa 3]\<rparr>, Status = None\<rparr>"
  by (simp add: pod_request_def create_request_def)

abbreviation demo_w :: "dpu_request list os_scheme" where
  "demo_w \<equiv> test_os []"

lemma demo_no_requests [simp]: "os.more demo_w = []"
  by (simp add: test_os_def)

theorem add_success_witness:
  "\<exists>s' w' (n :: NetConf) mac. cmdAdd demo_x demo_args (pod_start, demo_w) = (Ok (), (s', w')) \<and>
     GetPciAddress (Master n) (VFID n) demo_w = (Ok (DeviceID n), demo_w) \<and>
     lock_holder lock_dir w' (DeviceID n) = Some ''/proc/7/ns/net'' \<and>
     os.more w' = [Created \<lparr>PortName = Master n @ Itoa (VFID n),
        Spec = Some \<lparr>Ptype = 1, MacAddress = mac, LogicalBridges = [Itoa (VFID n + 2)]\<rparr>, Status = None\<rparr>]"
proof -
  obtain s' w' where run: "cmdAdd demo_x demo_args (pod_start, demo_w) = (Ok (), (s', w'))"
    using demo_add [of "[]"] by (elim exE conjE) (rule that)
  obtain n :: NetConf and mac where
    "GetPciAddress (Master n) (VFID n) demo_w = (Ok (DeviceID n), demo_w)"
    "lock_holder lock_dir w' = (lock_holder lock_dir demo_w)(DeviceID n \<mapsto> Netns demo_args)"
    "os.more w' = os.more demo_w @ [Created \<lparr>PortName = Master n @ Itoa (VFID n),
        Spec = Some \<lparr>Ptype = 1, MacAddress = mac, LogicalBridges = [Itoa (VFID n + 2)]\<rparr>, Status = None\<rparr>]"
    by (rule exE [OF add_success [OF demo_laws demo_hyps(1,2) _ run]], erule demo_hyps(3), elim exE conjE) (rule that)
  then show ?thesis
    using run by (intro exI [of _ s'] exI [of _ w'] exI [of _ n] exI [of _ mac]) (simp add: demo_no_requests)
qed

lemma demo_added:
  "\<exists>s' w' n. cmdAdd demo_x demo_args (pod_start, demo_w) = (Ok (), (s', w')) \<and> sys_like w' \<and>
     os.more w' = [pod_request] \<and> same_but_effective demo_loaded n \<and> ints_ok n \<and>
     lookup w' (cni_dir @ [cache_ref ''c1'' ''net1'']) = Some (File (json_code (json_of_NetConf n))) \<and>
     lookup w' (lock_dir @ [''0000:af:06.1'']) \<noteq> None \<and> cni_inv (cache_ref ''c1'' ''net1'') w' \<and> real_dir w' cni_dir"
proof -
  obtain s' w' where run: "cmdAdd demo_x demo_args (pod_start, demo_w) = (Ok (), (s', w'))"
    and w': "sys_like w'" "os.more w' = [] @ [pod_request]"
    using demo_add [of "[]"] by (elim exE conjE) (rule that)
  have main: "add_main demo_x demo_args demo_w = (Ok (), w')" using run by (simp add: cmdAdd_Ok)
  obtain n :: NetConf and n0 e w0 where n: "LoadConf (Unmarshal demo_x) (GetNS demo_x) (StdinData demo_args) demo_w = (Ok n0, w0)"
      "getEnvArgs demo_x (Args demo_args) = Inr e" "same_but_effective (add_mac e n0) n"
      "lookup w' (cni_dir @ [cache_ref (ContainerID demo_args) (IfName demo_args)]) = Some (File (render_json demo_x (json_of_NetConf n)))"
      "lock_holder lock_dir w' = (lock_holder lock_dir demo_w)(DeviceID n0 \<mapsto> Netns demo_args)"
      "cni_inv (cache_ref (ContainerID demo_args) (IfName demo_args)) w'" "real_dir w' cni_dir"
    by (rule exE [OF add_main_Ok [OF demo_laws(1) demo_hyps(1,2) _ demo_laws(2) main]], erule demo_hyps(3), elim exE conjE)
       (rule that)
  have n0: "n0 = demo_loaded" "e = None" using n(1,2) by (simp_all add: demo_load_stdin demo_envArgs)
  have "lookup w' (lock_dir @ [''0000:af:06.1'']) \<noteq> None"
    using fun_cong [OF n(5), of "''0000:af:06.1''"] n0 by (auto simp: lock_holder_def split: option.splits)
  moreover have "ints_ok n"
    using n(3) n0 by (auto simp: same_but_effective_def ints_ok_def demo_loaded_def zero_NetConf_def zero_VfState_def in_int64_def)
  ultimately show ?thesis
    using run w' n n0 by (intro exI [of _ s'] exI [of _ w'] exI [of _ n]) simp
qed

lemma demo_load_cached:
  assumes "real_dir u cni_dir" "plain (cache_ref i n)" "sys_like u" "ints_ok c"
    and "lookup u (cni_dir @ [cache_ref i n]) = Some (File (json_code (json_of_NetConf c)))"
  shows "LoadConfFromCache demo_unmarshal i n u = (Ok (c\<lparr>DPDKMode := False\<rparr>, Join [DefaultCNIDir, cache_ref i n]), u)"
  by (rule load_cached [where render = json_code]) (simp_all add: assms demo_codec sys_likeD(2) [OF assms(3)])

lemma demo_add_del:
  "\<exists>s1 w1 s2 w2. cmdAdd demo_x demo_args (pod_start, demo_w) = (Ok (), (s1, w1)) \<and>
     cmdDel demo_x demo_args (s1, w1) = (Ok (), (s2, w2)) \<and> os.more w1 = [pod_request] \<and> fault w1 = (\<lambda>_ _. None)"
proof -
  obtain s1 w1 n where add: "cmdAdd demo_x demo_args (pod_start, demo_w) = (Ok (), (s1, w1))"
    and w1: "sys_like w1" "os.more w1 = [pod_request]" "lookup w1 (lock_dir @ [''0000:af:06.1'']) \<noteq> None"
      "cni_inv (cache_ref ''c1'' ''net1'') w1" "real_dir w1 cni_dir"
    and n: "same_but_effective demo_loaded n" "ints_ok n"
      "lookup w1 (cni_dir @ [cache_ref ''c1'' ''net1'']) = Some (File (json_code (json_of_NetConf n)))"
    using demo_added by (elim exE conjE) (rule that)
  have faults: "\<And>p. fault w1 ''open'' p = None" using sys_likeD(2) [OF w1(1)] by simp
  have "plain (cache_ref ''c1'' ''net1'')" using w1(4) by (simp add: cni_inv_def cache_file_def)
  from demo_load_cached [OF w1(5) this w1(1) n(2,3)]
  have load: "LoadConfFromCache demo_unmarshal ''c1'' ''net1'' w1 =
      (Ok (n\<lparr>DPDKMode := False\<rparr>, Join [DefaultCNIDir, cache_ref ''c1'' ''net1'']), w1)" .
  have locks: "lock_inv lock_dir w1" using w1(4) by (simp add: cni_inv_def)
  have fields: "DeviceID n = ''0000:af:06.1''" "Master n = ''enp175s0f1''" "MAC n = []" "SpoofChk n = []" "Trust n = []"
      "MinTxRate n = None" "MaxTxRate n = None" "LinkState n = []" "IpamType n = []"
    using n(1) by (auto simp: same_but_effective_def)
  have "\<exists>w2. del_main demo_x demo_args w1 = (Ok (), w2)"
    using w1(3) by (intro demo_del_main [OF load _ _ _ _ _ _ _ _ _ w1(1) locks]) (simp_all add: fields)
  then obtain s2 w2 where del: "cmdDel demo_x demo_args (s1, w1) = (Ok (), (s2, w2))"
    using demo_set_logging [of "''c1''" "''/proc/7/ns/net''" "''net1''" s1] by (auto simp: cmdDel_Ok)
  show ?thesis
    using add del w1(2) sys_likeD(2) [OF w1(1)] by (intro exI [of _ s1] exI [of _ w1] exI [of _ s2] exI [of _ w2]) simp
qed

lemma demo_codec_x: "Unmarshal demo_x (render_json demo_x (json_of_NetConf n)) = Inr (json_of_NetConf n)"
  by (simp add: demo_codec)

lemma demo_live: "Netns demo_args \<noteq> [] \<and> (\<forall>v. \<not> isl (GetNS demo_x (Netns demo_args) v))"
  by simp

theorem add_then_del_witness:
  "\<exists>s1 w1 s2 w2. cmdAdd demo_x demo_args (pod_start, demo_w) = (Ok (), (s1, w1)) \<and>
     cmdDel demo_x demo_args (s1, w1) = (Ok (), (s2, w2)) \<and>
     os.more w2 = [pod_request, Deleted (''enp175s0f1'' @ Itoa 1)]"
proof -
  obtain s1 w1 s2 w2 where add: "cmdAdd demo_x demo_args (pod_start, demo_w) = (Ok (), (s1, w1))"
    and del: "cmdDel demo_x demo_args (s1, w1) = (Ok (), (s2, w2))"
    and w1: "os.more w1 = [pod_request]" "fault w1 = (\<lambda>_ _. None)"
    using demo_add_del by (elim exE conjE) (rule that)
  have faults: "\<And>p. fault w1 ''open'' p = None" by (simp add: w1(2))
  obtain port where "os.more w1 = os.more demo_w @ [Created port]" "os.more w2 = os.more w1 @ [Deleted (PortName port)]"
    by (rule exE [OF add_then_del [OF demo_laws demo_hyps(1,2) _ demo_codec_x add refl faults refl refl del]],
        erule demo_hyps(3)) (use demo_live in \<open>elim conjE, simp\<close>)
  moreover from this(1) w1(1) have "Created port = pod_request" by simp
  then have "PortName port = ''enp175s0f1'' @ Itoa 1" unfolding demo_pod_request by (metis BridgePort.select_convs(1) dpu_request.inject(1))
  ultimately have "os.more w2 = [pod_request, Deleted (''enp175s0f1'' @ Itoa 1)]" using w1(1) by simp
  then show ?thesis
    using add del by (intro exI [of _ s1] exI [of _ w1] exI [of _ s2] exI [of _ w2]) simp
qed

definition mac_conf :: NetConf where
  "mac_conf = demo_loaded\<lparr>MAC := ''02:00:00:00:00:05''\<rparr>"

theorem del_forgets_witness:
  "\<exists>w e s' w'. LoadConfFromCache demo_unmarshal ''c1'' ''net1'' w =
      (Ok (mac_conf, Join [DefaultCNIDir, cache_ref ''c1'' ''net1'']), w) \<and>
     cmdDel demo_x demo_args (pod_start, w) = (Err e, (s', w')) \<and> os.more w' = [] \<and>
     (\<forall>t. \<exists>t'. cmdDel demo_x demo_args (t, w') = (Ok (), (t', w')))"
proof -
  obtain w where save: "SaveNetConf json_code ''c1'' DefaultCNIDir ''net1'' mac_conf demo_w = (Ok (), w)"
    and w: "sys_like w" "os.more w = os.more demo_w"
    using save_conf_runs [where w = demo_w and c = mac_conf and r = json_code, OF demo_cni_inv sys_likeD(2) [OF test_sys_like] test_sys_like] by (elim exE conjE) (rule that)
  note cached = SaveNetConf_inv [OF demo_cni_inv save]
  have faults: "\<And>p. fault w ''remove'' p = None" using sys_likeD(2) [OF w(1)] by simp
  have "plain (cache_ref ''c1'' ''net1'')" using cached(1) by (simp add: cni_inv_def cache_file_def)
  moreover have ints: "ints_ok mac_conf"
    by (simp add: mac_conf_def ints_ok_def demo_loaded_def zero_NetConf_def zero_VfState_def in_int64_def)
  ultimately have "LoadConfFromCache demo_unmarshal ''c1'' ''net1'' w =
      (Ok (mac_conf\<lparr>DPDKMode := False\<rparr>, Join [DefaultCNIDir, cache_ref ''c1'' ''net1'']), w)"
    using demo_load_cached [OF cached(2) _ w(1) ints cached(4)] by simp
  moreover have "mac_conf\<lparr>DPDKMode := False\<rparr> = mac_conf" by (simp add: mac_conf_def demo_loaded_def zero_NetConf_def)
  ultimately have load: "LoadConfFromCache demo_unmarshal ''c1'' ''net1'' w =
      (Ok (mac_conf, Join [DefaultCNIDir, cache_ref ''c1'' ''net1'']), w)" by simp
  have keeps: "env_keeps (\<lambda>w. fault w = v) demo_x" for v by (rule demo_env_keeps [OF demo_netlink_keeps])
  have hyps: "cni_inv (cache_ref (ContainerID demo_args) (IfName demo_args)) w" "Netns demo_args \<noteq> []"
      "LoadConfFromCache (Unmarshal demo_x) (ContainerID demo_args) (IfName demo_args) w =
        (Ok (mac_conf, Join [DefaultCNIDir, cache_ref ''c1'' ''net1'']), w)"
      "MAC mac_conf \<noteq> []" "AdminMAC (OrigVfState mac_conf) = []" "IpamType mac_conf = []"
    using cached(1) load by (simp_all add: mac_conf_def demo_loaded_def zero_NetConf_def zero_VfState_def)
  have log: "\<exists>s'. SetLogging (cni_log demo_x) (Unmarshal demo_x) (StdinData demo_args) (ContainerID demo_args) (Netns demo_args)
      (IfName demo_args) s = Inr s'" for s
    using demo_set_logging by simp
  from del_forgets [OF demo_laws keeps hyps(1) cached(2) faults hyps(3-6,2) log, of pod_start] load w(2)
  show ?thesis by (elim exE conjE) (intro exI [of _ w] exI conjI, assumption, assumption, simp, assumption)
qed

text \<open>A link library in which no device can be set down, and one that finds no device.\<close>

definition down_nl :: "'w NetlinkManager" where
  "down_nl = pod_nl\<lparr>LinkSetDown := \<lambda>_ w. (Inl (Ext ''EBUSY''), w)\<rparr>"

definition lost_nl :: "'w NetlinkManager" where
  "lost_nl = pod_nl\<lparr>LinkByName := \<lambda>_ w. (Inl (Ext ''ENODEV''), w)\<rparr>"

lemma down_nl_simps [simp]:
  "LinkByName down_nl = (\<lambda>_ w. (Inr demo_pod_link, w))" "LinkSetDown down_nl = (\<lambda>_ w. (Inl (Ext ''EBUSY''), w))"
  "LinkByName lost_nl = (\<lambda>_ w. (Inl (Ext ''ENODEV''), w))"
  by (simp_all add: down_nl_def lost_nl_def)


text \<open>The same tree, where the second virtual function has a DPDK driver and no network device.\<close>

definition dpdk_tree :: "(string list \<times> node) list" where
  "dpdk_tree =
     [(vf_dir @ [''driver''], Link ''/sys/bus/pci/drivers/vfio-pci''), ([''sys'', ''bus'', ''pci'', ''drivers''], Dir),
      ([''sys'', ''bus'', ''pci'', ''drivers'', ''vfio-pci''], Dir)] @
     filter (\<lambda>(p, _). take 4 p \<noteq> vf_dir @ [''net'']) test_tree"

definition dpdk_w :: "dpu_request list os_scheme" where
  "dpdk_w = demo_w\<lparr>nodes := dpdk_tree\<rparr>"

lemma dpdk_lookup: "p \<noteq> [] \<Longrightarrow> lookup dpdk_w p = map_of dpdk_tree p"
  by (simp add: lookup_def dpdk_w_def)

lemma map_of_take_filter: "map_of (filter (\<lambda>(p, _). take k p \<noteq> q) xs) p = (if take k p = q then None else map_of xs p)"
  by (induction xs) auto

lemma dpdk_sys_like: "sys_like dpdk_w"
proof -
  have "take 4 (''sys'' # p) \<noteq> vf_dir @ [''net'']" if "take 2 p \<noteq> [''devices'', ''0000:af:06.1'']" for p
  proof
    assume "take 4 (''sys'' # p) = vf_dir @ [''net'']"
    then have "take 2 (take 3 p) = [''devices'', ''0000:af:06.1'']" by (simp add: vf_dir_def take_Cons')
    with that show False by simp
  qed
  then show ?thesis
    by (auto simp: sys_like_def dpdk_lookup dpdk_tree_def map_of_take_filter vf_dir_def)
       (simp_all add: dpdk_w_def test_os_def)
qed

lemma dpdk_pf: "GetPfName ''0000:af:06.1'' dpdk_w = (Ok ''enp175s0f1'', dpdk_w)"
proof -
  have p: "Join [SysBusPci, ''0000:af:06.1'', ''physfn'', ''net''] = ''/sys/bus/pci/devices/0000:af:06.1/physfn/net''"
    by (simp add: Join_def Clean_def SysBusPci_def is_abs_def components_def abs_path_def)
  have q: "resolve h dpdk_w ''/sys/bus/pci/devices/0000:af:06.1/physfn/net'' = Inr (pf_dir @ [''net''])" for h
    by (simp add: resolve_def is_abs_def components_def dpdk_lookup dpdk_tree_def test_tree_def pf_dir_def vf_dir_def
        max_links_def eval_nat_numeral)
  have n: "lookup dpdk_w (pf_dir @ [''net'']) = Some Dir" "fault dpdk_w = (\<lambda>_ _. None)"
    "entries (pf_dir @ [''net'']) dpdk_w = [''enp175s0f1'']"
    by (simp_all add: lookup_def entries_def dpdk_w_def test_os_def dpdk_tree_def test_tree_def pf_dir_def vf_dir_def)
  have t: "TrimSpace ''enp175s0f1'' = ''enp175s0f1''" by (simp add: TrimSpace_def is_space_def)
  show ?thesis by (simp add: GetPfName_def p Let_def ok_iffs os_Lstat_def os_ReadDir_def find_node_def q n t)
qed

lemma dpdk_no_link: "\<exists>e. GetVFLinkName ''0000:af:06.1'' dpdk_w = (Err e, dpdk_w)"
proof -
  have p: "Join [SysBusPci, ''0000:af:06.1'', ''net''] = ''/sys/bus/pci/devices/0000:af:06.1/net''"
    by (simp add: Join_def Clean_def SysBusPci_def is_abs_def components_def abs_path_def)
  have q: "resolve NoFollow dpdk_w ''/sys/bus/pci/devices/0000:af:06.1/net'' = Inl ENOENT"
    by (simp add: resolve_def is_abs_def components_def dpdk_lookup dpdk_tree_def test_tree_def pf_dir_def vf_dir_def
        max_links_def eval_nat_numeral)
  have "fault dpdk_w = (\<lambda>_ _. None)" by (simp add: dpdk_w_def test_os_def)
  then show ?thesis by (simp add: GetVFLinkName_def p Let_def andthen_def try_else_def os_calls os_Lstat_def find_node_def q fail_def)
qed

lemma dpdk_driver: "HasDpdkDriver ''0000:af:06.1'' dpdk_w = (Ok True, dpdk_w)"
proof -
  have p: "Join [SysBusPci, ''0000:af:06.1'', ''driver''] = ''/sys/bus/pci/devices/0000:af:06.1/driver''"
    by (simp add: Join_def Clean_def SysBusPci_def is_abs_def components_def abs_path_def)
  have q: "resolve Follow dpdk_w ''/sys/bus/pci/devices/0000:af:06.1/driver'' = Inr [''sys'', ''bus'', ''pci'', ''drivers'', ''vfio-pci'']"
    "resolve Follow dpdk_w (abs_path [''sys'', ''bus'', ''pci'', ''drivers'', ''vfio-pci'']) =
      Inr [''sys'', ''bus'', ''pci'', ''drivers'', ''vfio-pci'']"
    by (simp_all add: resolve_def is_abs_def components_def dpdk_lookup dpdk_tree_def test_tree_def pf_dir_def vf_dir_def
        max_links_def eval_nat_numeral abs_path_def)
  have n: "lookup dpdk_w [''sys'', ''bus'', ''pci'', ''drivers'', ''vfio-pci''] = Some Dir" "fault dpdk_w = (\<lambda>_ _. None)"
    by (simp_all add: lookup_def dpdk_w_def test_os_def dpdk_tree_def vf_dir_def)
  have b: "Base (abs_path [''sys'', ''bus'', ''pci'', ''drivers'', ''vfio-pci'']) = ''vfio-pci''"
    by (simp add: Base_def abs_path_def components_def)
  show ?thesis
    by (simp add: HasDpdkDriver_def p Let_def ok_iffs EvalSymlinks_def os_Stat_def find_node_def q n b UserspaceDrivers_def)
qed

definition dpdk_loaded :: NetConf where
  "dpdk_loaded = zero_NetConf\<lparr>DeviceID := ''0000:af:06.1'', Vlan := Some 7, VlanQoS := Some 0,
     VlanProto := Some ''802.1q'', DpuDaemonAddress := default_addr, VFID := 1, Master := ''enp175s0f1'', DPDKMode := True\<rparr>"

lemma dpdk_free: "IsAllocated opn (NewPCIAllocator DefaultCNIDir) ''0000:af:06.1'' dpdk_w = (Ok False, dpdk_w)"
proof -
  have var: "lookup dpdk_w (''var'' # p) = None" for p
    by (simp add: dpdk_lookup dpdk_tree_def map_of_take_filter test_tree_def pf_dir_def vf_dir_def)
  have "lookup dpdk_w (take i lock_dir) \<in> {None, Some Dir}" for i
    by (cases i) (simp_all add: lock_dir_def cni_dir_def var, simp add: lookup_def)
  moreover have f: "fault dpdk_w = (\<lambda>_ _. None)" by (simp add: dpdk_w_def test_os_def)
  ultimately have l: "lock_inv lock_dir dpdk_w"
    by (auto simp: lock_inv_def dir_or_none_def lock_dir_def cni_dir_def plain_def var)
  then have "dir_or_none dpdk_w lock_dir" by (simp add: lock_inv_def)
  moreover have "lookup dpdk_w (lock_dir @ [''0000:af:06.1'']) = None" by (simp add: lock_dir_def cni_dir_def var)
  moreover have p: "plain ''0000:af:06.1''" by (simp add: plain_def)
  ultimately have "resolve Follow dpdk_w (abs_path (lock_dir @ [''0000:af:06.1''])) = Inl ENOENT"
    by (intro resolve_missing_dir p) simp_all
  then show ?thesis
    unfolding default_allocator
    by (simp add: IsAllocated_def Let_def lock_path [OF l p] try_else_def os_calls os_Stat_def find_node_def ret_def f)
qed

theorem add_dpdk_never_succeeds_witness:
  "LoadConf (Unmarshal demo_x) (GetNS demo_x) (StdinData demo_args) dpdk_w = (Ok dpdk_loaded, dpdk_w) \<and>
   \<not> is_Ok (fst (cmdAdd demo_x demo_args (pod_start, dpdk_w)))"
proof -
  have info: "config_getVfInfo ''0000:af:06.1'' dpdk_w = (Ok (''enp175s0f1'', 1), dpdk_w)"
    by (simp add: config_getVfInfo_def ok_iffs dpdk_pf test_vfid [OF dpdk_sys_like])
  obtain e where e: "GetVFLinkName ''0000:af:06.1'' dpdk_w = (Err e, dpdk_w)" using dpdk_no_link by (elim exE) (rule that)
  have device: "load_device c dpdk_w = (Ok (c\<lparr>DPDKMode := True\<rparr>), dpdk_w)" if "DeviceID c = ''0000:af:06.1''" for c
    using that by (simp add: load_device_def andthen_def check_def try_else_def e dpdk_driver ret_def Let_def)
  have load: "LoadConf (Unmarshal demo_x) (GetNS demo_x) (StdinData demo_args) dpdk_w = (Ok dpdk_loaded, dpdk_w)"
    by (simp add: LoadConf_def demo_unmarshal_stdin demo_stdin_conf Let_def check_def andthen_def try_else_def info dpdk_free
        device demo_vlan zero_NetConf_def dpdk_loaded_def ret_def)
  from add_dpdk_never_succeeds [OF load, of pod_start] load show ?thesis
    by (simp add: dpdk_loaded_def zero_NetConf_def zero_VfState_def)
qed

end
