(* ===== verification/EndToEnd.thy ===== *)
theory EndToEnd
  imports Registry CniExamples
begin

text \<open>
  The life of a pod's port through both programs: the CNI plugin's commands produce the requests, the
  bridge-port service of the IPU plugin serves them.
\<close>

lemma accepted_valid:
  assumes "served nl s st log st'" and "Created bp \<in> set log"
  shows "\<exists>spec vlan. valid_request bp spec vlan"
  using assms
proof (induction rule: serves.induct)
  case (accepted log st1 r st2)
  show ?case
  proof (cases "r = Created bp")
    case True
    with accepted.hyps obtain p where "CreateBridgePort nl s (Some bp) st1 = (Ok p, st2)"
      by (auto simp: accepts_def is_Ok_iff ok_iffs split: prod.splits)
    then show ?thesis by (cases rule: create_cases) auto
  next
    case False
    with accepted show ?thesis by simp
  qed
qed simp_all

text \<open>C8. A pod's port from \<open>ADD\<close> to \<open>DEL\<close>. Both commands succeed, nobody touches the plugin's files in
  between, \<open>DEL\<close> is given a namespace that can be opened, and the service has accepted the requests
  the two commands made (refusing others, answering queries, while the rest of the world changes).
  Then the virtual function was one of 0 to 4092 and its address had a VSI octet; after \<open>ADD\<close> the
  service has exactly one more port, that of the function with the VLAN two above its number, unless
  it had one of that name already; and after \<open>DEL\<close> it has the ports of before, without that name.\<close>

theorem pod_port_end_to_end:
  assumes "spares_files x" "daemon_log x reqs" "cni_inv (cache_ref (ContainerID args) (IfName args)) w" "plain (IfName args)"
    and "\<And>n. then_dec (Unmarshal x (StdinData args)) NetConf_of_json = Inr n \<Longrightarrow> plain (DeviceID n)"
    and "\<And>n. Unmarshal x (render_json x (json_of_NetConf n)) = Inr (json_of_NetConf n)"
    and add: "cmdAdd x args (s, w) = (Ok (), (s1, w1))"
    and "cni_state u = cni_state w1" "\<And>p. fault u ''open'' p = None"
    and "ContainerID args' = ContainerID args" "IfName args' = IfName args"
    and del: "cmdDel x args' (s2, u) = (Ok (), (s3, u'))"
    and ns: "Netns args' \<noteq> []" "\<And>v. \<not> isl (GetNS x (Netns args') v)"
    and create: "served nl plugin st (drop (length (reqs w)) (reqs w1)) st1"
    and delete: "served nl plugin st1 (drop (length (reqs u)) (reqs u')) st2"
  shows "\<exists>(n :: NetConf) mac. 0 \<le> VFID n \<and> VFID n \<le> 4092 \<and> 2 \<le> length mac \<and> length mac \<le> 6 \<and> mac ! 1 \<noteq> 0 \<and>
    (Ports st (Master n @ Itoa (VFID n)) = None \<longrightarrow>
      Ports st1 = (Ports st)(Master n @ Itoa (VFID n) \<mapsto> \<lparr>PortName = Master n @ Itoa (VFID n),
        Spec = Some \<lparr>Ptype = 1, MacAddress = mac, LogicalBridges = [Itoa (VFID n + 2)]\<rparr>, Status = Some BP_OPER_STATUS_UP\<rparr>)) \<and>
    (Ports st (Master n @ Itoa (VFID n)) \<noteq> None \<longrightarrow> Ports st1 = Ports st) \<and>
    Ports st2 = (Ports st)(Master n @ Itoa (VFID n) := None)"
proof -
  obtain n mac where reqs: "reqs w1 = reqs w @ [Created (create_request n mac)]" "reqs u' = reqs u @ [Deleted (Master n @ Itoa (VFID n))]"
    using add_del_requests [OF assms(1-12)] ns by blast
  have c: "served nl plugin st [Created (create_request n mac)] st1" using create reqs(1) by simp
  have d: "served nl plugin st1 [Deleted (Master n @ Itoa (VFID n))] st2" using delete reqs(2) by simp
  have valid: "\<exists>spec vlan. valid_request (create_request n mac) spec vlan" using accepted_valid [OF c] by simp
  have "Ports st1 = reg_step (Ports st) (Created (create_request n mac))"
    using bps.run_registry [OF c] by (simp add: registry_def)
  moreover have "Ports st2 = (Ports st1)(Master n @ Itoa (VFID n) := None)" by (rule bps.run_deleted [OF d])
  ultimately show ?thesis
    using valid unfolding create_request_valid_iff
    by (intro exI [of _ n] exI [of _ mac]) (simp add: create_request_def)
qed

section \<open>A pod of the examples\<close>

text \<open>The run of \<open>CniExamples\<close> asks for one port and deletes it; the plugin of \<open>PluginExamples\<close> accepts both.\<close>

lemma demo_served:
  "\<exists>st1 st2. served demo_nl demo_server demo_state [pod_request] st1 \<and>
     served demo_nl demo_server st1 [Deleted (''enp175s0f1'' @ Itoa 1)] st2"
proof -
  let ?bp = "create_request pod_conf [2, 8, 0, 0, 0, 5]"
  have name: "PortName ?bp = ''enp175s0f1'' @ Itoa 1" by (simp add: create_request_def)
  have "\<exists>spec vlan. valid_request ?bp spec vlan" by (simp add: create_request_valid_iff)
  then obtain spec vlan where v: "valid_request ?bp spec vlan" by blast
  have "vlan_intf (PortName ?bp) vlan \<noteq> ''br-tenant''" "vlan_intf (PortName ?bp) vlan \<noteq> ''up0''"
    by (simp_all add: vlan_intf_def name)
  from demo_create_valid [OF v this] obtain st1 where
    c: "CreateBridgePort demo_nl demo_server (Some ?bp) demo_state = (Ok (?bp\<lparr>Status := Some BP_OPER_STATUS_UP\<rparr>), st1)"
      "Ports st1 = [PortName ?bp \<mapsto> ?bp\<lparr>Status := Some BP_OPER_STATUS_UP\<rparr>]" by blast
  then have "accepts demo_nl demo_server demo_state pod_request st1"
    by (simp add: pod_request_def accepts_def andthen_def try_else_def)
  then have created: "served demo_nl demo_server demo_state [pod_request] st1" by (rule served_one)
  let ?st = "st1\<lparr>env := [new_Vlan\<lparr>Name := vlan_intf (PortName ?bp) vlan, VlanId := vlan\<rparr>]\<rparr>"
  obtain st2 where "DeleteBridgePort demo_nl demo_server (PortName ?bp) ?st = (Ok (), st2)"
    using demo_delete_valid [OF v, of ?st] c(2) by auto
  then have "accepts demo_nl demo_server ?st (Deleted (PortName ?bp)) st2"
    by (simp add: accepts_def andthen_def try_else_def)
  moreover have "served demo_nl demo_server st1 [] ?st"
    by (rule serves.passed [OF serves.start]) (rule passes.world)
  ultimately have "served demo_nl demo_server st1 ([] @ [Deleted (PortName ?bp)]) st2" by (intro serves.accepted)
  with created show ?thesis unfolding name by auto
qed

lemma pod_port_end_to_end_witness:
  "\<exists>s1 w1 s2 w2 st1 st2 name. cmdAdd demo_x demo_args (pod_start, demo_w) = (Ok (), (s1, w1)) \<and>
     cmdDel demo_x demo_args (s1, w1) = (Ok (), (s2, w2)) \<and>
     served demo_nl demo_server demo_state (os.more w1) st1 \<and>
     served demo_nl demo_server st1 (drop (length (os.more w1)) (os.more w2)) st2 \<and>
     Ports st1 name \<noteq> None \<and> Ports st2 = Map.empty"
proof -
  obtain s1 w1 s2 w2 where add: "cmdAdd demo_x demo_args (pod_start, demo_w) = (Ok (), (s1, w1))"
    and del: "cmdDel demo_x demo_args (s1, w1) = (Ok (), (s2, w2))"
    and w1: "os.more w1 = [pod_request]" "fault w1 = (\<lambda>_ _. None)"
    using demo_add_del by (elim exE conjE) (rule that)
  have faults: "\<And>p. fault w1 ''open'' p = None" by (simp add: w1(2))
  note hyps = demo_laws demo_hyps(1,2) _ demo_codec_x add refl faults refl refl del
  obtain n :: NetConf and mac where log: "os.more w1 = os.more demo_w @ [Created (create_request n mac)]"
    "Netns demo_args \<noteq> [] \<and> (\<forall>v. \<not> isl (GetNS demo_x (Netns demo_args) v)) \<longrightarrow>
      os.more w2 = os.more w1 @ [Deleted (Master n @ Itoa (VFID n))]"
    by (rule exE [OF add_del_requests [OF hyps]], erule demo_hyps(3), elim exE conjE) (rule that)
  note log = log(1) mp [OF log(2) demo_live]
  have "[Created (create_request n mac)] = [pod_request]" using log(1) w1(1) by simp
  then have "reg_name (Created (create_request n mac)) = reg_name pod_request" by (simp only: list.inject)
  then have name: "Master n @ Itoa (VFID n) = ''enp175s0f1'' @ Itoa 1" by (simp add: create_request_def demo_pod_request)
  have drops: "drop (length (os.more demo_w)) (os.more w1) = [pod_request]"
    "drop (length (os.more w1)) (os.more w2) = [Deleted (''enp175s0f1'' @ Itoa 1)]"
    using w1(1) log(2) name by simp_all
  obtain st1 st2 where raw: "served demo_nl demo_server demo_state [pod_request] st1"
    "served demo_nl demo_server st1 [Deleted (''enp175s0f1'' @ Itoa 1)] st2"
    using demo_served by (elim exE conjE) (rule that)
  note served = raw [folded drops]
  have ns: "Netns demo_args \<noteq> []" "\<And>v. \<not> isl (GetNS demo_x (Netns demo_args) v)" by simp_all
  obtain n' :: NetConf and p where "Ports demo_state (Master n' @ Itoa (VFID n')) = None \<longrightarrow>
      Ports st1 = (Ports demo_state)(Master n' @ Itoa (VFID n') \<mapsto> p)"
    "Ports st2 = (Ports demo_state)(Master n' @ Itoa (VFID n') := None)"
    by (rule exE [OF pod_port_end_to_end [OF hyps ns served]], erule demo_hyps(3), elim exE conjE) (rule that)
  then have ports: "Ports st1 (Master n' @ Itoa (VFID n')) \<noteq> None" "Ports st2 = Map.empty"
    by (simp_all add: demo_names fun_upd_def)
  have "served demo_nl demo_server demo_state (os.more w1) st1" unfolding w1(1) by (rule raw(1))
  note all = conjI [OF add conjI [OF del conjI [OF this conjI [OF served(2) conjI [OF ports]]]]]
  show ?thesis by (intro exI) (rule all)
qed

end
